(* ===== verification/Prelude.thy ===== *)
theory Prelude
  imports Main "HOL-Library.AList"
begin

text \<open>
  Shared vocabulary of the development: thrown errors as values, the two effect
  types (pure code that may throw, and code that also changes state), JavaScript
  objects and insertion-ordered sets as lists, and the contracts (locales) that
  several components promise.

  \<^item> \<open>'a result\<close> is a synchronous function that returns a value or throws.
  \<^item> \<open>('s, 'a) io\<close> is an \<open>async\<close> function run to completion over a state: it
    returns, throws, or never settles (\<open>Hang\<close>: it waits for a lock that nobody
    releases, or its recursion never ends).
\<close>

named_theorems run_simps \<open>how the effect combinators run\<close>
named_theorems bind_iffs \<open>when a composed computation returns\<close>

section \<open>Errors\<close>

text \<open>
  The classes \<open>OmnibaseError\<close> (message, code, optional detail; \<open>PermissionError\<close> and
  \<open>ConnectionError\<close> are built from it) and the built-in \<open>Error\<close>.
\<close>

datatype error =
    OmnibaseError (err_message: string) (err_code: string) (err_detail: "string option")
  | JsError (err_message: string)

section \<open>Code that may throw\<close>

type_synonym 'a result = "error + 'a"

fun bindR :: "'a result \<Rightarrow> ('a \<Rightarrow> 'b result) \<Rightarrow> 'b result" where
  "bindR (Inl e) f = Inl e"
| "bindR (Inr x) f = f x"

definition guardR :: "bool \<Rightarrow> error \<Rightarrow> unit result" where
  "guardR bad e = (if bad then Inl e else Inr ())"

fun mapR :: "('a \<Rightarrow> 'b result) \<Rightarrow> 'a list \<Rightarrow> 'b list result" where
  "mapR f [] = Inr []"
| "mapR f (x # xs) = bindR (f x) (\<lambda>y. bindR (mapR f xs) (\<lambda>ys. Inr (y # ys)))"

text \<open>A \<open>for\<close> loop whose body only checks: it stops at the first throw.\<close>

fun forR :: "('a \<Rightarrow> unit result) \<Rightarrow> 'a list \<Rightarrow> unit result" where
  "forR f [] = Inr ()"
| "forR f (x # xs) = bindR (f x) (\<lambda>_. forR f xs)"

lemma bindR_eq_Inr [bind_iffs]: "bindR m f = Inr y \<longleftrightarrow> (\<exists>x. m = Inr x \<and> f x = Inr y)"
  by (cases m) auto

lemma bindR_eq_Inl:
  "bindR m f = Inl e \<longleftrightarrow> m = Inl e \<or> (\<exists>x. m = Inr x \<and> f x = Inl e)"
  by (cases m) auto

lemma guardR_eq_Inr [bind_iffs, simp]: "guardR b e = Inr u \<longleftrightarrow> \<not> b"
  by (simp add: guardR_def)

lemma guardR_eq_Inl [simp]: "guardR b e = Inl e' \<longleftrightarrow> b \<and> e = e'"
  by (simp add: guardR_def)

lemma guardR_False [simp]: "guardR False e = Inr ()"
  by (simp add: guardR_def)

lemma guardR_True [simp]: "guardR True e = Inl e"
  by (simp add: guardR_def)

lemma forR_eq_Inr [bind_iffs]: "forR f xs = Inr u \<longleftrightarrow> (\<forall>x \<in> set xs. f x = Inr ())"
  by (induction xs) (auto simp: bindR_eq_Inr)

lemma forR_eq_Inl: "forR f xs = Inl e \<Longrightarrow> \<exists>x \<in> set xs. f x = Inl e"
  by (induction xs) (auto simp: bindR_eq_Inl)

lemma mapR_length: "mapR f xs = Inr ys \<Longrightarrow> length ys = length xs"
  by (induction xs arbitrary: ys) (auto simp: bindR_eq_Inr)

lemma mapR_list_all2: "mapR f xs = Inr ys \<longleftrightarrow> list_all2 (\<lambda>x y. f x = Inr y) xs ys"
  by (induction xs arbitrary: ys) (auto simp: bindR_eq_Inr list_all2_Cons1)

lemma mapR_Inr_map: "(\<And>x. x \<in> set xs \<Longrightarrow> f x = Inr (g x)) \<Longrightarrow> mapR f xs = Inr (map g xs)"
  by (induction xs) auto

section \<open>Code that changes state\<close>

datatype 'a outcome = Ret 'a | Throw error | Hang

type_synonym ('s, 'a) io = "'s \<Rightarrow> 'a outcome \<times> 's"

definition ret :: "'a \<Rightarrow> ('s, 'a) io" where
  "ret a = (\<lambda>s. (Ret a, s))"

definition throw :: "error \<Rightarrow> ('s, 'a) io" where
  "throw e = (\<lambda>s. (Throw e, s))"

definition liftR :: "'a result \<Rightarrow> ('s, 'a) io" where
  "liftR r = (case r of Inl e \<Rightarrow> throw e | Inr a \<Rightarrow> ret a)"

definition gets :: "('s \<Rightarrow> 'a) \<Rightarrow> ('s, 'a) io" where
  "gets f = (\<lambda>s. (Ret (f s), s))"

definition modify :: "('s \<Rightarrow> 's) \<Rightarrow> ('s, unit) io" where
  "modify f = (\<lambda>s. (Ret (), f s))"

definition bindM :: "('s, 'a) io \<Rightarrow> ('a \<Rightarrow> ('s, 'b) io) \<Rightarrow> ('s, 'b) io" where
  "bindM m f = (\<lambda>s. case m s of
       (Ret a, s') \<Rightarrow> f a s'
     | (Throw e, s') \<Rightarrow> (Throw e, s')
     | (Hang, s') \<Rightarrow> (Hang, s'))"

text \<open>\<open>try m catch (err) h\<close>.\<close>

definition try_catch :: "('s, 'a) io \<Rightarrow> (error \<Rightarrow> ('s, 'a) io) \<Rightarrow> ('s, 'a) io" where
  "try_catch m h = (\<lambda>s. case m s of
       (Ret a, s') \<Rightarrow> (Ret a, s')
     | (Throw e, s') \<Rightarrow> h e s'
     | (Hang, s') \<Rightarrow> (Hang, s'))"

text \<open>\<open>try m finally fin\<close>: \<open>fin\<close> runs after a return and after a throw; a throw of \<open>fin\<close> wins.\<close>

definition try_finally :: "('s, 'a) io \<Rightarrow> ('s, unit) io \<Rightarrow> ('s, 'a) io" where
  "try_finally m fin = (\<lambda>s. case m s of
       (Ret a, s') \<Rightarrow> bindM fin (\<lambda>_. ret a) s'
     | (Throw e, s') \<Rightarrow> bindM fin (\<lambda>_. throw e) s'
     | (Hang, s') \<Rightarrow> (Hang, s'))"

lemma ret_run [run_simps]: "ret a s = (Ret a, s)"
  by (simp add: ret_def)

lemma throw_run [run_simps]: "throw e s = (Throw e, s)"
  by (simp add: throw_def)

lemma gets_run [run_simps]: "gets f s = (Ret (f s), s)"
  by (simp add: gets_def)

lemma modify_run [run_simps]: "modify f s = (Ret (), f s)"
  by (simp add: modify_def)

lemma liftR_run [run_simps]:
  "liftR r s = (case r of Inl e \<Rightarrow> (Throw e, s) | Inr a \<Rightarrow> (Ret a, s))"
  by (simp add: liftR_def ret_def throw_def split: sum.split)

lemma bindM_run [run_simps]:
  "bindM m f s = (case m s of
       (Ret a, s') \<Rightarrow> f a s'
     | (Throw e, s') \<Rightarrow> (Throw e, s')
     | (Hang, s') \<Rightarrow> (Hang, s'))"
  by (simp add: bindM_def)

lemma try_catch_run [run_simps]:
  "try_catch m h s = (case m s of
       (Ret a, s') \<Rightarrow> (Ret a, s')
     | (Throw e, s') \<Rightarrow> h e s'
     | (Hang, s') \<Rightarrow> (Hang, s'))"
  by (simp add: try_catch_def)

lemma try_finally_run [run_simps]:
  "try_finally m fin s = (case m s of
       (Ret a, s') \<Rightarrow> bindM fin (\<lambda>_. ret a) s'
     | (Throw e, s') \<Rightarrow> bindM fin (\<lambda>_. throw e) s'
     | (Hang, s') \<Rightarrow> (Hang, s'))"
  by (simp add: try_finally_def)

lemma bindM_eq_Ret [bind_iffs]:
  "bindM m f s = (Ret b, s'') \<longleftrightarrow> (\<exists>a s'. m s = (Ret a, s') \<and> f a s' = (Ret b, s''))"
  by (auto simp: bindM_def split: prod.split outcome.split)

lemma liftR_eq_Ret [bind_iffs]: "liftR r s = (Ret a, s') \<longleftrightarrow> r = Inr a \<and> s' = s"
  by (auto simp: liftR_run split: sum.split)

lemma bindM_liftR_Inr [simp]: "bindM (liftR (Inr a)) f s = f a s"
  by (simp add: bindM_def liftR_def ret_def)

lemma bindM_liftR_Inl [simp]: "bindM (liftR (Inl e)) f s = (Throw e, s)"
  by (simp add: bindM_def liftR_def throw_def)

text \<open>Computations that keep a property of the state, whether they return, throw or hang.\<close>

named_theorems keeps_intros \<open>which computations keep a property of the state\<close>

definition keeps :: "('s \<Rightarrow> bool) \<Rightarrow> ('s, 'a) io \<Rightarrow> bool" where
  "keeps P m \<longleftrightarrow> (\<forall>s. P s \<longrightarrow> P (snd (m s)))"

lemma keepsD: "keeps P m \<Longrightarrow> P s \<Longrightarrow> P (snd (m s))"
  by (simp add: keeps_def)

lemma keeps_run: "keeps P m \<Longrightarrow> P s \<Longrightarrow> m s = (r, s') \<Longrightarrow> P s'"
  by (metis keepsD snd_conv)

lemma keeps_ret [keeps_intros]: "keeps P (ret a)"
  by (simp add: keeps_def ret_def)

lemma keeps_throw [keeps_intros]: "keeps P (throw e)"
  by (simp add: keeps_def throw_def)

lemma keeps_liftR [keeps_intros]: "keeps P (liftR r)"
  by (simp add: keeps_def liftR_run split: sum.split)

lemma keeps_gets [keeps_intros]: "keeps P (gets f)"
  by (simp add: keeps_def gets_def)

lemma keeps_modify [keeps_intros]: "(\<And>s. P s \<Longrightarrow> P (f s)) \<Longrightarrow> keeps P (modify f)"
  by (simp add: keeps_def modify_def)

lemma keeps_bindM [keeps_intros]: "keeps P m \<Longrightarrow> (\<And>a. keeps P (f a)) \<Longrightarrow> keeps P (bindM m f)"
  unfolding keeps_def bindM_def by (auto split: prod.split outcome.split)

lemma keeps_try_catch [keeps_intros]:
  "keeps P m \<Longrightarrow> (\<And>e. keeps P (h e)) \<Longrightarrow> keeps P (try_catch m h)"
  unfolding keeps_def try_catch_def by (auto split: prod.split outcome.split)

lemma keeps_try_finally [keeps_intros]:
  "keeps P m \<Longrightarrow> keeps P fin \<Longrightarrow> keeps P (try_finally m fin)"
  unfolding keeps_def try_finally_def
  by (auto simp: run_simps split: prod.split outcome.split)

lemma keeps_if [keeps_intros]: "(b \<Longrightarrow> keeps P m) \<Longrightarrow> (\<not> b \<Longrightarrow> keeps P n) \<Longrightarrow> keeps P (if b then m else n)"
  by simp

section \<open>Objects, maps and sets with insertion order\<close>

text \<open>
  A plain object or a \<open>Map\<close> whose order the program observes is an association list in
  the order of \<open>Object.entries\<close>: writing an existing key keeps its place, a new key goes
  to the end (\<open>AList.update\<close>). Only own properties are modelled. A \<open>Set\<close> whose order the
  program observes is a list built with \<open>set_add\<close>.
\<close>

type_synonym 'v obj = "(string \<times> 'v) list"

abbreviation obj_get :: "'v obj \<Rightarrow> string \<Rightarrow> 'v option" where
  "obj_get \<equiv> map_of"

abbreviation obj_set :: "string \<Rightarrow> 'v \<Rightarrow> 'v obj \<Rightarrow> 'v obj" where
  "obj_set \<equiv> AList.update"

abbreviation obj_keys :: "'v obj \<Rightarrow> string list" where
  "obj_keys \<equiv> map fst"

definition set_add :: "'a \<Rightarrow> 'a list \<Rightarrow> 'a list" where
  "set_add x xs = (if x \<in> set xs then xs else xs @ [x])"

text \<open>\<open>[...new Set(xs)]\<close>\<close>

definition js_uniq :: "'a list \<Rightarrow> 'a list" where
  "js_uniq xs = foldl (\<lambda>acc x. set_add x acc) [] xs"

lemma set_set_add [simp]: "set (set_add x xs) = insert x (set xs)"
  by (auto simp: set_add_def)

lemma distinct_set_add [simp]: "distinct (set_add x xs) = distinct xs"
  by (auto simp: set_add_def)

lemma set_foldl_set_add: "set (foldl (\<lambda>acc x. set_add x acc) acc xs) = set acc \<union> set xs"
  by (induction xs arbitrary: acc) auto

lemma distinct_foldl_set_add:
  "distinct acc \<Longrightarrow> distinct (foldl (\<lambda>acc x. set_add x acc) acc xs)"
  by (induction xs arbitrary: acc) auto

lemma set_js_uniq [simp]: "set (js_uniq xs) = set xs"
  by (simp add: js_uniq_def set_foldl_set_add)

lemma distinct_js_uniq [simp]: "distinct (js_uniq xs)"
  by (simp add: js_uniq_def distinct_foldl_set_add)

text \<open>\<open>xs.slice(a, b)\<close>: a negative bound counts from the end.\<close>

definition slice_index :: "nat \<Rightarrow> int \<Rightarrow> nat" where
  "slice_index n i = (if i < 0 then nat (int n + i) else min (nat i) n)"

definition js_slice :: "int \<Rightarrow> int \<Rightarrow> 'a list \<Rightarrow> 'a list" where
  "js_slice a b xs =
     (let i = slice_index (length xs) a in take (slice_index (length xs) b - i) (drop i xs))"

lemma js_slice_nonneg:
  "0 \<le> a \<Longrightarrow> 0 \<le> b \<Longrightarrow> js_slice a b xs = take (nat b - nat a) (drop (nat a) xs)"
  by (cases "nat a \<le> length xs") (auto simp: js_slice_def slice_index_def min_def Let_def)

section \<open>Contracts\<close>

text \<open>
  An invariant of a state machine: it holds initially and every step keeps it. Whatever
  the order of the steps, it then holds in every reachable state.
\<close>

locale invariant_machine =
  fixes start :: "'s \<Rightarrow> bool"
    and step :: "'s \<Rightarrow> 's \<Rightarrow> bool"
    and inv :: "'s \<Rightarrow> bool"
  assumes inv_start: "start s \<Longrightarrow> inv s"
    and inv_step: "inv s \<Longrightarrow> step s t \<Longrightarrow> inv t"
begin

lemma inv_steps: "step\<^sup>*\<^sup>* s t \<Longrightarrow> inv s \<Longrightarrow> inv t"
  by (induction rule: rtranclp_induct) (auto intro: inv_step)

lemma inv_reachable: "start s \<Longrightarrow> step\<^sup>*\<^sup>* s t \<Longrightarrow> inv t"
  by (blast intro: inv_start inv_steps)

end

text \<open>
  A guarded request handler: a request that the guard refuses throws before anything
  outside the process (\<open>world\<close>) is touched. A session is any sequence of requests, each
  run to completion; refused requests contribute nothing to what the world sees.
\<close>

locale guarded_handler =
  fixes handle :: "'req \<Rightarrow> ('s, 'a) io"
    and admits :: "'req \<Rightarrow> bool"
    and world :: "'s \<Rightarrow> 'w"
  assumes refused_throws: "\<not> admits r \<Longrightarrow> \<exists>e. fst (handle r s) = Throw e"
    and refused_world: "\<not> admits r \<Longrightarrow> world (snd (handle r s)) = world s"
begin

lemma refused_session:
  "(\<And>r. r \<in> set rs \<Longrightarrow> \<not> admits r) \<Longrightarrow> world (fold (\<lambda>r s. snd (handle r s)) rs s) = world s"
  by (induction rs arbitrary: s) (auto simp: refused_world)

lemma world_change_admitted: "world (snd (handle r s)) \<noteq> world s \<Longrightarrow> admits r"
  using refused_world by blast

lemma returned_admitted: "handle r s = (Ret a, s') \<Longrightarrow> admits r"
  using refused_throws by (metis fst_conv outcome.distinct(1))

end

end
