(* ===== verification/JsRegex.thy ===== *)
theory JsRegex
  imports JsString
begin

text \<open>
  The regular expressions of the program, as terms, with the backtracking matcher of
  ECMAScript. A matcher state holds the characters before the position (reversed), the
  ones after it, and the groups captured so far. \<open>rxm\<close> returns the states in which a
  match may end, in the order in which the backtracking engine tries them, so that the
  head of the list is the match that \<open>exec\<close> reports. \<open>rx_match\<close> is the declarative
  meaning (there is a way to match); \<open>rxm_iff\<close> proves that the matcher finds exactly
  these. Quantified groups of the program capture nothing inside, so captures are never
  reset.
\<close>

named_theorems rx_simps \<open>what a regular expression matches\<close>

section \<open>Syntax\<close>

datatype rx =
    Eps
  | Cls "char \<Rightarrow> bool"
  | Seq rx rx
  | Alt rx rx
  | Star bool rx          \<comment> \<open>\<open>True\<close>: greedy \<open>*\<close>; \<open>False\<close>: lazy \<open>*?\<close>\<close>
  | Grp nat rx            \<comment> \<open>capture group\<close>
  | Bnd                   \<comment> \<open>\<open>\b\<close>\<close>
  | Bol                   \<comment> \<open>\<open>^\<close>\<close>
  | Eol                   \<comment> \<open>\<open>$\<close>\<close>

type_synonym rx_st = "string \<times> string \<times> (nat \<times> string) list"

abbreviation rx_rest :: "rx_st \<Rightarrow> string" where
  "rx_rest st \<equiv> fst (snd st)"

definition plus_rx :: "bool \<Rightarrow> rx \<Rightarrow> rx" where
  "plus_rx g r = Seq r (Star g r)"

definition opt_rx :: "rx \<Rightarrow> rx" where
  "opt_rx r = Alt r Eps"

fun lit :: "string \<Rightarrow> rx" where
  "lit [] = Eps"
| "lit (c # cs) = Seq (Cls (\<lambda>d. d = c)) (lit cs)"

text \<open>A literal under the flag \<open>i\<close>.\<close>

fun lit_i :: "string \<Rightarrow> rx" where
  "lit_i [] = Eps"
| "lit_i (c # cs) = Seq (Cls (\<lambda>d. to_upper_char d = to_upper_char c)) (lit_i cs)"

fun seq_rx :: "rx list \<Rightarrow> rx" where
  "seq_rx [] = Eps"
| "seq_rx [r] = r"
| "seq_rx (r # rs) = Seq r (seq_rx rs)"

fun alt_rx :: "rx list \<Rightarrow> rx" where
  "alt_rx [] = Cls (\<lambda>_. False)"
| "alt_rx [r] = r"
| "alt_rx (r # rs) = Alt r (alt_rx rs)"

section \<open>The backtracking matcher\<close>

text \<open>
  One more iteration of a quantifier must consume something; the fuel is the number of
  characters left, so it never runs out (\<open>star_iter_iff\<close>).
\<close>

fun star_iter :: "nat \<Rightarrow> (rx_st \<Rightarrow> rx_st list) \<Rightarrow> bool \<Rightarrow> rx_st \<Rightarrow> rx_st list" where
  "star_iter 0 f g st = [st]"
| "star_iter (Suc n) f g st =
     (let more = concat (map (star_iter n f g)
                   (filter (\<lambda>st'. length (rx_rest st') < length (rx_rest st)) (f st)))
      in if g then more @ [st] else st # more)"

definition word_boundary :: "string \<Rightarrow> string \<Rightarrow> bool" where
  "word_boundary pre rest =
     ((pre \<noteq> [] \<and> is_word (hd pre)) \<noteq> (rest \<noteq> [] \<and> is_word (hd rest)))"

fun rxm :: "rx \<Rightarrow> rx_st \<Rightarrow> rx_st list" where
  "rxm Eps st = [st]"
| "rxm (Cls p) (pre, rest, cs) =
     (case rest of [] \<Rightarrow> [] | c # rest' \<Rightarrow> if p c then [(c # pre, rest', cs)] else [])"
| "rxm (Seq a b) st = concat (map (rxm b) (rxm a st))"
| "rxm (Alt a b) st = rxm a st @ rxm b st"
| "rxm (Star g r) st = star_iter (length (rx_rest st)) (rxm r) g st"
| "rxm (Grp n r) (pre, rest, cs) =
     map (\<lambda>(pre', rest', cs'). (pre', rest', AList.update n (take (length rest - length rest') rest) cs'))
       (rxm r (pre, rest, cs))"
| "rxm Bnd (pre, rest, cs) = (if word_boundary pre rest then [(pre, rest, cs)] else [])"
| "rxm Bol (pre, rest, cs) = (if pre = [] then [(pre, rest, cs)] else [])"
| "rxm Eol (pre, rest, cs) = (if rest = [] then [(pre, rest, cs)] else [])"

text \<open>The leftmost match: the position (before, after) where it starts and the end state.\<close>

fun search_from :: "rx \<Rightarrow> string \<Rightarrow> string \<Rightarrow> (string \<times> string \<times> rx_st) option" where
  "search_from r pre rest =
     (case rxm r (pre, rest, []) of
        m # _ \<Rightarrow> Some (rev pre, rest, m)
      | [] \<Rightarrow> (case rest of [] \<Rightarrow> None | c # cs \<Rightarrow> search_from r (c # pre) cs))"

declare search_from.simps [simp del]

definition rx_exec :: "rx \<Rightarrow> string \<Rightarrow> (string \<times> string \<times> rx_st) option" where
  "rx_exec r s = search_from r [] s"

definition rx_test :: "rx \<Rightarrow> string \<Rightarrow> bool" where
  "rx_test r s = (rx_exec r s \<noteq> None)"

text \<open>A pattern anchored at both ends, \<open>/^...$/.test(s)\<close>, and captured groups.\<close>

definition rx_full :: "rx \<Rightarrow> string \<Rightarrow> bool" where
  "rx_full r s = rx_test (Seq Bol (Seq r Eol)) s"

definition group_of :: "nat \<Rightarrow> rx_st \<Rightarrow> string option" where
  "group_of n st = map_of (snd (snd st)) n"

text \<open>The end state of the leftmost match, which carries the groups.\<close>

definition rx_groups :: "rx \<Rightarrow> string \<Rightarrow> rx_st option" where
  "rx_groups r s = map_option (\<lambda>(_, _, st). st) (rx_exec r s)"

text \<open>\<open>s.split(r)[0]\<close>: the part before the leftmost match.\<close>

definition split_first :: "rx \<Rightarrow> string \<Rightarrow> string" where
  "split_first r s = (case rx_exec r s of None \<Rightarrow> s | Some (before, _, _) \<Rightarrow> before)"

text \<open>
  A global pattern cuts the subject into characters and matches; \<open>replace(/r/g, f)\<close>,
  \<open>match(/r/g)\<close> and an \<open>exec\<close> loop all read this list.
\<close>

datatype tok = Chr char | Mat string "(nat \<times> string) list"

function rx_tokens :: "rx \<Rightarrow> string \<Rightarrow> string \<Rightarrow> tok list" where
  "rx_tokens r pre rest =
     (case rxm r (pre, rest, []) of
        (pre', rest', cs') # _ \<Rightarrow>
          if length rest' < length rest
          then Mat (take (length rest - length rest') rest) cs' # rx_tokens r pre' rest'
          else Mat [] cs' # (case rest of [] \<Rightarrow> [] | c # cs \<Rightarrow> Chr c # rx_tokens r (c # pre) cs)
      | [] \<Rightarrow> (case rest of [] \<Rightarrow> [] | c # cs \<Rightarrow> Chr c # rx_tokens r (c # pre) cs))"
  by pat_completeness auto
termination
  by (relation "measure (\<lambda>(r, pre, rest). length rest)") auto

declare rx_tokens.simps [simp del]

fun tok_src :: "tok \<Rightarrow> string" where
  "tok_src (Chr c) = [c]"
| "tok_src (Mat m cs) = m"

text \<open>\<open>s.replace(/r/g, "")\<close>\<close>

definition rx_remove :: "rx \<Rightarrow> string \<Rightarrow> string" where
  "rx_remove r s = List.map_filter (\<lambda>t. case t of Chr c \<Rightarrow> Some c | Mat _ _ \<Rightarrow> None) (rx_tokens r [] s)"

section \<open>Declarative meaning\<close>

inductive rx_match :: "rx \<Rightarrow> rx_st \<Rightarrow> rx_st \<Rightarrow> bool" where
  m_eps: "rx_match Eps st st"
| m_cls: "p c \<Longrightarrow> rx_match (Cls p) (pre, c # rest, cs) (c # pre, rest, cs)"
| m_seq: "rx_match a st st1 \<Longrightarrow> rx_match b st1 st2 \<Longrightarrow> rx_match (Seq a b) st st2"
| m_altL: "rx_match a st st1 \<Longrightarrow> rx_match (Alt a b) st st1"
| m_altR: "rx_match b st st1 \<Longrightarrow> rx_match (Alt a b) st st1"
| m_star0: "rx_match (Star g r) st st"
| m_star1: "rx_match r st st1 \<Longrightarrow> length (rx_rest st1) < length (rx_rest st) \<Longrightarrow>
    rx_match (Star g r) st1 st2 \<Longrightarrow> rx_match (Star g r) st st2"
| m_grp: "rx_match r (pre, rest, cs) (pre', rest', cs') \<Longrightarrow>
    rx_match (Grp n r) (pre, rest, cs)
      (pre', rest', AList.update n (take (length rest - length rest') rest) cs')"
| m_bnd: "word_boundary pre rest \<Longrightarrow> rx_match Bnd (pre, rest, cs) (pre, rest, cs)"
| m_bol: "rx_match Bol ([], rest, cs) ([], rest, cs)"
| m_eol: "rx_match Eol (pre, [], cs) (pre, [], cs)"

inductive_simps rx_match_Eps [rx_simps]: "rx_match Eps st st'"
inductive_simps rx_match_Cls: "rx_match (Cls p) st st'"
inductive_simps rx_match_Seq [rx_simps]: "rx_match (Seq a b) st st'"
inductive_simps rx_match_Alt [rx_simps]: "rx_match (Alt a b) st st'"
inductive_simps rx_match_Star: "rx_match (Star g r) st st'"
inductive_simps rx_match_Grp: "rx_match (Grp n r) st st'"
inductive_simps rx_match_Bnd: "rx_match Bnd st st'"
inductive_simps rx_match_Bol: "rx_match Bol st st'"
inductive_simps rx_match_Eol: "rx_match Eol st st'"

section \<open>The matcher finds exactly the matches\<close>

lemma star_iter_sound:
  assumes f: "\<And>st st'. st' \<in> set (f st) \<Longrightarrow> rx_match r st st'"
  shows "st' \<in> set (star_iter n f g st) \<Longrightarrow> rx_match (Star g r) st st'"
proof (induction n arbitrary: st)
  case 0
  then show ?case by (simp add: m_star0)
next
  case (Suc n)
  then show ?case
    by (auto simp: Let_def split: if_splits intro: m_star0 m_star1 f)
qed

lemma star_iter_complete:
  assumes f: "\<And>st st'. rx_match r st st' \<Longrightarrow> st' \<in> set (f st)"
  shows "rx_match (Star g r) st st' \<Longrightarrow> length (rx_rest st) \<le> n \<Longrightarrow> st' \<in> set (star_iter n f g st)"
proof (induction n arbitrary: st)
  case 0
  then show ?case by (auto simp: rx_match_Star [of g r st st'])
next
  case (Suc n)
  from Suc.prems(1) consider "st' = st"
    | st1 where "rx_match r st st1" "length (rx_rest st1) < length (rx_rest st)" "rx_match (Star g r) st1 st'"
    by (auto simp: rx_match_Star [of g r st st'])
  then show ?case
  proof cases
    case 1
    then show ?thesis by (simp add: Let_def)
  next
    case (2 st1)
    with Suc.prems(2) have "st' \<in> set (star_iter n f g st1)" by (intro Suc.IH) auto
    moreover have "st1 \<in> set (f st)" using 2(1) by (rule f)
    ultimately show ?thesis
      using 2(2) by (auto simp: Let_def simp del: split_paired_Ex intro!: bexI [of _ st1])
  qed
qed

lemma star_iter_iff:
  assumes "\<And>st st'. st' \<in> set (f st) \<longleftrightarrow> rx_match r st st'"
  shows "st' \<in> set (star_iter (length (rx_rest st)) f g st) \<longleftrightarrow> rx_match (Star g r) st st'"
  using star_iter_sound star_iter_complete assms by blast

theorem rxm_iff: "st' \<in> set (rxm r st) \<longleftrightarrow> rx_match r st st'"
proof (induction r arbitrary: st st')
  case Eps
  then show ?case by (auto simp: rx_match_Eps)
next
  case (Cls p)
  obtain pre rest cs where "st = (pre, rest, cs)" by (cases st)
  then show ?case by (cases rest) (auto simp: rx_match_Cls)
next
  case (Seq a b)
  then show ?case by (simp add: rx_match_Seq Bex_def)
next
  case (Alt a b)
  then show ?case by (auto simp: rx_match_Alt)
next
  case (Star g r)
  then show ?case by (simp add: star_iter_iff)
next
  case (Grp n r)
  obtain pre rest cs where "st = (pre, rest, cs)" by (cases st)
  then show ?case by (force simp: rx_match_Grp Grp.IH)
next
  case Bnd
  obtain pre rest cs where "st = (pre, rest, cs)" by (cases st)
  then show ?case by (auto simp: rx_match_Bnd)
next
  case Bol
  obtain pre rest cs where "st = (pre, rest, cs)" by (cases st)
  then show ?case by (auto simp: rx_match_Bol)
next
  case Eol
  obtain pre rest cs where "st = (pre, rest, cs)" by (cases st)
  then show ?case by (auto simp: rx_match_Eol)
qed

lemma rxm_Nil_iff: "rxm r st = [] \<longleftrightarrow> (\<nexists>st'. rx_match r st st')"
  using rxm_iff by (metis list.set_intros(1) neq_Nil_conv empty_iff empty_set)

lemma rxm_NilD: "rxm r st = [] \<Longrightarrow> \<not> rx_match r st st'"
  by (simp flip: rxm_iff)

lemma rxm_hd_match: "rxm r st = m # ms \<Longrightarrow> rx_match r st m"
  using rxm_iff by (metis list.set_intros(1))

text \<open>A match consumes a prefix of what is left.\<close>

lemma rx_match_consumes:
  "rx_match r st st' \<Longrightarrow> \<exists>w. rx_rest st = w @ rx_rest st' \<and> fst st' = rev w @ fst st"
proof (induction rule: rx_match.induct)
  case (m_seq a st st1 b st2)
  then obtain w v where "rx_rest st = w @ rx_rest st1" "fst st1 = rev w @ fst st"
    "rx_rest st1 = v @ rx_rest st2" "fst st2 = rev v @ fst st1" by blast
  then show ?case by (intro exI [of _ "w @ v"]) simp
next
  case (m_star1 r st st1 g st2)
  then obtain w v where "rx_rest st = w @ rx_rest st1" "fst st1 = rev w @ fst st"
    "rx_rest st1 = v @ rx_rest st2" "fst st2 = rev v @ fst st1" by blast
  then show ?case by (intro exI [of _ "w @ v"]) simp
qed auto

section \<open>Searching\<close>

lemma search_from_SomeD:
  "search_from r pre rest = Some (before, after, m) \<Longrightarrow>
     \<exists>w. before = rev pre @ w \<and> rest = w @ after \<and> rx_match r (rev before, after, []) m"
proof (induction r pre rest rule: search_from.induct)
  case (1 r pre rest)
  show ?case
  proof (cases "rxm r (pre, rest, [])")
    case Nil
    with "1.prems" have
      "(case rest of [] \<Rightarrow> None | c # cs \<Rightarrow> search_from r (c # pre) cs) = Some (before, after, m)"
      by (simp add: search_from.simps [of r pre rest])
    then obtain c cs where rest: "rest = c # cs"
      and s: "search_from r (c # pre) cs = Some (before, after, m)"
      by (cases rest) auto
    from "1.IH" [OF Nil rest s] obtain w where "before = rev (c # pre) @ w" "cs = w @ after"
      "rx_match r (rev before, after, []) m" by blast
    then show ?thesis by (intro exI [of _ "c # w"]) (simp add: rest)
  next
    case (Cons m' ms)
    with "1.prems" have "before = rev pre" "after = rest" "m = m'"
      by (auto simp: search_from.simps [of r pre rest])
    with Cons show ?thesis by (auto dest: rxm_hd_match)
  qed
qed

lemma search_from_NoneD:
  "search_from r pre (w @ after) = None \<Longrightarrow> \<not> rx_match r (rev w @ pre, after, []) m"
proof (induction w arbitrary: pre)
  case Nil
  then have "rxm r (pre, after, []) = []"
    by (auto simp: search_from.simps [of r pre after] split: list.splits)
  then show ?case by (simp add: rxm_NilD)
next
  case (Cons c w)
  then have "search_from r (c # pre) (w @ after) = None"
    by (simp add: search_from.simps [of r pre "c # w @ after"] split: list.splits)
  from Cons.IH [OF this] show ?case by simp
qed

theorem rx_test_iff:
  "rx_test r s \<longleftrightarrow> (\<exists>before after m. s = before @ after \<and> rx_match r (rev before, after, []) m)"
proof
  assume "rx_test r s"
  then obtain before after m where "search_from r [] s = Some (before, after, m)"
    by (auto simp: rx_test_def rx_exec_def)
  from search_from_SomeD [OF this] have "s = before @ after" "rx_match r (rev before, after, []) m"
    by auto
  then show "\<exists>before after m. s = before @ after \<and> rx_match r (rev before, after, []) m"
    by blast
next
  assume "\<exists>before after m. s = before @ after \<and> rx_match r (rev before, after, []) m"
  then obtain before after m where "s = before @ after" "rx_match r (rev before, after, []) m"
    by blast
  then show "rx_test r s"
    using search_from_NoneD [of r "[]" before after m] by (auto simp: rx_test_def rx_exec_def simp del: split_paired_Ex split_paired_All)
qed

lemma rx_exec_SomeD:
  "rx_exec r s = Some (before, after, m) \<Longrightarrow> s = before @ after \<and> rx_match r (rev before, after, []) m"
  by (auto simp: rx_exec_def dest: search_from_SomeD)

lemma split_first_prefix: "prefix (split_first r s) s"
  by (auto simp: split_first_def prefix_def split: option.split dest: rx_exec_SomeD)

section \<open>What the common forms match\<close>

lemma rx_match_lit [rx_simps]:
  "rx_match (lit w) (pre, rest, cs) st' \<longleftrightarrow> (\<exists>rest'. rest = w @ rest' \<and> st' = (rev w @ pre, rest', cs))"
proof (induction w arbitrary: pre rest)
  case Nil
  then show ?case by (auto simp: rx_simps)
next
  case (Cons c w)
  then show ?case by (auto simp: rx_simps rx_match_Cls)
qed

lemma rx_match_Cls_list [rx_simps]:
  "rx_match (Cls p) (pre, rest, cs) st' \<longleftrightarrow> (\<exists>c rest'. rest = c # rest' \<and> p c \<and> st' = (c # pre, rest', cs))"
  by (auto simp: rx_match_Cls)

lemma rx_match_Star_Cls [rx_simps]:
  "rx_match (Star g (Cls p)) (pre, rest, cs) st' \<longleftrightarrow>
     (\<exists>w rest'. rest = w @ rest' \<and> (\<forall>c \<in> set w. p c) \<and> st' = (rev w @ pre, rest', cs))"
proof (induction rest arbitrary: pre)
  case Nil
  then show ?case
    by (auto simp: rx_match_Star [of g "Cls p" "(pre, [], cs)"] rx_match_Cls)
next
  case (Cons c rest)
  show ?case
  proof
    assume "rx_match (Star g (Cls p)) (pre, c # rest, cs) st'"
    then consider "st' = (pre, c # rest, cs)"
      | "p c" "rx_match (Star g (Cls p)) (c # pre, rest, cs) st'"
      by (auto simp: rx_match_Star [of g "Cls p" "(pre, c # rest, cs)"] rx_match_Cls)
    then show "\<exists>w rest'. c # rest = w @ rest' \<and> (\<forall>c \<in> set w. p c) \<and> st' = (rev w @ pre, rest', cs)"
    proof cases
      case 1
      then show ?thesis by (intro exI [of _ "[]"] exI [of _ "c # rest"]) simp
    next
      case 2
      then obtain w rest' where "rest = w @ rest'" "\<forall>c \<in> set w. p c" "st' = (rev w @ c # pre, rest', cs)"
        unfolding Cons by blast
      with 2 show ?thesis by (intro exI [of _ "c # w"] exI [of _ rest']) simp
    qed
  next
    assume "\<exists>w rest'. c # rest = w @ rest' \<and> (\<forall>c \<in> set w. p c) \<and> st' = (rev w @ pre, rest', cs)"
    then obtain w rest' where w: "c # rest = w @ rest'" "\<forall>c \<in> set w. p c" "st' = (rev w @ pre, rest', cs)"
      by blast
    show "rx_match (Star g (Cls p)) (pre, c # rest, cs) st'"
    proof (cases w)
      case Nil
      with w show ?thesis by (simp add: m_star0)
    next
      case (Cons d v)
      with w have "rx_match (Star g (Cls p)) (c # pre, rest, cs) st'"
        unfolding Cons.IH by auto
      then have star: "rx_match (Star g (Cls p)) (c # pre, rest, cs) st'" .
      have "rx_match (Cls p) (pre, c # rest, cs) (c # pre, rest, cs)"
        using w Cons by (intro m_cls) auto
      from m_star1 [OF this _ star] show ?thesis by simp
    qed
  qed
qed

lemma rx_match_plus_Cls [rx_simps]:
  "rx_match (plus_rx g (Cls p)) (pre, rest, cs) st' \<longleftrightarrow>
     (\<exists>w rest'. rest = w @ rest' \<and> w \<noteq> [] \<and> (\<forall>c \<in> set w. p c) \<and> st' = (rev w @ pre, rest', cs))"
  (is "?L \<longleftrightarrow> ?R")
proof
  assume ?L
  then obtain c rest1 w rest' where "rest = c # rest1" "p c" "rest1 = w @ rest'"
    "\<forall>c \<in> set w. p c" "st' = (rev w @ c # pre, rest', cs)"
    by (auto simp: plus_rx_def rx_simps)
  then show ?R by (intro exI [of _ "c # w"] exI [of _ rest']) auto
next
  assume ?R
  then obtain w rest' where w: "rest = w @ rest'" "w \<noteq> []" "\<forall>c \<in> set w. p c"
    "st' = (rev w @ pre, rest', cs)" by blast
  then obtain c v where "w = c # v" by (cases w) auto
  with w show ?L by (auto simp: plus_rx_def rx_simps)
qed

lemma rx_match_opt [rx_simps]: "rx_match (opt_rx r) st st' \<longleftrightarrow> rx_match r st st' \<or> st' = st"
  by (auto simp: opt_rx_def rx_simps)

lemma rx_match_Grp_iff [rx_simps]:
  "rx_match (Grp n r) (pre, rest, cs) st' \<longleftrightarrow>
     (\<exists>pre' rest' cs'. rx_match r (pre, rest, cs) (pre', rest', cs') \<and>
        st' = (pre', rest', AList.update n (take (length rest - length rest') rest) cs'))"
  by (auto simp: rx_match_Grp)

lemma rx_match_Bnd_iff [rx_simps]:
  "rx_match Bnd (pre, rest, cs) st' \<longleftrightarrow> word_boundary pre rest \<and> st' = (pre, rest, cs)"
  by (auto simp: rx_match_Bnd)

lemma rx_match_Bol_iff [rx_simps]:
  "rx_match Bol (pre, rest, cs) st' \<longleftrightarrow> pre = [] \<and> st' = (pre, rest, cs)"
  by (auto simp: rx_match_Bol)

lemma rx_match_Eol_iff [rx_simps]:
  "rx_match Eol (pre, rest, cs) st' \<longleftrightarrow> rest = [] \<and> st' = (pre, rest, cs)"
  by (auto simp: rx_match_Eol)

lemma rx_match_lit_i [rx_simps]:
  "rx_match (lit_i w) (pre, rest, cs) st' \<longleftrightarrow>
     (\<exists>v rest'. rest = v @ rest' \<and> to_upper v = to_upper w \<and> st' = (rev v @ pre, rest', cs))"
proof (induction w arbitrary: pre rest st')
  case Nil
  then show ?case by (auto simp: rx_simps to_upper_def)
next
  case (Cons c w)
  show ?case
  proof
    assume "rx_match (lit_i (c # w)) (pre, rest, cs) st'"
    then obtain d rest1 v rest' where "rest = d # rest1" "to_upper_char d = to_upper_char c"
      "rest1 = v @ rest'" "to_upper v = to_upper w" "st' = (rev v @ d # pre, rest', cs)"
      by (auto simp: rx_match_Seq rx_match_Cls_list Cons)
    then show "\<exists>v rest'. rest = v @ rest' \<and> to_upper v = to_upper (c # w) \<and> st' = (rev v @ pre, rest', cs)"
      by (intro exI [of _ "d # v"] exI [of _ rest']) (simp add: to_upper_def)
  next
    assume "\<exists>v rest'. rest = v @ rest' \<and> to_upper v = to_upper (c # w) \<and> st' = (rev v @ pre, rest', cs)"
    then obtain v rest' where v: "rest = v @ rest'" "to_upper v = to_upper (c # w)"
      "st' = (rev v @ pre, rest', cs)" by blast
    then obtain d v' where d: "v = d # v'" "to_upper_char d = to_upper_char c" "to_upper v' = to_upper w"
      by (cases v) (auto simp: to_upper_def)
    then have "rx_match (lit_i w) (d # pre, v' @ rest', cs) (rev v' @ d # pre, rest', cs)"
      unfolding Cons.IH by (intro exI [of _ v'] exI [of _ rest']) simp
    moreover have "rx_match (Cls (\<lambda>d. to_upper_char d = to_upper_char c)) (pre, rest, cs) (d # pre, v' @ rest', cs)"
      using v d by (simp add: rx_match_Cls_list)
    ultimately show "rx_match (lit_i (c # w)) (pre, rest, cs) st'"
      using v(3) d(1) by (auto intro: m_seq)
  qed
qed

text \<open>
  The same facts for the first element of a sequence: unfolding with \<open>rx_seq\<close> turns a
  match of a whole pattern into one chain of existential statements.
\<close>

declare lit.simps [simp del] lit_i.simps [simp del]

named_theorems rx_seq \<open>matching a sequence, one element at a time\<close>

lemma rx_match_Seq_ex:
  "rx_match (Seq a b) st st' \<longleftrightarrow> (\<exists>st1. rx_match a st st1 \<and> rx_match b st1 st')"
  by (auto simp: rx_match_Seq simp del: split_paired_Ex)

lemma seq_lit [rx_seq]:
  "rx_match (Seq (lit w) b) (pre, rest, cs) st' \<longleftrightarrow>
     (\<exists>rest'. rest = w @ rest' \<and> rx_match b (rev w @ pre, rest', cs) st')"
  unfolding rx_match_Seq_ex rx_match_lit by blast

lemma seq_lit_i [rx_seq]:
  "rx_match (Seq (lit_i w) b) (pre, rest, cs) st' \<longleftrightarrow>
     (\<exists>v rest'. rest = v @ rest' \<and> to_upper v = to_upper w \<and> rx_match b (rev v @ pre, rest', cs) st')"
  unfolding rx_match_Seq_ex rx_match_lit_i by blast

lemma seq_Cls [rx_seq]:
  "rx_match (Seq (Cls p) b) (pre, rest, cs) st' \<longleftrightarrow>
     (\<exists>c rest'. rest = c # rest' \<and> p c \<and> rx_match b (c # pre, rest', cs) st')"
  unfolding rx_match_Seq_ex rx_match_Cls_list by blast

lemma seq_Star_Cls [rx_seq]:
  "rx_match (Seq (Star g (Cls p)) b) (pre, rest, cs) st' \<longleftrightarrow>
     (\<exists>w rest'. rest = w @ rest' \<and> (\<forall>c \<in> set w. p c) \<and> rx_match b (rev w @ pre, rest', cs) st')"
  unfolding rx_match_Seq_ex rx_match_Star_Cls by blast

lemma seq_plus_Cls [rx_seq]:
  "rx_match (Seq (plus_rx g (Cls p)) b) (pre, rest, cs) st' \<longleftrightarrow>
     (\<exists>w rest'. rest = w @ rest' \<and> w \<noteq> [] \<and> (\<forall>c \<in> set w. p c) \<and>
        rx_match b (rev w @ pre, rest', cs) st')"
  unfolding rx_match_Seq_ex rx_match_plus_Cls by blast

lemma seq_Bnd [rx_seq]:
  "rx_match (Seq Bnd b) (pre, rest, cs) st' \<longleftrightarrow> word_boundary pre rest \<and> rx_match b (pre, rest, cs) st'"
  unfolding rx_match_Seq_ex rx_match_Bnd_iff by blast

lemma seq_Bol [rx_seq]:
  "rx_match (Seq Bol b) (pre, rest, cs) st' \<longleftrightarrow> pre = [] \<and> rx_match b (pre, rest, cs) st'"
  unfolding rx_match_Seq_ex rx_match_Bol_iff by blast

lemma seq_Alt [rx_seq]:
  "rx_match (Seq (Alt x y) b) st st' \<longleftrightarrow> rx_match (Seq x b) st st' \<or> rx_match (Seq y b) st st'"
  unfolding rx_match_Seq_ex rx_match_Alt by blast

lemma seq_Eps [rx_seq]: "rx_match (Seq Eps b) st st' \<longleftrightarrow> rx_match b st st'"
  unfolding rx_match_Seq_ex rx_match_Eps by blast

lemma seq_assoc [rx_seq]: "rx_match (Seq (Seq x y) b) st st' \<longleftrightarrow> rx_match (Seq x (Seq y b)) st st'"
  unfolding rx_match_Seq_ex by blast

lemma seq_Grp [rx_seq]:
  "rx_match (Seq (Grp n r) b) (pre, rest, cs) st' \<longleftrightarrow>
     (\<exists>pre' rest' cs'. rx_match r (pre, rest, cs) (pre', rest', cs') \<and>
        rx_match b (pre', rest', AList.update n (take (length rest - length rest') rest) cs') st')"
  unfolding rx_match_Seq_ex rx_match_Grp_iff by blast

section \<open>Cutting a string into matches\<close>

lemma tokens_src: "concat (map tok_src (rx_tokens r pre rest)) = rest"
proof (induction r pre rest rule: rx_tokens.induct)
  case (1 r pre rest)
  show ?case
  proof (cases "rxm r (pre, rest, [])")
    case Nil
    note none = this
    show ?thesis
    proof (cases rest)
      case Nil
      with none show ?thesis by (simp add: rx_tokens.simps [of r pre])
    next
      case (Cons c cs)
      with none "1.IH"(1) [OF none Cons] show ?thesis
        by (simp add: rx_tokens.simps [of r pre "c # cs"])
    qed
  next
    case (Cons m ms)
    obtain pre' rest' cs' where m: "m = (pre', rest', cs')" by (cases m)
    from Cons m have "rx_match r (pre, rest, []) (pre', rest', cs')"
      by (auto dest: rxm_hd_match)
    then obtain w where w: "rest = w @ rest'" by (auto dest: rx_match_consumes)
    show ?thesis
    proof (cases "length rest' < length rest")
      case True
      with "1.IH"(2) [OF Cons m [symmetric] refl] Cons m w True show ?thesis
        by (simp add: rx_tokens.simps [of r pre "w @ rest'"])
    next
      case False
      note step = "1.IH"(3) [OF Cons m [symmetric] refl False]
      show ?thesis
      proof (cases rest)
        case Nil
        with Cons m show ?thesis by (simp add: rx_tokens.simps [of r pre])
      next
        case (Cons c cs)
        with \<open>rxm r (pre, rest, []) = m # ms\<close> m step False show ?thesis
          by (simp add: rx_tokens.simps [of r pre "c # cs"])
      qed
    qed
  qed
qed

end
