(* ===== verification/JsValue.thy ===== *)
theory JsValue
  imports JsString
begin

text \<open>
  JavaScript values as the program passes them around (\<open>unknown\<close>), and the conversions
  \<open>String\<close>, \<open>Number\<close>, \<open>Boolean\<close> and \<open>typeof\<close> on them.

  A finite number is kept as sign, decimal digits and exponent, the digits being the ones
  that \<open>String\<close> prints (the shortest that identify the double): \<open>Fin neg m e\<close> is
  \<open>m * 10^e\<close> with \<open>m\<close> not divisible by 10, and zero is \<open>Fin False 0 0\<close>. Numeric literals
  of up to 15 significant digits, within the range of doubles, denote the number they
  spell; longer ones would be rounded, which the model does not do.
\<close>

section \<open>Numbers\<close>

datatype jsnum = NaN | Inf bool | Fin bool nat int

fun strip10 :: "nat \<Rightarrow> int \<Rightarrow> nat \<times> int" where
  "strip10 m e = (if m \<noteq> 0 \<and> m mod 10 = 0 then strip10 (m div 10) (e + 1) else (m, e))"

declare strip10.simps [simp del]

definition mk_num :: "bool \<Rightarrow> nat \<Rightarrow> int \<Rightarrow> jsnum" where
  "mk_num neg m e =
     (if m = 0 then Fin False 0 0 else case strip10 m e of (m', e') \<Rightarrow> Fin neg m' e')"

definition int_num :: "int \<Rightarrow> jsnum" where
  "int_num i = mk_num (i < 0) (nat \<bar>i\<bar>) 0"

text \<open>\<open>Number.prototype.toString\<close> with radix 10.\<close>

definition unsigned_str :: "nat \<Rightarrow> int \<Rightarrow> string" where
  "unsigned_str m e =
     (let ds = nat_str m; k = int (length ds); n = k + e in
      if k \<le> n \<and> n \<le> 21 then ds @ replicate (nat (n - k)) CHR ''0''
      else if 0 < n \<and> n \<le> 21 then take (nat n) ds @ ''.'' @ drop (nat n) ds
      else if -6 < n \<and> n \<le> 0 then ''0.'' @ replicate (nat (- n)) CHR ''0'' @ ds
      else let ex = (if n - 1 < 0 then ''-'' else ''+'') @ nat_str (nat \<bar>n - 1\<bar>) in
        if k = 1 then ds @ ''e'' @ ex else take 1 ds @ ''.'' @ drop 1 ds @ ''e'' @ ex)"

fun num_str :: "jsnum \<Rightarrow> string" where
  "num_str NaN = ''NaN''"
| "num_str (Inf neg) = (if neg then ''-Infinity'' else ''Infinity'')"
| "num_str (Fin neg m e) =
     (if m = 0 then ''0'' else (if neg then ''-'' else []) @ unsigned_str m e)"

section \<open>Number(string)\<close>

definition digit_val :: "char \<Rightarrow> nat" where
  "digit_val c =
     (let n = of_char c :: nat in
      if 48 \<le> n \<and> n \<le> 57 then n - 48
      else if 97 \<le> n \<and> n \<le> 102 then n - 87
      else if 65 \<le> n \<and> n \<le> 70 then n - 55 else 99)"

definition radix_val :: "nat \<Rightarrow> string \<Rightarrow> nat" where
  "radix_val b s = foldl (\<lambda>acc c. b * acc + digit_val c) 0 s"

definition radix_digits :: "nat \<Rightarrow> string \<Rightarrow> bool" where
  "radix_digits b s \<longleftrightarrow> s \<noteq> [] \<and> list_all (\<lambda>c. digit_val c < b) s"

definition parse_sign :: "string \<Rightarrow> bool \<times> string" where
  "parse_sign s =
     (case s of [] \<Rightarrow> (False, [])
      | c # r \<Rightarrow> if c = CHR ''-'' then (True, r) else if c = CHR ''+'' then (False, r) else (False, s))"

definition parse_unsigned :: "bool \<Rightarrow> string \<Rightarrow> jsnum" where
  "parse_unsigned neg t =
     (let ip = takeWhile is_digit t; r1 = dropWhile is_digit t;
          (fp, r2) = (case r1 of [] \<Rightarrow> ([], [])
            | c # r \<Rightarrow> if c = CHR ''.'' then (takeWhile is_digit r, dropWhile is_digit r) else ([], r1));
          m = radix_val 10 (ip @ fp); e0 = - int (length fp) in
      if ip = [] \<and> fp = [] then NaN
      else case r2 of
        [] \<Rightarrow> mk_num neg m e0
      | c # r \<Rightarrow>
          (if c = CHR ''e'' \<or> c = CHR ''E'' then
             (case parse_sign r of (eneg, ed) \<Rightarrow>
                if radix_digits 10 ed
                then mk_num neg m (e0 + (if eneg then - int (radix_val 10 ed) else int (radix_val 10 ed)))
                else NaN)
           else NaN))"

definition number_of_string :: "string \<Rightarrow> jsnum" where
  "number_of_string s =
     (let t = trim s; p = to_lower (take 2 t); d = drop 2 t in
      if t = [] then Fin False 0 0
      else if p = ''0x'' then (if radix_digits 16 d then mk_num False (radix_val 16 d) 0 else NaN)
      else if p = ''0o'' then (if radix_digits 8 d then mk_num False (radix_val 8 d) 0 else NaN)
      else if p = ''0b'' then (if radix_digits 2 d then mk_num False (radix_val 2 d) 0 else NaN)
      else case parse_sign t of (neg, u) \<Rightarrow>
        if u = ''Infinity'' then Inf neg else parse_unsigned neg u)"

section \<open>Values\<close>

datatype jsval =
    JUndef
  | JNull
  | JBool bool
  | JNum jsnum
  | JStr string
  | JArr "jsval list"
  | JObj "(string \<times> jsval) list"

fun typeof :: "jsval \<Rightarrow> string" where
  "typeof JUndef = ''undefined''"
| "typeof (JBool b) = ''boolean''"
| "typeof (JNum n) = ''number''"
| "typeof (JStr s) = ''string''"
| "typeof _ = ''object''"

fun truthy :: "jsval \<Rightarrow> bool" where
  "truthy JUndef = False"
| "truthy JNull = False"
| "truthy (JBool b) = b"
| "truthy (JNum n) = (n \<noteq> NaN \<and> n \<noteq> Fin False 0 0)"
| "truthy (JStr s) = (s \<noteq> [])"
| "truthy (JArr vs) = True"
| "truthy (JObj kvs) = True"

text \<open>\<open>String(v)\<close>; an array joins its elements with commas, \<open>null\<close> and \<open>undefined\<close> being empty.\<close>

fun js_string :: "jsval \<Rightarrow> string" where
  "js_string JUndef = ''undefined''"
| "js_string JNull = ''null''"
| "js_string (JBool b) = (if b then ''true'' else ''false'')"
| "js_string (JNum n) = num_str n"
| "js_string (JStr s) = s"
| "js_string (JArr vs) =
     join '','' (map (\<lambda>v. if v = JUndef \<or> v = JNull then [] else js_string v) vs)"
| "js_string (JObj kvs) = ''[object Object]''"

text \<open>\<open>Number(v)\<close>.\<close>

fun js_number :: "jsval \<Rightarrow> jsnum" where
  "js_number JUndef = NaN"
| "js_number JNull = Fin False 0 0"
| "js_number (JBool b) = (if b then Fin False 1 0 else Fin False 0 0)"
| "js_number (JNum n) = n"
| "js_number (JStr s) = number_of_string s"
| "js_number (JArr vs) = number_of_string (js_string (JArr vs))"
| "js_number (JObj kvs) = NaN"

text \<open>Property access on a value that may not be an object: a missing property is \<open>undefined\<close>.\<close>

fun js_prop :: "jsval \<Rightarrow> string \<Rightarrow> jsval" where
  "js_prop (JObj kvs) k = (case map_of kvs k of None \<Rightarrow> JUndef | Some v \<Rightarrow> v)"
| "js_prop _ k = JUndef"

section \<open>Lemmas\<close>

lemma strip10_value: "strip10 m e = (m', e') \<Longrightarrow> e \<le> e' \<and> m = m' * 10 ^ nat (e' - e)"
proof (induction m e rule: strip10.induct)
  case (1 m e)
  show ?case
  proof (cases "m \<noteq> 0 \<and> m mod 10 = 0")
    case True
    with "1.prems" have "strip10 (m div 10) (e + 1) = (m', e')"
      by (simp add: strip10.simps [of m e])
    with "1.IH" [OF True] have IH: "e + 1 \<le> e'" "m div 10 = m' * 10 ^ nat (e' - (e + 1))" by auto
    then have "nat (e' - e) = Suc (nat (e' - (e + 1)))" by linarith
    moreover have "m = m div 10 * 10" using True by presburger
    ultimately show ?thesis using IH by simp
  next
    case False
    with "1.prems" show ?thesis by (auto simp: strip10.simps [of m e])
  qed
qed

lemma digit_chars: "n < 10 \<Longrightarrow> is_digit (digit_char n)"
  by (simp add: is_digit_def digit_char_def Let_def)

lemma nat_str_digits: "c \<in> set (nat_str n) \<Longrightarrow> is_digit c"
proof (induction n rule: nat_str.induct)
  case (1 n)
  show ?case
  proof (cases "n < 10")
    case True
    with "1.prems" show ?thesis by (simp add: nat_str.simps [of n] digit_chars)
  next
    case False
    with "1" show ?thesis by (auto simp: nat_str.simps [of n] digit_chars)
  qed
qed

text \<open>Printed numbers never contain a quote or a brace.\<close>

definition num_char :: "char \<Rightarrow> bool" where
  "num_char c \<longleftrightarrow> is_digit c \<or> c \<in> set ''-+.eInfinityNaN''"

lemma num_char_nat_str: "list_all num_char (nat_str n)"
  by (auto simp: list_all_iff num_char_def dest: nat_str_digits)

lemma num_char_zeros: "list_all num_char (replicate n CHR ''0'')"
  by (simp add: list_all_iff num_char_def is_digit_def)

lemma list_all_take_drop:
  "list_all P xs \<Longrightarrow> list_all P (take n xs)" "list_all P xs \<Longrightarrow> list_all P (drop n xs)"
  by (auto simp: list_all_iff dest: in_set_takeD in_set_dropD)

lemma num_char_marks:
  "num_char CHR ''-''" "num_char CHR ''+''" "num_char CHR ''.''" "num_char CHR ''e''" "num_char CHR ''0''"
  by (simp_all add: num_char_def is_digit_def)

lemma unsigned_str_chars: "list_all num_char (unsigned_str m e)"
  unfolding unsigned_str_def Let_def
  by (simp add: num_char_nat_str num_char_zeros list_all_take_drop num_char_marks)

lemma num_str_chars: "list_all num_char (num_str n)"
proof (cases n)
  case (Fin neg m e)
  then show ?thesis by (simp add: unsigned_str_chars num_char_marks)
qed (simp_all add: num_char_def)

lemma num_str_no_quote: "CHR 0x27 \<notin> set (num_str n)"
proof
  assume "CHR 0x27 \<in> set (num_str n)"
  with num_str_chars have "num_char CHR 0x27" by (auto simp: list_all_iff)
  then show False by (simp add: num_char_def is_digit_def)
qed

lemma num_str_no_brace: "CHR 0x7B \<notin> set (num_str n)"
proof
  assume "CHR 0x7B \<in> set (num_str n)"
  with num_str_chars have "num_char CHR 0x7B" by (auto simp: list_all_iff)
  then show False by (simp add: num_char_def is_digit_def)
qed

lemma digit_val_digit_char: "n < 10 \<Longrightarrow> digit_val (digit_char n) = n"
  by (simp add: digit_val_def digit_char_def Let_def)

lemma radix_val_snoc: "radix_val b (s @ [c]) = b * radix_val b s + digit_val c"
  by (simp add: radix_val_def)

text \<open>Printing then reading a natural number gives it back.\<close>

lemma radix_val_nat_str: "radix_val 10 (nat_str n) = n"
proof (induction n rule: nat_str.induct)
  case (1 n)
  show ?case
  proof (cases "n < 10")
    case True
    then show ?thesis
      by (simp add: nat_str.simps [of n] radix_val_def digit_val_digit_char)
  next
    case False
    with "1" show ?thesis
      by (simp add: nat_str.simps [of n] radix_val_snoc digit_val_digit_char)
  qed
qed

text \<open>\<open>row[i]\<close>, \<open>undefined\<close> past the end of the row.\<close>

definition cell :: "jsval list \<Rightarrow> nat \<Rightarrow> jsval" where
  "cell row i = (if i < length row then row ! i else JUndef)"

end
