(* ===== verification/Domain.thy ===== *)
theory Domain
  imports JsValue
begin

text \<open>
  The types of \<open>src/types.ts\<close>: configuration, schema, query results and errors. Counts,
  limits and timeouts are integers; an optional field is an \<open>option\<close>; a \<open>Record\<close> keyed by
  user-chosen names is an object in the order of its entries (\<open>obj\<close>).
\<close>

section \<open>Permissions and query categories\<close>

datatype permission_level = ReadOnly | ReadWrite | Admin

datatype query_category = Read | Write | Ddl

fun permission_str :: "permission_level \<Rightarrow> string" where
  "permission_str ReadOnly = ''read-only''"
| "permission_str ReadWrite = ''read-write''"
| "permission_str Admin = ''admin''"

fun category_str :: "query_category \<Rightarrow> string" where
  "category_str Read = ''read''"
| "category_str Write = ''write''"
| "category_str Ddl = ''ddl''"

text \<open>\<open>categoryRank\<close> of the multi-step executor; it orders the categories.\<close>

fun category_rank :: "query_category \<Rightarrow> nat" where
  "category_rank Read = 0"
| "category_rank Write = 1"
| "category_rank Ddl = 2"

lemma category_rank_inj: "category_rank a = category_rank b \<longleftrightarrow> a = b"
  by (cases a; cases b) simp_all

instantiation query_category :: linorder
begin

definition less_eq_query_category :: "query_category \<Rightarrow> query_category \<Rightarrow> bool" where
  "a \<le> b \<longleftrightarrow> category_rank a \<le> category_rank b"

definition less_query_category :: "query_category \<Rightarrow> query_category \<Rightarrow> bool" where
  "a < b \<longleftrightarrow> category_rank a < category_rank b"

instance
  by standard (auto simp: less_eq_query_category_def less_query_category_def category_rank_inj)

end

text \<open>Permission levels are ordered by what they allow.\<close>

fun permission_rank :: "permission_level \<Rightarrow> nat" where
  "permission_rank ReadOnly = 0"
| "permission_rank ReadWrite = 1"
| "permission_rank Admin = 2"

lemma permission_rank_inj: "permission_rank a = permission_rank b \<longleftrightarrow> a = b"
  by (cases a; cases b) simp_all

instantiation permission_level :: linorder
begin

definition less_eq_permission_level :: "permission_level \<Rightarrow> permission_level \<Rightarrow> bool" where
  "a \<le> b \<longleftrightarrow> permission_rank a \<le> permission_rank b"

definition less_permission_level :: "permission_level \<Rightarrow> permission_level \<Rightarrow> bool" where
  "a < b \<longleftrightarrow> permission_rank a < permission_rank b"

instance
  by standard (auto simp: less_eq_permission_level_def less_permission_level_def permission_rank_inj)

end

section \<open>Connections\<close>

record schema_filter =
  sf_schemas :: "string list option"
  sf_tables :: "string list option"

record connection_config =
  cc_name :: string
  cc_dsn :: string
  cc_permission :: permission_level
  cc_timeout :: int
  cc_maxRows :: int
  cc_schemaFilter :: "schema_filter option"
  cc_allowAllPragmas :: "bool option"
  cc_maxValueLength :: "int option"
  cc_readOnlyTables :: "string list option"

datatype audit_format = Jsonl | TextFormat

record audit_config =
  ac_enabled :: bool
  ac_path :: string
  ac_format :: audit_format
  ac_maxEntries :: int

datatype connection_status = Available | Connected | Errored

section \<open>Schemas\<close>

record column_info =
  col_name :: string
  col_type :: string
  col_nullable :: bool
  col_defaultValue :: "string option"
  col_isPrimaryKey :: bool
  col_comment :: "string option"

record index_info =
  ix_name :: string
  ix_columns :: "string list"
  ix_unique :: bool
  ix_type :: string
  ix_filter :: "string option"

record foreign_key_info =
  fk_column :: string
  fk_referencesTable :: string
  fk_referencesColumn :: string

record table_info =
  tb_name :: string
  tb_schema :: string
  tb_columns :: "column_info list"
  tb_primaryKey :: "string list"
  tb_indexes :: "index_info list"
  tb_foreignKeys :: "foreign_key_info list"
  tb_rowCountEstimate :: int
  tb_exactCount :: bool
  tb_comment :: "string option"

record schema_info =
  si_tables :: "table_info list"

section \<open>Query results\<close>

record query_result =
  qr_columns :: "string list"
  qr_rows :: "jsval list list"
  qr_rowCount :: int
  qr_hasMore :: bool
  qr_affectedRows :: "int option"
  qr_lastInsertId :: "int option"

record formatted_result =
  fr_columns :: "string list"
  fr_rows :: "jsval list list"
  fr_row_count :: int
  fr_truncated :: bool
  fr_affected_rows :: "int option"
  fr_last_insert_id :: "int option"
  fr_page_offset :: "int option"

section \<open>Calls to the database backend\<close>

record execute_options =
  eo_maxRows :: "int option"
  eo_timeoutMs :: "int option"

record backend_filter =
  bf_schemas :: "string list option"
  bf_tables :: "string list option"
  bf_exactCounts :: "bool option"

section \<open>Custom tools\<close>

datatype param_type = PString | PNumber | PBoolean | PEnum | POther string

record tool_parameter =
  tp_type :: param_type
  tp_description :: string
  tp_required :: "bool option"
  tp_default :: jsval
  tp_values :: "string list option"

record tool_step =
  ts_sql :: string
  ts_return :: "bool option"

text \<open>
  A compose step as the validator sees it: any of the fields may be missing.
  \<open>cs_as\<close> is empty when the configuration has none.
\<close>

record compose_step =
  cs_tool :: "string option"
  cs_sql :: "string option"
  cs_args :: "jsval obj option"
  cs_as :: string

record tool_config =
  ct_connection :: "string option"
  ct_description :: "string option"
  ct_sql :: "string option"
  ct_steps :: "tool_step list option"
  ct_compose :: "compose_step list option"
  ct_permission :: "permission_level option"
  ct_maxRows :: "int option"
  ct_timeout :: "int option"
  ct_parameters :: "tool_parameter obj option"

record omnibase_config =
  oc_connections :: "connection_config obj"
  oc_def_permission :: permission_level
  oc_def_timeout :: int
  oc_def_maxRows :: int
  oc_tools :: "tool_config obj option"
  oc_audit :: "audit_config option"
  oc_schemaHints :: bool

section \<open>Error classes\<close>

definition permission_error :: "string \<Rightarrow> permission_level \<Rightarrow> query_category \<Rightarrow> error" where
  "permission_error conn level cat =
     OmnibaseError (''Connection '' @ quote_single conn @ '' is '' @ permission_str level @ '', ''
       @ category_str cat @ '' queries are not allowed'') ''PERMISSION_DENIED'' None"

definition connection_error :: "string \<Rightarrow> string \<Rightarrow> error" where
  "connection_error conn detail =
     OmnibaseError (''Connection '' @ quote_single conn @ '' failed: '' @ detail)
       ''CONNECTION_ERROR'' (Some detail)"

text \<open>\<open>${err.code}: ${err.message} (${err.detail})\<close>, what a tool call reports to the client.\<close>

fun error_message :: "error \<Rightarrow> string" where
  "error_message (OmnibaseError m c d) =
     c @ '': '' @ m @ (case d of None \<Rightarrow> [] | Some t \<Rightarrow> if t = [] then [] else '' ('' @ t @ '')'')"
| "error_message (JsError m) = m"

lemma permission_error_code [simp]: "err_code (permission_error conn level cat) = ''PERMISSION_DENIED''"
  by (simp add: permission_error_def)

end
