(* ===== verification/ToolTemplates.thy ===== *)
theory ToolTemplates
  imports JsRegex Domain
begin

text \<open>
  SQL templates of custom tools (\<open>src/custom-tools.ts\<close>): the placeholders they use, the
  description in their leading comments, and the substitution of \<open>{param}\<close> by positional
  parameters with coerced values.
\<close>

section \<open>Placeholders\<close>

text \<open>\<open>[a-zA-Z_][a-zA-Z0-9_]*\<close> and \<open>\{([a-zA-Z_][a-zA-Z0-9_]*)\}\<close>\<close>

definition ident_rx :: rx where
  "ident_rx = Seq (Cls is_ident_start) (Star True (Cls is_word))"

definition placeholder_rx :: rx where
  "placeholder_rx = seq_rx [lit ''{'', Grp 1 ident_rx, lit ''}'']"

definition captured :: "nat \<Rightarrow> (nat \<times> string) list \<Rightarrow> string" where
  "captured n cs = (case map_of cs n of None \<Rightarrow> [] | Some w \<Rightarrow> w)"

fun tok_placeholder :: "tok \<Rightarrow> string list" where
  "tok_placeholder (Chr c) = []"
| "tok_placeholder (Mat m cs) = [butlast (drop 1 m)]"

definition extract_placeholders :: "string \<Rightarrow> string list" where
  "extract_placeholders sql = js_uniq (concat (map tok_placeholder (rx_tokens placeholder_rx [] sql)))"

section \<open>Descriptions\<close>

text \<open>The loop over the lines; it breaks at the first line that is neither blank nor a comment.\<close>

fun comment_lines :: "string list \<Rightarrow> string list" where
  "comment_lines [] = []"
| "comment_lines (line # ls) =
     (let trimmed = trim_start line in
      if starts_with trimmed ''-- '' then trim (drop 3 trimmed) # comment_lines ls
      else if trimmed \<noteq> [] then []
      else comment_lines ls)"

definition extract_sql_description :: "string \<Rightarrow> string option" where
  "extract_sql_description sql =
     (let commentLines = comment_lines (split_char CHR 0x0A sql) in
      if commentLines \<noteq> [] then Some (join '' '' commentLines) else None)"

section \<open>Coercion\<close>

definition invalid_parameter :: "string \<Rightarrow> error" where
  "invalid_parameter msg = OmnibaseError msg ''INVALID_PARAMETER'' None"

definition coerce_parameter :: "string \<Rightarrow> jsval \<Rightarrow> tool_parameter \<Rightarrow> jsval result" where
  "coerce_parameter name value def =
     (case tp_type def of
        PString \<Rightarrow> Inr (JStr (js_string value))
      | PNumber \<Rightarrow>
          (if js_number value = NaN
           then Inl (invalid_parameter (''Parameter '' @ quote_single name @ '': value '' @
                  quote_single (js_string value) @ '' is not a valid number (NaN)''))
           else Inr (JNum (js_number value)))
      | PBoolean \<Rightarrow>
          (case value of JStr s \<Rightarrow> Inr (JBool (to_lower s = ''true'')) | _ \<Rightarrow> Inr (JBool (truthy value)))
      | PEnum \<Rightarrow>
          (case tp_values def of
             None \<Rightarrow> Inl (JsError ''Cannot read properties of undefined (reading 'includes')'')
           | Some vs \<Rightarrow>
               (if js_string value \<notin> set vs
                then Inl (invalid_parameter (''Parameter '' @ quote_single name @ '': value '' @
                       quote_single (js_string value) @ '' is not in allowed values: '' @ join '', '' vs))
                else Inr (JStr (js_string value))))
      | POther t \<Rightarrow> Inr value)"

section \<open>Substitution\<close>

definition arg_value :: "jsval obj \<Rightarrow> string \<Rightarrow> tool_parameter \<Rightarrow> jsval" where
  "arg_value args name def =
     (let value = (case obj_get args name of None \<Rightarrow> JUndef | Some v \<Rightarrow> v) in
      if value = JUndef \<and> tp_required def = Some False then tp_default def else value)"

fun substitute_tok :: "jsval obj \<Rightarrow> tool_parameter obj \<Rightarrow> tok \<Rightarrow> (string \<times> jsval list) result" where
  "substitute_tok args paramDefs (Chr c) = Inr ([c], [])"
| "substitute_tok args paramDefs (Mat m cs) =
     (case obj_get paramDefs (captured 1 cs) of
        None \<Rightarrow> Inr (m, [])
      | Some def \<Rightarrow>
          bindR (coerce_parameter (captured 1 cs) (arg_value args (captured 1 cs) def) def)
            (\<lambda>value. Inr (''?'', [value])))"

definition substitute_parameters ::
    "string \<Rightarrow> jsval obj \<Rightarrow> tool_parameter obj \<Rightarrow> (string \<times> jsval list) result" where
  "substitute_parameters sql args paramDefs =
     bindR (mapR (substitute_tok args paramDefs) (rx_tokens placeholder_rx [] sql))
       (\<lambda>parts. Inr (concat (map fst parts), concat (map snd parts)))"

section \<open>Lemmas\<close>

text \<open>The value that a coercion returns has the declared type.\<close>

fun conforms :: "tool_parameter \<Rightarrow> jsval \<Rightarrow> bool" where
  "conforms def v =
     (case tp_type def of
        PString \<Rightarrow> (\<exists>s. v = JStr s)
      | PNumber \<Rightarrow> (\<exists>n. v = JNum n \<and> n \<noteq> NaN)
      | PBoolean \<Rightarrow> (\<exists>b. v = JBool b)
      | PEnum \<Rightarrow> (\<exists>s vs. v = JStr s \<and> tp_values def = Some vs \<and> s \<in> set vs)
      | POther t \<Rightarrow> True)"

lemma coerce_conforms: "coerce_parameter name value def = Inr v \<Longrightarrow> conforms def v"
  by (auto simp: coerce_parameter_def split: param_type.splits if_splits option.splits jsval.splits)

declare conforms.simps [simp del]

lemma substitute_tok_text:
  "substitute_tok args defs t = Inr (w, vs) \<Longrightarrow> substitute_tok args' defs t = Inr (w', vs') \<Longrightarrow>
     w' = w \<and> length vs' = length vs"
  by (cases t) (auto simp: bindR_eq_Inr split: option.splits)

lemma substitute_tok_conforms:
  "substitute_tok args defs t = Inr (w, vs) \<Longrightarrow> v \<in> set vs \<Longrightarrow>
     \<exists>name def. obj_get defs name = Some def \<and> conforms def v"
proof (cases t)
  case (Mat m cs)
  assume sub: "substitute_tok args defs t = Inr (w, vs)" and v: "v \<in> set vs"
  with Mat obtain def where "obj_get defs (captured 1 cs) = Some def"
    "coerce_parameter (captured 1 cs) (arg_value args (captured 1 cs) def) def = Inr v"
    by (auto simp: bindR_eq_Inr split: option.splits)
  then show ?thesis by (blast intro: coerce_conforms)
qed simp

text \<open>What the two patterns match.\<close>

lemma ident_rx_match:
  "rx_match ident_rx (pre, rest, cs) st' \<longleftrightarrow>
     (\<exists>c w rest'. rest = c # w @ rest' \<and> is_ident_start c \<and> (\<forall>d \<in> set w. is_word d) \<and>
        st' = (rev w @ c # pre, rest', cs))"
  unfolding ident_rx_def seq_Cls rx_match_Star_Cls by blast

lemma placeholder_rx_match:
  "rx_match placeholder_rx (pre, rest, cs) (pre', rest', cs') \<Longrightarrow>
     \<exists>c w. rest = ''{'' @ (c # w) @ ''}'' @ rest' \<and> is_ident_start c \<and> (\<forall>d \<in> set w. is_word d) \<and>
       captured 1 cs' = c # w"
  unfolding placeholder_rx_def seq_rx.simps
  by (auto simp: seq_lit seq_Grp ident_rx_match rx_match_lit captured_def AList.update_conv')

lemma question_not_word: "\<not> is_word CHR ''?''"
  by code_simp

lemma is_ident_start_word: "is_ident_start c \<Longrightarrow> is_word c"
  by (auto simp: is_ident_start_def is_word_def)

text \<open>Every match that a tokenizer reports is a match of the pattern.\<close>

lemma rx_tokens_Mat:
  "Mat m cs \<in> set (rx_tokens r pre rest) \<Longrightarrow>
     \<exists>pre1 rest1 pre2 rest2. rx_match r (pre1, rest1, []) (pre2, rest2, cs) \<and> rest1 = m @ rest2"
proof (induction r pre rest rule: rx_tokens.induct)
  case (1 r pre rest)
  show ?case
  proof (cases "rxm r (pre, rest, [])")
    case Nil
    with "1.prems" obtain c ds where rest: "rest = c # ds" and "Mat m cs \<in> set (rx_tokens r (c # pre) ds)"
      by (cases rest) (auto simp: rx_tokens.simps [of r pre])
    with "1.IH"(1) [OF Nil rest] show ?thesis by blast
  next
    case (Cons st ms)
    obtain pre' rest' cs' where m: "st = (pre', rest', cs')" by (cases st)
    from Cons m have match: "rx_match r (pre, rest, []) (pre', rest', cs')"
      by (auto dest: rxm_hd_match)
    then obtain w where w: "rest = w @ rest'" by (auto dest: rx_match_consumes)
    show ?thesis
    proof (cases "length rest' < length rest")
      case True
      with Cons m w "1.prems" consider "m = w" "cs = cs'" | "Mat m cs \<in> set (rx_tokens r pre' rest')"
        by (auto simp: rx_tokens.simps [of r pre "w @ rest'"])
      then show ?thesis
      proof cases
        case 1
        with match w show ?thesis by blast
      next
        case 2
        from "1.IH"(2) [OF Cons m [symmetric] refl True 2] show ?thesis .
      qed
    next
      case False
      with w have "w = []" by simp
      with w have same: "rest' = rest" by simp
      from Cons m False "1.prems" consider "m = []" "cs = cs'"
        | c ds where "rest = c # ds" "Mat m cs \<in> set (rx_tokens r (c # pre) ds)"
        by (cases rest) (auto simp: rx_tokens.simps [of r pre])
      then show ?thesis
      proof cases
        case 1
        with match same show ?thesis by (metis append_Nil)
      next
        case (2 c ds)
        from "1.IH"(3) [OF Cons m [symmetric] refl False 2] show ?thesis .
      qed
    qed
  qed
qed

lemma placeholder_Mat:
  "Mat m cs \<in> set (rx_tokens placeholder_rx pre sql) \<Longrightarrow>
     \<exists>c w. m = ''{'' @ (c # w) @ ''}'' \<and> is_ident_start c \<and> (\<forall>d \<in> set w. is_word d) \<and>
       captured 1 cs = c # w"
  by (fastforce dest!: rx_tokens_Mat placeholder_rx_match)

lemma placeholder_no_question:
  "Mat m cs \<in> set (rx_tokens placeholder_rx pre sql) \<Longrightarrow> CHR ''?'' \<notin> set m"
  using question_not_word by (auto dest!: placeholder_Mat is_ident_start_word)

lemma tok_placeholder_captured:
  "Mat m cs \<in> set (rx_tokens placeholder_rx pre sql) \<Longrightarrow> tok_placeholder (Mat m cs) = [captured 1 cs]"
  by (auto dest!: placeholder_Mat)

section \<open>The whole substitution\<close>

lemma substitute_parameters_tokens:
  "substitute_parameters sql args defs = Inr (w, vs) \<longleftrightarrow>
     (\<exists>parts. list_all2 (\<lambda>t p. substitute_tok args defs t = Inr p) (rx_tokens placeholder_rx [] sql) parts \<and>
        w = concat (map fst parts) \<and> vs = concat (map snd parts))"
  by (auto simp: substitute_parameters_def bindR_eq_Inr mapR_list_all2)

text \<open>The text that is sent does not depend on the arguments.\<close>

lemma substitute_text_fixed:
  assumes "substitute_parameters sql args defs = Inr (w, vs)" "substitute_parameters sql args' defs = Inr (w', vs')"
  shows "w' = w \<and> length vs' = length vs"
proof -
  have "list_all2 (\<lambda>t p. substitute_tok args defs t = Inr p) ts ps \<Longrightarrow>
      list_all2 (\<lambda>t p. substitute_tok args' defs t = Inr p) ts ps' \<Longrightarrow>
      concat (map fst ps') = concat (map fst ps) \<and>
      length (concat (map snd ps')) = length (concat (map snd ps))" for ts ps ps'
  proof (induction ts arbitrary: ps ps')
    case Nil
    then show ?case by simp
  next
    case (Cons t ts)
    then obtain p qs p' qs' where "ps = p # qs" "ps' = p' # qs'" "substitute_tok args defs t = Inr p"
      "substitute_tok args' defs t = Inr p'" "list_all2 (\<lambda>t p. substitute_tok args defs t = Inr p) ts qs"
      "list_all2 (\<lambda>t p. substitute_tok args' defs t = Inr p) ts qs'"
      by (auto simp: list_all2_Cons1)
    then show ?case
      using Cons.IH [of qs qs'] substitute_tok_text [of args defs t "fst p" "snd p" args' "fst p'" "snd p'"]
      by simp
  qed
  then show ?thesis using assms unfolding substitute_parameters_tokens by blast
qed

lemma substitute_values_conform:
  assumes "substitute_parameters sql args defs = Inr (w, vs)" "v \<in> set vs"
  shows "\<exists>name def. obj_get defs name = Some def \<and> conforms def v"
proof -
  obtain parts where "list_all2 (\<lambda>t p. substitute_tok args defs t = Inr p) (rx_tokens placeholder_rx [] sql) parts"
    "vs = concat (map snd parts)"
    using assms(1) unfolding substitute_parameters_tokens by blast
  then obtain t p where "substitute_tok args defs t = Inr p" "v \<in> set (snd p)"
    using assms(2) by (auto simp: list_all2_conv_all_nth in_set_conv_nth)
      (metis fst_conv in_set_conv_nth snd_conv)
  then show ?thesis using substitute_tok_conforms [of args defs t "fst p" "snd p" v] by simp
qed

text \<open>One positional parameter for each value.\<close>

lemma substitute_tok_marks:
  assumes "t \<in> set (rx_tokens placeholder_rx pre sql)" "substitute_tok args defs t = Inr (w, vs)"
  shows "count_list w CHR ''?'' = count_list (tok_src t) CHR ''?'' + length vs"
proof (cases t)
  case (Mat m cs)
  have "CHR ''?'' \<notin> set m" using placeholder_no_question assms(1) Mat by blast
  then show ?thesis using assms(2) Mat by (auto simp: bindR_eq_Inr count_list_0_iff split: option.splits)
qed (use assms(2) in auto)

lemma substitute_marks:
  assumes "substitute_parameters sql args defs = Inr (w, vs)"
  shows "count_list w CHR ''?'' = count_list sql CHR ''?'' + length vs"
proof -
  have sum: "list_all2 (\<lambda>t p. substitute_tok args defs t = Inr p) ts ps \<Longrightarrow>
      set ts \<subseteq> set (rx_tokens placeholder_rx [] sql) \<Longrightarrow>
      count_list (concat (map fst ps)) CHR ''?'' =
        count_list (concat (map tok_src ts)) CHR ''?'' + length (concat (map snd ps))" for ts ps
  proof (induction ts arbitrary: ps)
    case Nil
    then show ?case by simp
  next
    case (Cons t ts)
    then obtain p qs where "ps = p # qs" "substitute_tok args defs t = Inr p"
      "list_all2 (\<lambda>t p. substitute_tok args defs t = Inr p) ts qs"
      by (auto simp: list_all2_Cons1)
    then show ?case using Cons substitute_tok_marks [of t "[]" sql args defs "fst p" "snd p"] by simp
  qed
  obtain parts where "list_all2 (\<lambda>t p. substitute_tok args defs t = Inr p) (rx_tokens placeholder_rx [] sql) parts"
    "w = concat (map fst parts)" "vs = concat (map snd parts)"
    using assms unfolding substitute_parameters_tokens by blast
  then show ?thesis using sum [of "rx_tokens placeholder_rx [] sql" parts] by (simp add: tokens_src)
qed

end
