(* ===== verification/ConfigLoader.thy ===== *)
theory ConfigLoader
  imports ToolTemplates
begin

text \<open>
  Loading the configuration (\<open>src/config.ts\<close>). The YAML parser is a third-party package;
  its result is the raw configuration, a record of optional fields (\<open>RawConfig\<close>), taken to
  have the types that the loader casts it to. The environment of the process (variables,
  working directory, path functions, files that exist) is a parameter. Fields that the
  loader asserts to be present with \<open>!\<close> and later code needs (the \<open>sql\<close> of a step, the
  description of a parameter) are taken to be present; a missing parameter type is
  \<open>POther\<close>, and a missing compose name is the empty string, which the validator rejects.
\<close>

section \<open>Raw configuration\<close>

record raw_connection =
  rc_dsn :: "string option"
  rc_permission :: "string option"
  rc_timeout :: "int option"
  rc_max_rows :: "int option"
  rc_schema_filter :: "schema_filter option"
  rc_allow_all_pragmas :: "bool option"
  rc_max_value_length :: "int option"
  rc_read_only_tables :: "string list option"

record raw_defaults =
  rd_permission :: "string option"
  rd_timeout :: "int option"
  rd_max_rows :: "int option"

record raw_parameter =
  rp_type :: string
  rp_description :: string
  rp_required :: "bool option"
  rp_default :: jsval
  rp_values :: "string list option"

record raw_compose_step =
  rs_tool :: "string option"
  rs_sql :: "string option"
  rs_args :: "jsval obj option"
  rs_as :: "string option"

record raw_tool =
  rt_connection :: "string option"
  rt_description :: "string option"
  rt_sql :: "string option"
  rt_steps :: "tool_step list option"
  rt_compose :: "raw_compose_step list option"
  rt_permission :: "string option"
  rt_max_rows :: "int option"
  rt_timeout :: "int option"
  rt_parameters :: "raw_parameter obj option"

record raw_audit =
  ra_enabled :: "bool option"
  ra_path :: "string option"
  ra_format :: "string option"
  ra_max_entries :: "int option"

record raw_config =
  raw_connections :: "raw_connection obj"
  raw_defaults_of :: "raw_defaults option"
  raw_tools :: "raw_tool obj option"
  raw_audit_of :: "raw_audit option"
  raw_schema_hints :: "bool option"

record process_env =
  pe_var :: "string \<Rightarrow> string option"
  pe_cwd :: string
  pe_exists :: "string \<Rightarrow> bool"
  pe_dirname :: "string \<Rightarrow> string"
  pe_join :: "string list \<Rightarrow> string"
  pe_resolve :: "string \<Rightarrow> string"

section \<open>Loading\<close>

abbreviation or_else :: "'a option \<Rightarrow> 'a \<Rightarrow> 'a" where
  "or_else x d \<equiv> (case x of None \<Rightarrow> d | Some v \<Rightarrow> v)"

text \<open>A truthy optional string: present and not empty.\<close>

definition nonempty :: "string option \<Rightarrow> string option" where
  "nonempty x = (case x of None \<Rightarrow> None | Some s \<Rightarrow> if s = [] then None else Some s)"

definition validate_permission :: "string \<Rightarrow> permission_level result" where
  "validate_permission v =
     (if v = ''read-only'' then Inr ReadOnly
      else if v = ''read-write'' then Inr ReadWrite
      else if v = ''admin'' then Inr Admin
      else Inl (JsError (''Invalid permission level '' @ quote_single v @
             ''. Must be one of: read-only, read-write, admin'')))"

definition resolve_dsn :: "process_env \<Rightarrow> string \<Rightarrow> string result" where
  "resolve_dsn env dsn =
     (if \<not> starts_with dsn ''$'' then Inr dsn
      else let envName = drop 1 dsn in
        case nonempty (pe_var env envName) of
          None \<Rightarrow> Inl (JsError (''Environment variable '' @ quote_single envName @
                    '' is not set (referenced in DSN)''))
        | Some value \<Rightarrow> Inr value)"

definition optional_permission ::
    "string option \<Rightarrow> permission_level \<Rightarrow> permission_level result" where
  "optional_permission p d = (case nonempty p of None \<Rightarrow> Inr d | Some v \<Rightarrow> validate_permission v)"

record config_defaults =
  cd_permission :: permission_level
  cd_timeout :: int
  cd_maxRows :: int

definition parse_defaults :: "raw_defaults option \<Rightarrow> config_defaults result" where
  "parse_defaults rd =
     bindR (optional_permission (Option.bind rd rd_permission) ReadOnly) (\<lambda>p.
       Inr \<lparr>cd_permission = p,
            cd_timeout = or_else (Option.bind rd rd_timeout) 30000,
            cd_maxRows = or_else (Option.bind rd rd_max_rows) 500\<rparr>)"

definition parse_connection ::
    "process_env \<Rightarrow> config_defaults \<Rightarrow> string \<times> raw_connection \<Rightarrow> (string \<times> connection_config) result" where
  "parse_connection env defaults nrc =
     (case nrc of (name, rc) \<Rightarrow>
       case nonempty (rc_dsn rc) of
         None \<Rightarrow> Inl (JsError (''Connection '' @ quote_single name @ '' is missing '' @ quote_single ''dsn''))
       | Some raw_dsn \<Rightarrow>
           bindR (resolve_dsn env raw_dsn) (\<lambda>dsn.
           bindR (optional_permission (rc_permission rc) (cd_permission defaults)) (\<lambda>permission.
             Inr (name,
               \<lparr>cc_name = name, cc_dsn = dsn, cc_permission = permission,
                cc_timeout = or_else (rc_timeout rc) (cd_timeout defaults),
                cc_maxRows = or_else (rc_max_rows rc) (cd_maxRows defaults),
                cc_schemaFilter = rc_schema_filter rc,
                cc_allowAllPragmas = Some (or_else (rc_allow_all_pragmas rc) False),
                cc_maxValueLength = rc_max_value_length rc,
                cc_readOnlyTables = rc_read_only_tables rc\<rparr>))))"

definition parse_compose_step :: "raw_compose_step \<Rightarrow> compose_step" where
  "parse_compose_step rs =
     (case nonempty (rs_tool rs) of
        Some tool \<Rightarrow>
          \<lparr>cs_tool = Some tool, cs_sql = None, cs_args = rs_args rs, cs_as = or_else (rs_as rs) []\<rparr>
      | None \<Rightarrow> \<lparr>cs_tool = None, cs_sql = rs_sql rs, cs_args = None, cs_as = or_else (rs_as rs) []\<rparr>)"

fun param_type_of :: "string \<Rightarrow> param_type" where
  "param_type_of t =
     (if t = ''string'' then PString else if t = ''number'' then PNumber
      else if t = ''boolean'' then PBoolean else if t = ''enum'' then PEnum else POther t)"

definition parse_parameter :: "raw_parameter \<Rightarrow> tool_parameter" where
  "parse_parameter rp =
     \<lparr>tp_type = param_type_of (rp_type rp), tp_description = rp_description rp,
      tp_required = Some (or_else (rp_required rp) True),
      tp_default = rp_default rp, tp_values = rp_values rp\<rparr>"

definition parse_tool :: "string \<times> raw_tool \<Rightarrow> (string \<times> tool_config) result" where
  "parse_tool nrt =
     (case nrt of (name, rt) \<Rightarrow>
       let sqlDescription = Option.bind (nonempty (rt_sql rt)) extract_sql_description;
           compose = (case rt_compose rt of
              None \<Rightarrow> None
            | Some steps \<Rightarrow> if steps = [] then None else Some (map parse_compose_step steps)) in
       bindR (case nonempty (rt_permission rt) of
                None \<Rightarrow> Inr None | Some p \<Rightarrow> bindR (validate_permission p) (\<lambda>l. Inr (Some l)))
         (\<lambda>permission.
           Inr (name,
             \<lparr>ct_connection = rt_connection rt,
              ct_description = (case rt_description rt of None \<Rightarrow> sqlDescription | Some d \<Rightarrow> Some d),
              ct_sql = rt_sql rt, ct_steps = rt_steps rt, ct_compose = compose,
              ct_permission = permission, ct_maxRows = rt_max_rows rt, ct_timeout = rt_timeout rt,
              ct_parameters = map_option (map (\<lambda>(n, p). (n, parse_parameter p))) (rt_parameters rt)\<rparr>)))"

definition parse_audit :: "process_env \<Rightarrow> string option \<Rightarrow> raw_audit \<Rightarrow> audit_config" where
  "parse_audit env configFilePath ra =
     (let configDir = (case configFilePath of None \<Rightarrow> pe_cwd env | Some p \<Rightarrow> pe_dirname env p) in
      \<lparr>ac_enabled = or_else (ra_enabled ra) False,
       ac_path = or_else (ra_path ra) (pe_join env [configDir, ''.omnibase'', ''audit.log'']),
       ac_format = (if ra_format ra = Some ''text'' then TextFormat else Jsonl),
       ac_maxEntries = or_else (ra_max_entries ra) 10000\<rparr>)"

definition parse_config :: "process_env \<Rightarrow> raw_config \<Rightarrow> string option \<Rightarrow> omnibase_config result" where
  "parse_config env raw configFilePath =
     bindR (parse_defaults (raw_defaults_of raw)) (\<lambda>defaults.
     bindR (mapR (parse_connection env defaults) (raw_connections raw)) (\<lambda>connections.
     bindR (case raw_tools raw of
              None \<Rightarrow> Inr None
            | Some rts \<Rightarrow> if rts = [] then Inr None else bindR (mapR parse_tool rts) (\<lambda>ts. Inr (Some ts)))
       (\<lambda>tools.
       Inr \<lparr>oc_connections = connections,
            oc_def_permission = cd_permission defaults,
            oc_def_timeout = cd_timeout defaults,
            oc_def_maxRows = cd_maxRows defaults,
            oc_tools = tools,
            oc_audit = map_option (parse_audit env (nonempty configFilePath)) (raw_audit_of raw),
            oc_schemaHints = or_else (raw_schema_hints raw) True\<rparr>)))"

section \<open>Looking a connection up\<close>

definition unknown_connection :: "string \<Rightarrow> error" where
  "unknown_connection name =
     OmnibaseError (''Unknown connection: '' @ quote_single name) ''UNKNOWN_CONNECTION'' None"

text \<open>
  The name is optional because a tool may lack its \<open>connection\<close> field: then the code looks
  up the property \<open>undefined\<close> and fails on \<open>name.toLowerCase()\<close>.
\<close>

definition get_connection :: "omnibase_config \<Rightarrow> string option \<Rightarrow> connection_config result" where
  "get_connection config name =
     (case obj_get (oc_connections config) (or_else name ''undefined'') of
        Some conn \<Rightarrow> Inr conn
      | None \<Rightarrow>
          (case name of
             None \<Rightarrow>
               (if oc_connections config = [] then Inl (unknown_connection ''undefined'')
                else Inl (JsError ''Cannot read properties of undefined (reading 'toLowerCase')''))
           | Some n \<Rightarrow>
               (case find (\<lambda>c. to_lower (cc_name c) = to_lower n) (map snd (oc_connections config)) of
                  None \<Rightarrow> Inl (unknown_connection n)
                | Some conn \<Rightarrow> Inr conn)))"

section \<open>Where the configuration file is\<close>

definition resolve_config_path :: "process_env \<Rightarrow> string \<Rightarrow> string option" where
  "resolve_config_path env cwd =
     (let envPath = nonempty (pe_var env ''OMNIBASE_CONFIG'');
          localPath = pe_join env [cwd, ''omnibase.config.yaml''];
          home = (case nonempty (pe_var env ''HOME'') of
             Some h \<Rightarrow> h | None \<Rightarrow> or_else (nonempty (pe_var env ''USERPROFILE'')) []);
          globalPath = pe_join env [home, ''.config'', ''omnibase'', ''config.yaml''] in
      if envPath \<noteq> None \<and> pe_exists env (the envPath) then Some (pe_resolve env (the envPath))
      else if pe_exists env localPath then Some localPath
      else if pe_exists env globalPath then Some globalPath
      else None)"

section \<open>Lemmas\<close>

lemma validate_permission_roundtrip: "validate_permission (permission_str p) = Inr p"
  by (cases p) (simp_all add: validate_permission_def)

lemma validate_permission_Inr: "validate_permission v = Inr p \<longleftrightarrow> v = permission_str p"
  by (cases p) (auto simp: validate_permission_def split: if_splits)

lemma parse_connection_name:
  "parse_connection env d (n, rc) = Inr (m, c) \<Longrightarrow>
     m = n \<and> cc_name c = n \<and> cc_allowAllPragmas c = Some (or_else (rc_allow_all_pragmas rc) False) \<and>
     optional_permission (rc_permission rc) (cd_permission d) = Inr (cc_permission c) \<and>
     (\<exists>raw. nonempty (rc_dsn rc) = Some raw \<and> resolve_dsn env raw = Inr (cc_dsn c))"
  by (auto simp: parse_connection_def bindR_eq_Inr split: option.splits)

lemma parse_config_connections:
  "parse_config env raw path = Inr cfg \<Longrightarrow>
     \<exists>d. parse_defaults (raw_defaults_of raw) = Inr d \<and>
       list_all2 (\<lambda>x y. parse_connection env d x = Inr y) (raw_connections raw) (oc_connections cfg)"
  by (auto simp: parse_config_def bindR_eq_Inr mapR_list_all2)

text \<open>The names of the loaded connections are the keys they are stored under.\<close>

definition names_are_keys :: "omnibase_config \<Rightarrow> bool" where
  "names_are_keys cfg \<longleftrightarrow> (\<forall>(k, c) \<in> set (oc_connections cfg). cc_name c = k)"

lemma parse_config_names: "parse_config env raw path = Inr cfg \<Longrightarrow> names_are_keys cfg"
proof -
  assume "parse_config env raw path = Inr cfg"
  then obtain d where all: "list_all2 (\<lambda>x y. parse_connection env d x = Inr y)
      (raw_connections raw) (oc_connections cfg)"
    by (auto dest!: parse_config_connections)
  have "cc_name c = k" if "(k, c) \<in> set (oc_connections cfg)" for k c
  proof -
    from that obtain i where i: "i < length (oc_connections cfg)" "oc_connections cfg ! i = (k, c)"
      by (auto simp: in_set_conv_nth)
    obtain n rc where "raw_connections raw ! i = (n, rc)" by (cases "raw_connections raw ! i")
    with all i have "parse_connection env d (n, rc) = Inr (k, c)"
      by (auto simp: list_all2_conv_all_nth)
    then show ?thesis by (auto dest: parse_connection_name)
  qed
  then show ?thesis by (auto simp: names_are_keys_def)
qed

lemma get_connection_mem:
  "get_connection cfg name = Inr c \<Longrightarrow> c \<in> snd ` set (oc_connections cfg)"
  by (auto simp: get_connection_def find_Some_iff image_iff split: option.splits if_splits
      dest!: map_of_SomeD) (metis nth_mem surj_pair snd_conv nth_map)+

lemma list_all2_lookup:
  assumes "list_all2 (\<lambda>x y. f x = Inr y) xs ys" "\<And>k v k' w. f (k, v) = Inr (k', w) \<Longrightarrow> k' = k"
    and "map_of xs k = Some v"
  shows "\<exists>w. f (k, v) = Inr (k, w) \<and> map_of ys k = Some w"
  using assms(1,3)
proof (induction rule: list_all2_induct)
  case Nil
  then show ?case by simp
next
  case (Cons x xs y ys)
  obtain k1 v1 k2 w2 where xy: "x = (k1, v1)" "y = (k2, w2)" by (cases x; cases y)
  then have "k2 = k1" using Cons(1) assms(2) by blast
  then show ?case using Cons xy by (cases "k = k1") auto
qed

lemma loaded_connection:
  assumes "parse_config env raw path = Inr cfg" "obj_get (raw_connections raw) k = Some rc"
  shows "\<exists>d c. parse_defaults (raw_defaults_of raw) = Inr d \<and> parse_connection env d (k, rc) = Inr (k, c) \<and>
     obj_get (oc_connections cfg) k = Some c"
proof -
  obtain d where d: "parse_defaults (raw_defaults_of raw) = Inr d"
    "list_all2 (\<lambda>x y. parse_connection env d x = Inr y) (raw_connections raw) (oc_connections cfg)"
    using parse_config_connections [OF assms(1)] by blast
  have key: "k' = k" if "parse_connection env d (k, v) = Inr (k', w)" for k v k' w
    using parse_connection_name [OF that] by blast
  have "\<exists>c. parse_connection env d (k, rc) = Inr (k, c) \<and> obj_get (oc_connections cfg) k = Some c"
    by (rule list_all2_lookup [OF d(2) _ assms(2)]) (erule key)
  then show ?thesis using d(1) by blast
qed

lemma get_connection_lower:
  assumes "names_are_keys cfg" "get_connection cfg (Some n) = Inr c"
  shows "to_lower (cc_name c) = to_lower n"
proof (cases "obj_get (oc_connections cfg) n")
  case None
  then show ?thesis using assms(2) by (auto simp: get_connection_def find_Some_iff split: option.splits)
next
  case (Some d)
  then have "cc_name c = n"
    using assms by (auto simp: get_connection_def names_are_keys_def dest!: map_of_SomeD)
  then show ?thesis by simp
qed

end
