(* ===== verification/CustomToolConfig.thy ===== *)
theory CustomToolConfig
  imports ConfigLoader
begin

text \<open>
  Validation of the custom tools (\<open>validateCustomTools\<close> and its helpers in
  \<open>src/custom-tools.ts\<close>), with the search for circular references between composed
  tools. The check that a permission override is one of the three levels cannot fail here:
  the type \<open>permission_level\<close> has no other value.
\<close>

section \<open>The checks of one tool\<close>

definition built_in_tool_names :: "string list" where
  "built_in_tool_names =
     [''list_connections'', ''test_connection'', ''get_schema'', ''execute_sql'', ''explain_query'',
      ''get_sample'', ''search_schema'', ''list_tables'', ''get_relationships'', ''get_indexes'',
      ''validate_query'', ''get_table_stats'', ''get_distinct_values'', ''query_history'']"

text \<open>\<open>/^[a-zA-Z][a-zA-Z0-9_]*$/\<close> and \<open>/^[a-zA-Z_][a-zA-Z0-9_]*$/\<close>\<close>

definition tool_name_rx :: rx where
  "tool_name_rx = seq_rx [Bol, Cls is_alpha, Star True (Cls is_word), Eol]"

definition valid_identifier_rx :: rx where
  "valid_identifier_rx = seq_rx [Bol, Cls is_ident_start, Star True (Cls is_word), Eol]"

definition invalid_tool :: "string \<Rightarrow> string \<Rightarrow> error" where
  "invalid_tool name msg =
     OmnibaseError (''Custom tool '' @ quote_single name @ msg) ''INVALID_TOOL_CONFIG'' None"

abbreviation tool_params :: "tool_config \<Rightarrow> tool_parameter obj" where
  "tool_params tool \<equiv> or_else (ct_parameters tool) []"

abbreviation config_tools :: "omnibase_config \<Rightarrow> tool_config obj" where
  "config_tools config \<equiv> or_else (oc_tools config) []"

definition check_compose_step ::
    "omnibase_config \<Rightarrow> string \<Rightarrow> tool_config \<Rightarrow> string list \<Rightarrow> compose_step \<Rightarrow> unit result" where
  "check_compose_step config toolName tool stepNames step =
     bindR (guardR (cs_as step = [])
       (invalid_tool toolName (concat ['': each compose step must have an '', quote_single ''as'', '' name'']))) (\<lambda>_.
     bindR (guardR (\<not> rx_test valid_identifier_rx (cs_as step))
       (invalid_tool toolName ('': compose step '' @ quote_single ''as'' @ '' name '' @
          quote_single (cs_as step) @ '' must be a valid identifier''))) (\<lambda>_.
     bindR (guardR (cs_as step \<in> set stepNames)
       (invalid_tool toolName ('': duplicate compose step name '' @ quote_single (cs_as step)))) (\<lambda>_.
     bindR (guardR (cs_as step \<in> set (obj_keys (tool_params tool)))
       (invalid_tool toolName ('': compose step name '' @ quote_single (cs_as step) @
          '' shadows a parameter name''))) (\<lambda>_.
     bindR (guardR ((cs_tool step \<noteq> None) = (cs_sql step \<noteq> None))
       (invalid_tool toolName ('': compose step '' @ quote_single (cs_as step) @
          '' must have exactly one of '' @ quote_single ''tool'' @ '' or '' @ quote_single ''sql''))) (\<lambda>_.
     (case cs_tool step of
        None \<Rightarrow> Inr ()
      | Some ref \<Rightarrow>
          guardR (obj_get (config_tools config) ref = None)
            (invalid_tool toolName ('': compose step '' @ quote_single (cs_as step) @
               '' references unknown tool '' @ quote_single ref))))))))"

fun check_compose_steps ::
    "omnibase_config \<Rightarrow> string \<Rightarrow> tool_config \<Rightarrow> string list \<Rightarrow> compose_step list \<Rightarrow> unit result" where
  "check_compose_steps config toolName tool stepNames [] = Inr ()"
| "check_compose_steps config toolName tool stepNames (step # steps) =
     bindR (check_compose_step config toolName tool stepNames step)
       (\<lambda>_. check_compose_steps config toolName tool (set_add (cs_as step) stepNames) steps)"

definition validate_compose_pipeline ::
    "string \<Rightarrow> tool_config \<Rightarrow> compose_step list \<Rightarrow> omnibase_config \<Rightarrow> unit result" where
  "validate_compose_pipeline toolName tool compose config =
     bindR (guardR (compose = [])
       (invalid_tool toolName ('': '' @ quote_single ''compose'' @ '' must have at least one step'')))
       (\<lambda>_. check_compose_steps config toolName tool [] compose)"

text \<open>The SQL whose placeholders need a definition: the query, or every step.\<close>

definition template_sql :: "tool_config \<Rightarrow> string list" where
  "template_sql tool =
     (case ct_sql tool of Some s \<Rightarrow> [s] | None \<Rightarrow> map ts_sql (or_else (ct_steps tool) []))"

definition check_parameter :: "string \<Rightarrow> string \<times> tool_parameter \<Rightarrow> unit result" where
  "check_parameter name np =
     (case np of (paramName, param) \<Rightarrow>
       bindR (guardR (tp_type param = PEnum \<and> or_else (tp_values param) [] = [])
         (invalid_tool name ('': enum parameter '' @ quote_single paramName @
            '' must have a non-empty '' @ quote_single ''values'' @ '' array''))) (\<lambda>_.
       guardR (tp_required param = Some False \<and> tp_default param = JUndef)
         (invalid_tool name ('': optional parameter '' @ quote_single paramName @
            '' must have a '' @ quote_single ''default'' @ '' value''))))"

definition defined_modes :: "tool_config \<Rightarrow> nat" where
  "defined_modes tool =
     length (List.filter id [ct_sql tool \<noteq> None, ct_steps tool \<noteq> None, ct_compose tool \<noteq> None])"

definition check_steps :: "string \<Rightarrow> tool_config \<Rightarrow> unit result" where
  "check_steps name tool =
     (case ct_steps tool of
        None \<Rightarrow> Inr ()
      | Some steps \<Rightarrow>
          bindR (guardR (steps = [])
            (invalid_tool name ('': '' @ quote_single ''steps'' @ '' must have at least one step''))) (\<lambda>_.
          guardR (length (List.filter (\<lambda>s. ts_return s = Some True) steps) > 1)
            (invalid_tool name ('': at most one step may have '' @ quote_single ''return: true''))))"

definition check_placeholders :: "string \<Rightarrow> tool_config \<Rightarrow> unit result" where
  "check_placeholders name tool =
     (if ct_compose tool = None then
        forR (\<lambda>p. guardR (p \<notin> set (obj_keys (tool_params tool)))
            (invalid_tool name ('': SQL placeholder {'' @ p @ ''} has no matching parameter definition'')))
          (js_uniq (concat (map extract_placeholders (template_sql tool))))
      else Inr ())"

definition validate_tool :: "omnibase_config \<Rightarrow> string \<times> tool_config \<Rightarrow> unit result" where
  "validate_tool config nt =
     (case nt of (name, tool) \<Rightarrow>
       bindR (guardR (\<not> rx_test tool_name_rx name)
         (invalid_tool name '': name must be alphanumeric and underscores only, starting with a letter'')) (\<lambda>_.
       bindR (guardR (name \<in> set built_in_tool_names)
         (invalid_tool name '' collides with a built-in tool name'')) (\<lambda>_.
       bindR (guardR (nonempty (ct_description tool) = None)
         (invalid_tool name (concat ['': missing '', quote_single ''description'',
            ''. Add a description field or start the SQL with '', quote_single ''-- '', '' comment lines'']))) (\<lambda>_.
       bindR (case get_connection config (ct_connection tool) of
                Inr _ \<Rightarrow> Inr ()
              | Inl _ \<Rightarrow> Inl (invalid_tool name ('': connection '' @
                  quote_single (or_else (ct_connection tool) ''undefined'') @ '' does not exist''))) (\<lambda>_.
       bindR (guardR (defined_modes tool > 1)
         (invalid_tool name (concat ['': cannot define more than one of '', quote_single ''sql'', '', '',
            quote_single ''steps'', '', or '', quote_single ''compose'']))) (\<lambda>_.
       bindR (guardR (defined_modes tool = 0)
         (invalid_tool name (concat ['': must define either '', quote_single ''sql'', '', '',
            quote_single ''steps'', '', or '', quote_single ''compose'']))) (\<lambda>_.
       bindR (check_steps name tool) (\<lambda>_.
       bindR (case ct_compose tool of
                None \<Rightarrow> Inr ()
              | Some compose \<Rightarrow> validate_compose_pipeline name tool compose config) (\<lambda>_.
       bindR (check_placeholders name tool) (\<lambda>_.
       forR (check_parameter name) (tool_params tool)))))))))))"

section \<open>Circular references\<close>

type_synonym graph = "string list obj"

text \<open>The distinct tools that a composed tool refers to, in the order of its steps.\<close>

definition compose_refs :: "tool_config \<Rightarrow> string list" where
  "compose_refs tool =
     js_uniq (List.map_filter (\<lambda>step. nonempty (cs_tool step)) (or_else (ct_compose tool) []))"

definition compose_edges :: "omnibase_config \<Rightarrow> graph" where
  "compose_edges config =
     List.filter (\<lambda>(_, refs). refs \<noteq> []) (map (\<lambda>(n, t). (n, compose_refs t)) (config_tools config))"

definition neighbors :: "graph \<Rightarrow> string \<Rightarrow> string list" where
  "neighbors edges node = or_else (obj_get edges node) []"

definition cycle_error :: "string list \<Rightarrow> error" where
  "cycle_error cycle =
     OmnibaseError (''Circular dependency detected in compose tools: '' @ join '' -> '' cycle)
       ''INVALID_TOOL_CONFIG'' None"

text \<open>\<open>path.slice(path.indexOf(node)).concat(node)\<close>\<close>

definition cycle_of :: "string list \<Rightarrow> string \<Rightarrow> string list" where
  "cycle_of path node = dropWhile (\<lambda>x. x \<noteq> node) path @ [node]"

text \<open>
  The search, with the sets \<open>visited\<close> and \<open>inStack\<close> threaded through. The recursion is
  bounded by fuel; \<open>None\<close> means that it ran out (see \<open>detect_total\<close>).
\<close>

fun dfs :: "nat \<Rightarrow> graph \<Rightarrow> string \<Rightarrow> string list \<Rightarrow> string set \<times> string set \<Rightarrow>
      (string set \<times> string set) result option"
and dfs_all :: "nat \<Rightarrow> graph \<Rightarrow> string list \<Rightarrow> string list \<Rightarrow> string set \<times> string set \<Rightarrow>
      (string set \<times> string set) result option" where
  "dfs 0 edges node path st = None"
| "dfs (Suc n) edges node path (visited, inStack) =
     (if node \<in> inStack then Some (Inl (cycle_error (cycle_of path node)))
      else if node \<in> visited then Some (Inr (visited, inStack))
      else (case dfs_all n edges (neighbors edges node) (path @ [node])
                  (insert node visited, insert node inStack) of
              Some (Inr (visited', inStack')) \<Rightarrow> Some (Inr (visited', inStack' - {node}))
            | Some (Inl e) \<Rightarrow> Some (Inl e)
            | None \<Rightarrow> None))"
| "dfs_all n edges [] path st = Some (Inr st)"
| "dfs_all n edges (x # xs) path st =
     (case dfs n edges x path st of
        Some (Inr st') \<Rightarrow> dfs_all n edges xs path st'
      | Some (Inl e) \<Rightarrow> Some (Inl e)
      | None \<Rightarrow> None)"

fun dfs_roots :: "nat \<Rightarrow> graph \<Rightarrow> string list \<Rightarrow> string set \<times> string set \<Rightarrow>
      (string set \<times> string set) result option" where
  "dfs_roots n edges [] st = Some (Inr st)"
| "dfs_roots n edges (x # xs) st =
     (if x \<in> fst st then dfs_roots n edges xs st
      else (case dfs n edges x [] st of
              Some (Inr st') \<Rightarrow> dfs_roots n edges xs st'
            | Some (Inl e) \<Rightarrow> Some (Inl e)
            | None \<Rightarrow> None))"

definition graph_nodes :: "graph \<Rightarrow> string list" where
  "graph_nodes edges = obj_keys edges @ concat (map snd edges)"

definition detect_compose_circular_deps :: "omnibase_config \<Rightarrow> unit result option" where
  "detect_compose_circular_deps config =
     (let edges = compose_edges config in
      case dfs_roots (Suc (length (graph_nodes edges))) edges (obj_keys edges) ({}, {}) of
        Some (Inr _) \<Rightarrow> Some (Inr ())
      | Some (Inl e) \<Rightarrow> Some (Inl e)
      | None \<Rightarrow> None)"

definition validate_custom_tools :: "omnibase_config \<Rightarrow> unit result option" where
  "validate_custom_tools config =
     (case oc_tools config of
        None \<Rightarrow> Some (Inr ())
      | Some tools \<Rightarrow>
          (case forR (validate_tool config) tools of
             Inl e \<Rightarrow> Some (Inl e)
           | Inr _ \<Rightarrow> detect_compose_circular_deps config))"

end
