(* ===== verification/ComposeExpander.thy ===== *)
theory ComposeExpander
  imports ToolTemplates
begin

text \<open>
  Expansion of \<open>{step.column}\<close> references in the SQL of a compose pipeline
  (\<open>src/compose-expander.ts\<close>). The context holds the results of the earlier steps under
  their names.
\<close>

text \<open>\<open>\{([a-zA-Z_][a-zA-Z0-9_]*)\.([a-zA-Z_][a-zA-Z0-9_]*)\}\<close>\<close>

definition compose_ref_rx :: rx where
  "compose_ref_rx = seq_rx [lit ''{'', Grp 1 ident_rx, lit ''.'', Grp 2 ident_rx, lit ''}'']"

text \<open>
  The \<open>exec\<close> loop: each \<open>(step, column)\<close> once, in order of first appearance. The set
  \<open>seen\<close> holds the strings \<open>step.column\<close>.
\<close>

fun tok_refs :: "string set \<Rightarrow> tok list \<Rightarrow> (string \<times> string) list" where
  "tok_refs seen [] = []"
| "tok_refs seen (Chr c # ts) = tok_refs seen ts"
| "tok_refs seen (Mat m cs # ts) =
     (let key = captured 1 cs @ ''.'' @ captured 2 cs in
      if key \<in> seen then tok_refs seen ts
      else (captured 1 cs, captured 2 cs) # tok_refs (insert key seen) ts)"

definition extract_compose_references :: "string \<Rightarrow> (string \<times> string) list" where
  "extract_compose_references sql = tok_refs {} (rx_tokens compose_ref_rx [] sql)"

definition compose_error :: "string \<Rightarrow> error" where
  "compose_error msg = OmnibaseError (''Compose reference error: '' @ msg) ''COMPOSE_ERROR'' None"

text \<open>\<open>'${value.replace(/'/g, "''")}'\<close>\<close>

definition sql_quote :: "string \<Rightarrow> string" where
  "sql_quote s = quote_single (replace_char CHR 0x27 [CHR 0x27, CHR 0x27] s)"

definition expand_value :: "string \<Rightarrow> string \<Rightarrow> jsval \<Rightarrow> string result" where
  "expand_value stepName columnName value =
     (case value of
        JNum n \<Rightarrow> Inr (num_str n)
      | JStr s \<Rightarrow> Inr (sql_quote s)
      | _ \<Rightarrow> Inl (compose_error (''unsupported type '' @ quote_single (typeof value) @ '' for {'' @
               stepName @ ''.'' @ columnName @ ''} (only string and number are supported)'')))"

text \<open>\<open>xs.indexOf(x)\<close>\<close>

fun index_of :: "'a \<Rightarrow> 'a list \<Rightarrow> nat option" where
  "index_of x [] = None"
| "index_of x (y # ys) = (if y = x then Some 0 else map_option Suc (index_of x ys))"

definition expand_reference ::
    "query_result obj \<Rightarrow> string \<Rightarrow> string \<Rightarrow> string result" where
  "expand_reference context stepName columnName =
     (case obj_get context stepName of
        None \<Rightarrow> Inl (compose_error (''step '' @ quote_single stepName @ '' not found in context''))
      | Some r \<Rightarrow>
          (case index_of columnName (qr_columns r) of
             None \<Rightarrow> Inl (compose_error (''column '' @ quote_single columnName @ '' not found in step '' @
                       quote_single stepName @ '' (available: '' @ join '', '' (qr_columns r) @ '')''))
           | Some colIndex \<Rightarrow>
               (if qr_rows r = []
                then Inl (compose_error (''step '' @ quote_single stepName @ '' returned no rows''))
                else bindR (mapR (\<lambda>row. expand_value stepName columnName (cell row colIndex)) (qr_rows r))
                       (\<lambda>values. Inr (join '', '' values)))))"

fun expand_tok :: "query_result obj \<Rightarrow> tok \<Rightarrow> string result" where
  "expand_tok context (Chr c) = Inr [c]"
| "expand_tok context (Mat m cs) = expand_reference context (captured 1 cs) (captured 2 cs)"

definition expand_compose_references :: "string \<Rightarrow> query_result obj \<Rightarrow> string result" where
  "expand_compose_references sql context =
     bindR (mapR (expand_tok context) (rx_tokens compose_ref_rx [] sql)) (\<lambda>ws. Inr (concat ws))"

section \<open>Reading a quoted value back\<close>

text \<open>
  A standard SQL string literal after its opening quote: two quotes stand for one, a single
  quote ends it. Returns the value and what follows the literal.
\<close>

fun read_literal :: "string \<Rightarrow> (string \<times> string) option" where
  "read_literal [] = None"
| "read_literal (c # cs) =
     (if c = CHR 0x27 then
        (case cs of
           d # ds \<Rightarrow>
             if d = CHR 0x27 then map_option (\<lambda>(v, r). (CHR 0x27 # v, r)) (read_literal ds)
             else Some ([], cs)
         | [] \<Rightarrow> Some ([], []))
      else map_option (\<lambda>(v, r). (c # v, r)) (read_literal cs))"

lemma read_literal_escaped:
  "(rest = [] \<or> hd rest \<noteq> CHR 0x27) \<Longrightarrow>
     read_literal (replace_char CHR 0x27 [CHR 0x27, CHR 0x27] s @ CHR 0x27 # rest) = Some (s, rest)"
proof (induction s)
  case Nil
  then show ?case by (cases rest) (simp_all add: replace_char_def)
next
  case (Cons c s)
  then show ?case by (auto simp: replace_char_def)
qed

lemma sql_quote_reads_back:
  "(rest = [] \<or> hd rest \<noteq> CHR 0x27) \<Longrightarrow>
     \<exists>body. sql_quote s @ rest = CHR 0x27 # body \<and> read_literal body = Some (s, rest)"
  by (simp add: sql_quote_def quote_single_def read_literal_escaped)

section \<open>When an expansion succeeds\<close>

definition expandable :: "jsval \<Rightarrow> bool" where
  "expandable v \<longleftrightarrow> (\<exists>n. v = JNum n) \<or> (\<exists>s. v = JStr s)"

lemma expand_value_Inr: "(\<exists>w. expand_value s c v = Inr w) \<longleftrightarrow> expandable v"
  by (cases v) (auto simp: expand_value_def expandable_def)

lemma mapR_ex_Inr: "(\<exists>ys. mapR f xs = Inr ys) \<longleftrightarrow> (\<forall>x \<in> set xs. \<exists>y. f x = Inr y)"
  by (induction xs) (auto simp: bindR_eq_Inr)

lemma index_of_Some: "index_of x xs = Some i \<Longrightarrow> i < length xs \<and> xs ! i = x \<and> x \<notin> set (take i xs)"
  by (induction xs arbitrary: i) (auto split: if_splits)

lemma index_of_None: "index_of x xs = None \<longleftrightarrow> x \<notin> set xs"
  by (induction xs) auto

definition reference_ok :: "query_result obj \<Rightarrow> string \<Rightarrow> string \<Rightarrow> bool" where
  "reference_ok context stepName columnName \<longleftrightarrow>
     (\<exists>r i. obj_get context stepName = Some r \<and> index_of columnName (qr_columns r) = Some i \<and>
        qr_rows r \<noteq> [] \<and> (\<forall>row \<in> set (qr_rows r). expandable (cell row i)))"

lemma expand_reference_Inr:
  "(\<exists>w. expand_reference context s c = Inr w) \<longleftrightarrow> reference_ok context s c"
proof -
  have "(\<exists>w. bindR (mapR (\<lambda>row. expand_value s c (cell row i)) rows) (\<lambda>values. Inr (join '', '' values)) = Inr w)
      \<longleftrightarrow> (\<forall>row \<in> set rows. expandable (cell row i))" for i rows
  proof -
    have "(\<exists>w. bindR (mapR (\<lambda>row. expand_value s c (cell row i)) rows) (\<lambda>values. Inr (join '', '' values)) = Inr w)
        \<longleftrightarrow> (\<exists>ys. mapR (\<lambda>row. expand_value s c (cell row i)) rows = Inr ys)"
      by (auto simp: bindR_eq_Inr)
    also have "\<dots> \<longleftrightarrow> (\<forall>row \<in> set rows. \<exists>w. expand_value s c (cell row i) = Inr w)"
      by (rule mapR_ex_Inr)
    finally show ?thesis by (simp add: expand_value_Inr)
  qed
  then show ?thesis
    unfolding expand_reference_def reference_ok_def
    by (auto split: option.split)
qed

lemma expand_reference_error:
  "expand_reference context s c = Inl e \<Longrightarrow> err_code e = ''COMPOSE_ERROR''"
proof -
  have mapR_Inl: "mapR f xs = Inl e \<Longrightarrow> \<exists>x. f x = Inl e" for f :: "'a \<Rightarrow> 'b result" and xs
    by (induction xs) (auto simp: bindR_eq_Inl)
  assume "expand_reference context s c = Inl e"
  then show ?thesis
    by (auto simp: expand_reference_def compose_error_def bindR_eq_Inl expand_value_def
        split: option.splits if_splits jsval.splits dest!: mapR_Inl)
qed

lemma expand_no_refs:
  "(\<And>m cs. Mat m cs \<notin> set (rx_tokens compose_ref_rx [] sql)) \<Longrightarrow>
     expand_compose_references sql context = Inr sql"
proof -
  assume none: "\<And>m cs. Mat m cs \<notin> set (rx_tokens compose_ref_rx [] sql)"
  have "expand_tok context t = Inr (tok_src t)" if "t \<in> set (rx_tokens compose_ref_rx [] sql)" for t
    using none that by (cases t) auto
  then have "mapR (expand_tok context) (rx_tokens compose_ref_rx [] sql)
      = Inr (map tok_src (rx_tokens compose_ref_rx [] sql))"
    by (rule mapR_Inr_map)
  then show ?thesis by (simp add: expand_compose_references_def tokens_src)
qed

end
