(* ===== verification/QueryAnalyzer.thy ===== *)
theory QueryAnalyzer
  imports JsRegex Domain
begin

text \<open>
  Query classification and multi-statement detection (\<open>src/query-analyzer.ts\<close>). The SQL
  parser is a third-party package: it is the parameter \<open>astify\<close>, which maps a text to the
  syntax tree it returns (an array of statements, or one statement) and to \<open>None\<close> when it
  throws. Nothing is assumed about it.
\<close>

type_synonym sql_parser = "string \<Rightarrow> jsval option"

definition ddl_types :: "string set" where
  "ddl_types = {''create'', ''alter'', ''drop'', ''truncate''}"

definition write_types :: "string set" where
  "write_types = {''insert'', ''update'', ''delete'', ''replace'', ''merge''}"

definition read_types :: "string set" where
  "read_types = {''select'', ''show'', ''desc'', ''describe''}"

section \<open>Classification\<close>

text \<open>\<open>/^\s*(explain)\s/i\<close>\<close>

definition explain_rx :: rx where
  "explain_rx = seq_rx [Bol, Star True (Cls is_space), lit_i ''explain'', Cls is_space]"

text \<open>\<open>/\bAS\s*\(\s*(UPDATE|DELETE|INSERT)\b/i\<close>\<close>

definition write_in_cte_rx :: rx where
  "write_in_cte_rx = seq_rx [Bnd, lit_i ''AS'', Star True (Cls is_space), lit ''('',
     Star True (Cls is_space), alt_rx [lit_i ''UPDATE'', lit_i ''DELETE'', lit_i ''INSERT''], Bnd]"

definition has_writable_cte :: "string \<Rightarrow> bool" where
  "has_writable_cte sql =
     (let upper = to_upper sql in
      if \<not> starts_with upper ''WITH'' then False else rx_test write_in_cte_rx sql)"

text \<open>\<open>/^\s*(--[^\n]*\n|\s)*/\<close>, the leading white space and line comments.\<close>

definition leading_comment_rx :: rx where
  "leading_comment_rx = seq_rx [Bol, Star True (Cls is_space),
     Star True (Alt (seq_rx [lit ''--'', Star True (Cls (\<lambda>c. c \<noteq> CHR 0x0A)), Cls (\<lambda>c. c = CHR 0x0A)])
                    (Cls is_space))]"

definition strip_leading_comments :: "string \<Rightarrow> string" where
  "strip_leading_comments sql =
     (case rx_exec leading_comment_rx sql of
        None \<Rightarrow> sql | Some (before, _, m) \<Rightarrow> before @ rx_rest m)"

definition classify_by_keyword :: "string \<Rightarrow> query_category" where
  "classify_by_keyword sql =
     (let stripped = trim (strip_leading_comments sql);
          firstWord = to_lower (first_word stripped) in
      if firstWord = ''select'' \<or> firstWord = ''show'' then Read
      else if firstWord = ''with'' then (if has_writable_cte stripped then Write else Read)
      else if firstWord \<in> ddl_types then Ddl
      else if firstWord \<in> write_types then Write
      else Write)"

text \<open>\<open>Array.isArray(ast) ? ast : [ast]\<close>, and the category of a statement's type.\<close>

fun statements :: "jsval \<Rightarrow> jsval list" where
  "statements (JArr vs) = vs"
| "statements v = [v]"

definition category_of_type :: "string \<Rightarrow> query_category" where
  "category_of_type t =
     (if t \<in> ddl_types then Ddl else if t \<in> write_types then Write
      else if t \<in> read_types then Read else Write)"

definition classify_ast :: "jsval \<Rightarrow> query_category" where
  "classify_ast ast =
     (case statements ast of
        [] \<Rightarrow> Write
      | stmt # _ \<Rightarrow>
          (if \<not> truthy stmt then Write
           else case js_prop stmt ''type'' of
             JStr t \<Rightarrow> category_of_type (to_lower t)
           | _ \<Rightarrow> Write))"

definition classify_query :: "sql_parser \<Rightarrow> string \<Rightarrow> query_category" where
  "classify_query astify sql =
     (let trimmed = trim sql in
      if rx_test explain_rx trimmed then Read
      else if has_writable_cte trimmed then Write
      else case astify trimmed of
        Some ast \<Rightarrow> classify_ast ast
      | None \<Rightarrow> classify_by_keyword trimmed)"

section \<open>Multi-statement detection\<close>

text \<open>
  The fallback scanner: the previous character, the two quote flags and the counter are
  its state.
\<close>

fun quote_step :: "string \<Rightarrow> bool \<times> bool \<Rightarrow> char \<Rightarrow> bool \<times> bool" where
  "quote_step prev (inSingle, inDouble) c =
     (if c = CHR 0x27 \<and> \<not> inDouble \<and> prev \<noteq> [CHR 0x5C] then (\<not> inSingle, inDouble)
      else if c = CHR 0x22 \<and> \<not> inSingle \<and> prev \<noteq> [CHR 0x5C] then (inSingle, \<not> inDouble)
      else (inSingle, inDouble))"

fun semicolon_scan :: "string \<Rightarrow> bool \<times> bool \<Rightarrow> nat \<Rightarrow> string \<Rightarrow> nat" where
  "semicolon_scan prev q n [] = n"
| "semicolon_scan prev q n (c # cs) =
     (if quote_step prev q c \<noteq> q then semicolon_scan [c] (quote_step prev q c) n cs
      else if c = CHR '';'' \<and> q = (False, False) then semicolon_scan [c] q (Suc n) cs
      else semicolon_scan [c] q n cs)"

definition is_multi_statement :: "sql_parser \<Rightarrow> string \<Rightarrow> bool" where
  "is_multi_statement astify sql =
     (case astify sql of
        Some ast \<Rightarrow> length (statements ast) > 1
      | None \<Rightarrow>
          (let n = semicolon_scan [] (False, False) 0 sql in
           if ends_with (trim_end sql) '';'' \<and> n = 1 then False else n > 1))"

section \<open>Lemmas\<close>

lemma explain_rx_iff:
  "rx_test explain_rx s \<longleftrightarrow>
     (\<exists>ws v d rest. s = ws @ v @ d # rest \<and> (\<forall>c \<in> set ws. is_space c) \<and>
        to_upper v = ''EXPLAIN'' \<and> is_space d)"
proof -
  have up: "to_upper ''explain'' = ''EXPLAIN''" by code_simp
  show ?thesis
    unfolding rx_test_iff explain_rx_def seq_rx.simps
    by (simp add: rx_seq rx_match_Cls_list up) blast
qed

lemma category_of_type_Read [simp]: "category_of_type t = Read \<longleftrightarrow> t \<in> read_types"
  by (auto simp: category_of_type_def ddl_types_def write_types_def read_types_def)

lemma classify_ast_Read:
  "classify_ast ast = Read \<longleftrightarrow>
     (\<exists>stmt rest t. statements ast = stmt # rest \<and> js_prop stmt ''type'' = JStr t \<and> to_lower t \<in> read_types)"
proof (cases "statements ast")
  case Nil
  then show ?thesis by (simp add: classify_ast_def)
next
  case (Cons stmt rest)
  have "js_prop stmt ''type'' = JStr t \<Longrightarrow> truthy stmt" for t
    by (cases stmt) simp_all
  with Cons show ?thesis
    by (auto simp: classify_ast_def split: jsval.splits)
qed

lemma classify_by_keyword_Read:
  "classify_by_keyword sql = Read \<longleftrightarrow>
     (let w = to_lower (first_word (trim (strip_leading_comments sql))) in
      w = ''select'' \<or> w = ''show'' \<or>
      (w = ''with'' \<and> \<not> has_writable_cte (trim (strip_leading_comments sql))))"
  by (auto simp: classify_by_keyword_def Let_def ddl_types_def write_types_def)

text \<open>The state of the two quote flags after a text.\<close>

fun quote_run :: "string \<Rightarrow> bool \<times> bool \<Rightarrow> string \<Rightarrow> bool \<times> bool" where
  "quote_run prev q [] = q"
| "quote_run prev q (c # cs) = quote_run [c] (quote_step prev q c) cs"

definition quotes_closed :: "string \<Rightarrow> bool" where
  "quotes_closed s \<longleftrightarrow> quote_run [] (False, False) s = (False, False)"

text \<open>The positions of the semicolons outside quotes.\<close>

definition separators :: "string \<Rightarrow> nat set" where
  "separators s = {i. i < length s \<and> s ! i = CHR '';'' \<and> quotes_closed (take i s)}"

lemma finite_separators [simp]: "finite (separators s)"
  by (simp add: separators_def)

lemma quote_step_semicolon [simp]: "quote_step prev q CHR '';'' = q"
  by (cases q) simp

lemma semicolon_scan_card:
  "semicolon_scan prev q n s =
     n + card {i. i < length s \<and> s ! i = CHR '';'' \<and> quote_run prev q (take i s) = (False, False)}"
proof (induction s arbitrary: prev q n)
  case Nil
  then show ?case by simp
next
  case (Cons c s)
  let ?A = "\<lambda>prev q s. {i. i < length s \<and> s ! i = CHR '';'' \<and> quote_run prev q (take i s) = (False, False)}"
  have split: "?A prev q (c # s) =
      (if c = CHR '';'' \<and> q = (False, False) then {0} else {}) \<union> Suc ` ?A [c] (quote_step prev q c) s"
    (is "?L = ?R")
  proof (rule set_eqI)
    fix i show "i \<in> ?L \<longleftrightarrow> i \<in> ?R" by (cases i) auto
  qed
  have "card ?L = (if c = CHR '';'' \<and> q = (False, False) then 1 else 0)
      + card (?A [c] (quote_step prev q c) s)"
    unfolding split by (subst card_Un_disjoint) (auto simp: card_image)
  then show ?case by (auto simp: Cons.IH)
qed

lemma semicolon_scan_separators: "semicolon_scan [] (False, False) 0 s = card (separators s)"
  by (simp add: semicolon_scan_card separators_def quotes_closed_def)

lemma is_multi_statement_fallback:
  "astify s = None \<Longrightarrow> is_multi_statement astify s \<longleftrightarrow> card (separators s) > 1"
  by (simp add: is_multi_statement_def semicolon_scan_separators Let_def)

text \<open>A text without quotes: every semicolon separates.\<close>

lemma quote_run_plain:
  "CHR 0x27 \<notin> set s \<Longrightarrow> CHR 0x22 \<notin> set s \<Longrightarrow> quote_run prev q s = q"
proof (induction s arbitrary: prev q)
  case Nil
  then show ?case by simp
next
  case (Cons c s)
  then show ?case by (cases q) auto
qed

lemma semicolon_scan_plain:
  "CHR 0x27 \<notin> set s \<Longrightarrow> CHR 0x22 \<notin> set s \<Longrightarrow>
     semicolon_scan prev (False, False) n s = n + count_list s CHR '';''"
  by (induction s arbitrary: prev n) auto

text \<open>Everything that starts with the keyword EXPLAIN is a read, whatever it explains.\<close>

lemma trim_end_append:
  "\<exists>c \<in> set t. \<not> is_space c \<Longrightarrow> trim_end (s @ t) = s @ trim_end t"
  by (auto simp: trim_end_def dropWhile_append1 [of _ "rev t"])

lemma explain_is_read:
  assumes "\<exists>c \<in> set rest. \<not> is_space c"
  shows "classify_query astify (''EXPLAIN '' @ rest) = Read"
proof -
  have "\<not> is_space CHR ''E''" by code_simp
  then have "trim (''EXPLAIN '' @ rest) = ''EXPLAIN '' @ trim_end rest"
    using trim_end_append [OF assms, of "''EXPLAIN ''"] by (simp add: trim_def trim_start_def)
  moreover have "rx_test explain_rx (''EXPLAIN '' @ trim_end rest)"
  proof -
    have "to_upper ''EXPLAIN'' = ''EXPLAIN''" "is_space CHR '' ''" by code_simp+
    moreover have "''EXPLAIN '' @ trim_end rest = [] @ ''EXPLAIN'' @ CHR '' '' # trim_end rest" by simp
    ultimately show ?thesis unfolding explain_rx_iff by (intro exI conjI) auto
  qed
  ultimately show ?thesis by (simp add: classify_query_def Let_def)
qed

text \<open>Two statements joined by one semicolon, as the fallback counts them.\<close>

lemma one_semicolon_not_multi:
  assumes "astify (a @ '';'' @ b) = None"
    and "\<forall>c \<in> set a \<union> set b. c \<notin> {CHR 0x27, CHR 0x22, CHR '';''}"
  shows "\<not> is_multi_statement astify (a @ '';'' @ b)"
proof -
  have "count_list a CHR '';'' = 0" "count_list b CHR '';'' = 0"
    using assms(2) by (auto simp: count_list_0_iff)
  then have "semicolon_scan [] (False, False) 0 (a @ '';'' @ b) = 1"
    using assms(2) by (subst semicolon_scan_plain) auto
  then show ?thesis using assms(1) by (simp add: is_multi_statement_def)
qed

end
