(* ===== verification/SqlSecurity.thy ===== *)
theory SqlSecurity
  imports QueryAnalyzer
begin

text \<open>
  The content rules that every statement passes before it reaches the database
  (\<open>checkSqlSecurity\<close> in \<open>src/tools/execute-sql.ts\<close>) and the \<open>read_only_tables\<close> rule of
  \<open>execute_sql\<close>. The em dash of the messages is written as a hyphen.
\<close>

definition dangerous_functions :: "string list" where
  "dangerous_functions =
     [''PG_READ_FILE'', ''PG_READ_BINARY_FILE'', ''PG_LS_DIR'', ''LO_IMPORT'', ''LO_EXPORT'',
      ''PG_EXECUTE_SERVER_PROGRAM'', ''PG_TERMINATE_BACKEND'', ''PG_CANCEL_BACKEND'',
      ''PG_RELOAD_CONF'', ''SET_CONFIG'', ''LOAD_FILE'', ''XP_CMDSHELL'', ''XP_DIRTREE'',
      ''XP_FILEEXIST'', ''XP_SUBDIRS'', ''OPENROWSET'', ''OPENDATASOURCE'', ''OPENQUERY'',
      ''UTL_FILE.FOPEN'', ''UTL_FILE.GET_LINE'', ''UTL_FILE.PUT_LINE'', ''DBMS_SCHEDULER.CREATE_JOB'']"

definition sensitive_tables :: "string list" where
  "sensitive_tables =
     [''PG_SHADOW'', ''PG_AUTHID'', ''MYSQL.USER'', ''SYS.SQL_LOGINS'', ''SYS.SYSLOGINS'',
      ''DBA_USERS'', ''SYS.USER$'']"

definition blocked_statements :: "string list" where
  "blocked_statements =
     [''ATTACH'', ''DETACH'', ''BEGIN'', ''COMMIT'', ''ROLLBACK'', ''SAVEPOINT'', ''RELEASE'',
      ''GRANT'', ''REVOKE'', ''COPY'', ''LOAD'', ''BULK'']"

definition safe_pragmas :: "string list" where
  "safe_pragmas =
     [''TABLE_INFO'', ''TABLE_LIST'', ''TABLE_XINFO'', ''INDEX_LIST'', ''INDEX_INFO'',
      ''INDEX_XINFO'', ''FOREIGN_KEY_LIST'', ''FOREIGN_KEY_CHECK'', ''INTEGRITY_CHECK'',
      ''QUICK_CHECK'', ''COMPILE_OPTIONS'', ''DATABASE_LIST'', ''COLLATION_LIST'', ''ENCODING'']"

definition forbidden :: "string \<Rightarrow> error" where
  "forbidden msg = OmnibaseError msg ''FORBIDDEN_OPERATION'' None"

section \<open>The patterns\<close>

text \<open>\<open>/^PRAGMA\s+/i\<close> and \<open>/\s*[=(]/\<close>\<close>

definition pragma_prefix_rx :: rx where
  "pragma_prefix_rx = seq_rx [Bol, lit_i ''PRAGMA'', plus_rx True (Cls is_space)]"

definition pragma_arg_rx :: rx where
  "pragma_arg_rx = Seq (Star True (Cls is_space)) (Cls (\<lambda>c. c = CHR ''='' \<or> c = CHR ''(''))"

definition pragma_name :: "string \<Rightarrow> string" where
  "pragma_name normalized =
     split_first pragma_arg_rx
       (case rx_exec pragma_prefix_rx normalized of
          None \<Rightarrow> normalized | Some (before, _, m) \<Rightarrow> before @ rx_rest m)"

text \<open>
  \<open>(?:FROM|JOIN)\s+TABLE\b\<close> for a qualified name, \<open>(?:FROM|JOIN)\s+(?:\w+\.)?TABLE\b\<close>
  otherwise; the name is escaped, so it is a literal.
\<close>

definition sensitive_rx :: "string \<Rightarrow> rx" where
  "sensitive_rx table =
     (if CHR ''.'' \<in> set table
      then seq_rx [alt_rx [lit_i ''FROM'', lit_i ''JOIN''], plus_rx True (Cls is_space), lit_i table, Bnd]
      else seq_rx [alt_rx [lit_i ''FROM'', lit_i ''JOIN''], plus_rx True (Cls is_space),
             opt_rx (Seq (plus_rx True (Cls is_word)) (lit ''.'')), lit_i table, Bnd])"

text \<open>
  \<open>(?:INTO|UPDATE|DELETE\s+FROM|DROP\s+TABLE|ALTER\s+TABLE|TRUNCATE\s+TABLE)\s+TABLE\b\<close>, on the
  upper-cased query and the upper-cased, escaped table name.
\<close>

definition write_target_rx :: "string \<Rightarrow> rx" where
  "write_target_rx table =
     (let sp = plus_rx True (Cls is_space); two = (\<lambda>a b. seq_rx [lit a, sp, lit b]) in
      seq_rx [alt_rx [lit ''INTO'', lit ''UPDATE'', two ''DELETE'' ''FROM'', two ''DROP'' ''TABLE'',
                two ''ALTER'' ''TABLE'', two ''TRUNCATE'' ''TABLE''],
              sp, lit (to_upper table), Bnd])"

section \<open>The checks\<close>

definition check_statement :: "string \<Rightarrow> unit result" where
  "check_statement normalized =
     (let firstWord = first_word normalized in
      guardR (firstWord \<in> set blocked_statements)
        (forbidden (firstWord @ '' statements are not allowed'')))"

definition check_pragma :: "string \<Rightarrow> bool option \<Rightarrow> unit result" where
  "check_pragma normalized allowAllPragmas =
     (if first_word normalized = ''PRAGMA'' \<and> allowAllPragmas \<noteq> Some True
      then (let pragmaName = pragma_name normalized in
        guardR (pragmaName \<notin> set safe_pragmas)
          (forbidden (''PRAGMA '' @ to_lower pragmaName @
             '' is not allowed. Only read-only diagnostic PRAGMAs are permitted. '' @
             ''Set allow_all_pragmas: true in the connection config to override.'')))
      else Inr ())"

definition calls_function :: "string \<Rightarrow> string \<Rightarrow> bool" where
  "calls_function normalized fn \<longleftrightarrow>
     str_includes normalized (fn @ ''('') \<or> str_includes normalized (fn @ '' ('')"

definition check_functions :: "string \<Rightarrow> unit result" where
  "check_functions normalized =
     forR (\<lambda>fn. guardR (calls_function normalized fn)
       (forbidden (''Function '' @ to_lower fn @ ''() is not allowed - it provides dangerous server access'')))
     dangerous_functions"

definition check_tables :: "string \<Rightarrow> unit result" where
  "check_tables normalized =
     forR (\<lambda>table. guardR (rx_test (sensitive_rx table) normalized)
       (forbidden (''Access to '' @ to_lower table @ '' is not allowed - it contains sensitive credential data'')))
     sensitive_tables"

definition check_outfile :: "string \<Rightarrow> unit result" where
  "check_outfile normalized =
     guardR (str_includes normalized ''INTO OUTFILE'' \<or> str_includes normalized ''INTO DUMPFILE'')
       (forbidden ''INTO OUTFILE/DUMPFILE is not allowed - it writes to the server filesystem'')"

definition check_sql_security :: "string \<Rightarrow> bool option \<Rightarrow> unit result" where
  "check_sql_security sql allowAllPragmas =
     (let normalized = to_upper (trim sql) in
      bindR (check_statement normalized) (\<lambda>_.
      bindR (check_pragma normalized allowAllPragmas) (\<lambda>_.
      bindR (check_functions normalized) (\<lambda>_.
      bindR (check_tables normalized) (\<lambda>_.
      check_outfile normalized)))))"

definition writes_to_table :: "string \<Rightarrow> string \<Rightarrow> bool" where
  "writes_to_table query table = rx_test (write_target_rx table) (to_upper (trim query))"

definition check_read_only_tables :: "string \<Rightarrow> query_category \<Rightarrow> string list option \<Rightarrow> unit result" where
  "check_read_only_tables query cat readOnlyTables =
     (if cat = Write \<or> cat = Ddl then
        (case readOnlyTables of
           None \<Rightarrow> Inr ()
         | Some tables \<Rightarrow>
             forR (\<lambda>table. guardR (writes_to_table query table)
               (OmnibaseError (''Table '' @ quote_single table @ '' is read-only on this connection'')
                  ''TABLE_READ_ONLY'' None)) tables)
      else Inr ())"

section \<open>What the checks accept\<close>

text \<open>An optional schema prefix, \<open>(?:\w+\.)?\<close>.\<close>

definition qualifier :: "string \<Rightarrow> bool" where
  "qualifier q \<longleftrightarrow> q = [] \<or> (\<exists>w. q = w @ ''.'' \<and> w \<noteq> [] \<and> (\<forall>c \<in> set w. is_word c))"

text \<open>A mention of a table right after FROM or JOIN, the way the pattern sees it.\<close>

definition mentions_table :: "string \<Rightarrow> string \<Rightarrow> bool" where
  "mentions_table s table \<longleftrightarrow>
     (\<exists>before kw ws q t after. s = before @ kw @ ws @ q @ t @ after \<and>
        to_upper kw \<in> {''FROM'', ''JOIN''} \<and> ws \<noteq> [] \<and> (\<forall>c \<in> set ws. is_space c) \<and>
        qualifier q \<and> (CHR ''.'' \<in> set table \<longrightarrow> q = []) \<and>
        to_upper t = to_upper table \<and>
        word_boundary (rev (before @ kw @ ws @ q @ t)) after)"

lemma seq_opt [rx_seq]:
  "rx_match (Seq (opt_rx x) b) st st' \<longleftrightarrow> rx_match (Seq x b) st st' \<or> rx_match b st st'"
  by (simp add: opt_rx_def rx_seq)

lemma upper_from_join: "to_upper ''FROM'' = ''FROM''" "to_upper ''JOIN'' = ''JOIN''"
  by code_simp+

lemma seq_from_join:
  "rx_match (Seq (alt_rx [lit_i ''FROM'', lit_i ''JOIN'']) b) (pre, rest, cs) st' \<longleftrightarrow>
     (\<exists>kw rest'. rest = kw @ rest' \<and> to_upper kw \<in> {''FROM'', ''JOIN''} \<and> rx_match b (rev kw @ pre, rest', cs) st')"
proof -
  have "alt_rx [lit_i ''FROM'', lit_i ''JOIN''] = Alt (lit_i ''FROM'') (lit_i ''JOIN'')" by simp
  then show ?thesis
    by (simp only: seq_Alt seq_lit_i upper_from_join insert_iff empty_iff) blast
qed

lemma seq_qualifier:
  "rx_match (Seq (opt_rx (Seq (plus_rx True (Cls is_word)) (lit ''.''))) b) (pre, rest, cs) st' \<longleftrightarrow>
     (\<exists>q rest'. rest = q @ rest' \<and> qualifier q \<and> rx_match b (rev q @ pre, rest', cs) st')"
  (is "?L \<longleftrightarrow> ?R")
proof
  assume ?L
  then consider "rx_match b (pre, rest, cs) st'"
    | w rest' where "rest = w @ ''.'' @ rest'" "w \<noteq> []" "\<forall>c \<in> set w. is_word c"
        "rx_match b (rev ''.'' @ rev w @ pre, rest', cs) st'"
    by (auto simp: seq_opt seq_assoc seq_plus_Cls seq_lit)
  then show ?R
  proof cases
    case 1
    then show ?thesis by (intro exI [of _ "[]"] exI [of _ rest]) (simp add: qualifier_def)
  next
    case (2 w rest')
    then show ?thesis
      by (intro exI [of _ "w @ ''.''"] exI [of _ rest']) (auto simp: qualifier_def)
  qed
next
  assume ?R
  then consider "rx_match b (pre, rest, cs) st'"
    | w rest' where "rest = w @ ''.'' @ rest'" "w \<noteq> []" "\<forall>c \<in> set w. is_word c"
        "rx_match b (rev ''.'' @ rev w @ pre, rest', cs) st'"
    by (auto simp: qualifier_def)
  then show ?L
  proof cases
    case 1
    then show ?thesis by (simp add: seq_opt)
  next
    case (2 w rest')
    then have "rx_match (Seq (plus_rx True (Cls is_word)) (Seq (lit ''.'') b)) (pre, rest, cs) st'"
      unfolding seq_plus_Cls seq_lit by blast
    then show ?thesis by (simp add: seq_opt seq_assoc)
  qed
qed

lemma mentions_table_alt:
  "mentions_table s table \<longleftrightarrow>
     (\<exists>before kw ws q t after. s = before @ kw @ ws @ q @ t @ after \<and>
        to_upper kw \<in> {''FROM'', ''JOIN''} \<and> ws \<noteq> [] \<and> (\<forall>c \<in> set ws. is_space c) \<and>
        qualifier q \<and> (CHR ''.'' \<in> set table \<longrightarrow> q = []) \<and>
        to_upper t = to_upper table \<and>
        word_boundary (rev t @ rev q @ rev ws @ rev kw @ rev before) after)"
  by (simp add: mentions_table_def)

lemma seq_lit_i_Bnd:
  "rx_match (Seq (lit_i table) Bnd) (pre, rest, cs) st' \<longleftrightarrow>
     (\<exists>t after. rest = t @ after \<and> to_upper t = to_upper table \<and> word_boundary (rev t @ pre) after \<and>
        st' = (rev t @ pre, after, cs))"
  by (auto simp: seq_lit_i rx_match_Bnd_iff)

lemma sensitive_rx_iff: "rx_test (sensitive_rx table) s \<longleftrightarrow> mentions_table s table"
proof (cases "CHR ''.'' \<in> set table")
  case True
  have "rx_test (sensitive_rx table) s \<longleftrightarrow>
     (\<exists>before kw ws t after. s = before @ kw @ ws @ t @ after \<and>
        to_upper kw \<in> {''FROM'', ''JOIN''} \<and> ws \<noteq> [] \<and> (\<forall>c \<in> set ws. is_space c) \<and>
        to_upper t = to_upper table \<and> word_boundary (rev t @ rev ws @ rev kw @ rev before) after)"
    unfolding rx_test_iff sensitive_rx_def if_P [OF True] seq_rx.simps seq_from_join seq_plus_Cls
      seq_lit_i_Bnd
    by blast
  then show ?thesis using True unfolding mentions_table_alt by (force simp: qualifier_def)
next
  case False
  have "rx_test (sensitive_rx table) s \<longleftrightarrow>
     (\<exists>before kw ws q t after. s = before @ kw @ ws @ q @ t @ after \<and>
        to_upper kw \<in> {''FROM'', ''JOIN''} \<and> ws \<noteq> [] \<and> (\<forall>c \<in> set ws. is_space c) \<and> qualifier q \<and>
        to_upper t = to_upper table \<and> word_boundary (rev t @ rev q @ rev ws @ rev kw @ rev before) after)"
    unfolding rx_test_iff sensitive_rx_def if_not_P [OF False] seq_rx.simps seq_from_join seq_plus_Cls
      seq_qualifier seq_lit_i_Bnd
    by (rule iffI; elim exE conjE; hypsubst; intro exI conjI; (rule refl | assumption)+)
  then show ?thesis unfolding mentions_table_alt using False by simp
qed

theorem check_sql_security_accepts:
  "check_sql_security sql pragmas = Inr u \<longleftrightarrow>
     (let n = to_upper (trim sql) in
      first_word n \<notin> set blocked_statements \<and>
      (first_word n = ''PRAGMA'' \<longrightarrow> pragmas = Some True \<or> pragma_name n \<in> set safe_pragmas) \<and>
      (\<forall>fn \<in> set dangerous_functions. \<not> sublist (fn @ ''('') n \<and> \<not> sublist (fn @ '' ('') n) \<and>
      (\<forall>table \<in> set sensitive_tables. \<not> mentions_table n table) \<and>
      \<not> sublist ''INTO OUTFILE'' n \<and> \<not> sublist ''INTO DUMPFILE'' n)"
  unfolding check_sql_security_def Let_def bindR_eq_Inr check_statement_def check_pragma_def
    check_functions_def check_tables_def check_outfile_def forR_eq_Inr guardR_eq_Inr
    calls_function_def sensitive_rx_iff includes_iff_sublist
  by (auto simp: guardR_def)

lemma check_sql_security_error:
  "check_sql_security sql pragmas = Inl e \<Longrightarrow> err_code e = ''FORBIDDEN_OPERATION''"
  unfolding check_sql_security_def Let_def bindR_eq_Inl check_statement_def check_pragma_def
    check_functions_def check_tables_def check_outfile_def
  by (auto simp: forbidden_def split: if_splits dest!: forR_eq_Inl)

text \<open>A query that names a sensitive table is refused, whatever else it holds.\<close>

lemma names_sensitive_table:
  "rx_test (sensitive_rx table) (to_upper (trim sql)) \<Longrightarrow> table \<in> set sensitive_tables \<Longrightarrow>
     check_sql_security sql p \<noteq> Inr ()"
  by (auto simp: check_sql_security_def check_tables_def bindR_eq_Inr forR_eq_Inr guardR_def Let_def)

end
