(* ===== verification/OutputFormatter.thy ===== *)
theory OutputFormatter
  imports Domain "HOL-Library.Multiset"
begin

text \<open>
  What a tool returns to the client (\<open>src/output-formatter.ts\<close>): query results with long
  strings cut, schemas as JSON objects, and search results ranked by relevance.
\<close>

section \<open>Query results\<close>

definition default_max_value_length :: int where
  "default_max_value_length = 500"

definition max_search_results :: nat where
  "max_search_results = 20"

text \<open>\<open>s.slice(0, n)\<close>; a negative \<open>n\<close> counts from the end.\<close>

definition slice_to :: "int \<Rightarrow> 'a list \<Rightarrow> 'a list" where
  "slice_to n s = (if n < 0 then take (nat (int (length s) + n)) s else take (nat n) s)"

definition truncated_mark :: string where
  "truncated_mark = ''...[truncated]''"

fun truncate_value :: "jsval \<Rightarrow> int \<Rightarrow> jsval" where
  "truncate_value JNull maxLength = JNull"
| "truncate_value JUndef maxLength = JNull"
| "truncate_value (JStr s) maxLength =
     (if int (length s) > maxLength then JStr (slice_to maxLength s @ truncated_mark) else JStr s)"
| "truncate_value v maxLength = v"

definition format_query_result :: "query_result \<Rightarrow> int \<Rightarrow> int option \<Rightarrow> formatted_result" where
  "format_query_result result maxRows maxValueLength =
     (let limit = (case maxValueLength of None \<Rightarrow> default_max_value_length | Some n \<Rightarrow> n) in
      \<lparr>fr_columns = qr_columns result,
       fr_rows = map (map (\<lambda>v. truncate_value v limit)) (qr_rows result),
       fr_row_count = qr_rowCount result,
       fr_truncated = qr_hasMore result,
       fr_affected_rows = qr_affectedRows result,
       fr_last_insert_id = qr_lastInsertId result,
       fr_page_offset = None\<rparr>)"

section \<open>Schemas\<close>

definition json_strs :: "string list \<Rightarrow> jsval" where
  "json_strs xs = JArr (map JStr xs)"

definition json_opt :: "string option \<Rightarrow> jsval" where
  "json_opt x = (case x of None \<Rightarrow> JNull | Some s \<Rightarrow> JStr s)"

definition json_int :: "int \<Rightarrow> jsval" where
  "json_int i = JNum (int_num i)"

definition row_count_entry :: "table_info \<Rightarrow> string \<times> jsval" where
  "row_count_entry t =
     (if tb_exactCount t then (''row_count'', json_int (tb_rowCountEstimate t))
      else (''row_count_estimate'', json_int (tb_rowCountEstimate t)))"

definition format_column :: "column_info \<Rightarrow> jsval" where
  "format_column c = JObj
     [(''name'', JStr (col_name c)), (''type'', JStr (col_type c)), (''nullable'', JBool (col_nullable c)),
      (''default_value'', json_opt (col_defaultValue c)), (''is_primary_key'', JBool (col_isPrimaryKey c)),
      (''comment'', json_opt (col_comment c))]"

definition format_index :: "index_info \<Rightarrow> jsval" where
  "format_index i = JObj
     ([(''name'', JStr (ix_name i)), (''columns'', json_strs (ix_columns i)), (''unique'', JBool (ix_unique i)),
       (''type'', JStr (ix_type i))] @
      (case ix_filter i of None \<Rightarrow> [] | Some f \<Rightarrow> [(''filter'', JStr f)]))"

definition format_foreign_key :: "foreign_key_info \<Rightarrow> jsval" where
  "format_foreign_key fk = JObj
     [(''column'', JStr (fk_column fk)), (''references_table'', JStr (fk_referencesTable fk)),
      (''references_column'', JStr (fk_referencesColumn fk))]"

definition format_table_detailed :: "table_info \<Rightarrow> jsval" where
  "format_table_detailed t = JObj
     [(''name'', JStr (tb_name t)), (''schema'', JStr (tb_schema t)),
      (''columns'', JArr (map format_column (tb_columns t))),
      (''primary_key'', json_strs (tb_primaryKey t)),
      (''indexes'', JArr (map format_index (tb_indexes t))),
      (''foreign_keys'', JArr (map format_foreign_key (tb_foreignKeys t))),
      row_count_entry t,
      (''comment'', json_opt (tb_comment t))]"

definition format_table_summary :: "table_info \<Rightarrow> jsval" where
  "format_table_summary t = JObj
     [(''name'', JStr (tb_name t)), (''schema'', JStr (tb_schema t)),
      (''column_count'', json_int (int (length (tb_columns t)))),
      (''primary_key'', json_strs (tb_primaryKey t)), row_count_entry t]"

definition format_schema_result :: "schema_info \<Rightarrow> bool \<Rightarrow> jsval" where
  "format_schema_result schema detailed =
     (if detailed then JObj [(''tables'', JArr (map format_table_detailed (si_tables schema)))]
      else JObj [(''tables'', JArr (map format_table_summary (si_tables schema)))])"

section \<open>Search\<close>

datatype match_type =
  TableExact | TablePrefix | TableContains | ColumnExact | ColumnPrefix | ColumnContains

record search_result =
  sr_tableName :: string
  sr_columnName :: "string option"
  sr_columnType :: "string option"
  sr_matchType :: match_type

fun match_priority :: "match_type \<Rightarrow> nat" where
  "match_priority TableExact = 0"
| "match_priority ColumnExact = 1"
| "match_priority TablePrefix = 2"
| "match_priority ColumnPrefix = 3"
| "match_priority TableContains = 4"
| "match_priority ColumnContains = 5"

definition table_match :: "string \<Rightarrow> table_info \<Rightarrow> search_result list" where
  "table_match q table =
     (let tName = to_lower (tb_name table);
          hit = (\<lambda>m. [\<lparr>sr_tableName = tb_name table, sr_columnName = None, sr_columnType = None,
            sr_matchType = m\<rparr>]) in
      if tName = q then hit TableExact
      else if starts_with tName q then hit TablePrefix
      else if str_includes tName q then hit TableContains
      else [])"

definition column_match :: "string \<Rightarrow> table_info \<Rightarrow> column_info \<Rightarrow> search_result list" where
  "column_match q table col =
     (let cName = to_lower (col_name col);
          cComment = (case col_comment col of None \<Rightarrow> [] | Some c \<Rightarrow> to_lower c);
          hit = (\<lambda>m. [\<lparr>sr_tableName = tb_name table, sr_columnName = Some (col_name col),
            sr_columnType = Some (col_type col), sr_matchType = m\<rparr>]) in
      if cName = q then hit ColumnExact
      else if starts_with cName q then hit ColumnPrefix
      else if str_includes cName q \<or> str_includes cComment q then hit ColumnContains
      else [])"

definition search_matches :: "table_info list \<Rightarrow> string \<Rightarrow> search_result list" where
  "search_matches tables query =
     (let q = to_lower query in
      concat (map (\<lambda>table. table_match q table @ concat (map (column_match q table) (tb_columns table))) tables))"

definition format_search_results :: "table_info list \<Rightarrow> string \<Rightarrow> search_result list" where
  "format_search_results tables query =
     take max_search_results (sort_key (\<lambda>r. match_priority (sr_matchType r)) (search_matches tables query))"

section \<open>Lemmas\<close>

lemma length_slice_to: "length (slice_to n s) \<le> nat \<bar>n\<bar> \<or> n < 0"
  by (auto simp: slice_to_def)

lemma truncate_value_string:
  "truncate_value v n = JStr t \<Longrightarrow> 0 \<le> n \<Longrightarrow> int (length t) \<le> n + int (length truncated_mark)"
  by (cases v) (auto simp: slice_to_def split: if_splits)

lemma truncate_value_short: "int (length s) \<le> n \<Longrightarrow> truncate_value (JStr s) n = JStr s"
  by simp

lemma truncate_value_idem_type:
  "typeof (truncate_value v n) = (if v = JUndef then ''object'' else typeof v)"
  by (cases v) auto

lemma format_query_result_shape:
  "map length (fr_rows (format_query_result r m l)) = map length (qr_rows r)"
  by (simp add: format_query_result_def Let_def)

lemma table_match_sound:
  "r \<in> set (table_match q table) \<Longrightarrow> sublist q (to_lower (tb_name table)) \<and> sr_tableName r = tb_name table"
  by (auto simp: table_match_def Let_def starts_with_def includes_iff_sublist split: if_splits)

lemma column_match_sound:
  "r \<in> set (column_match q table col) \<Longrightarrow>
     sr_tableName r = tb_name table \<and> sr_columnName r = Some (col_name col) \<and>
     (sublist q (to_lower (col_name col)) \<or>
      sublist q (case col_comment col of None \<Rightarrow> [] | Some c \<Rightarrow> to_lower c))"
  by (auto simp: column_match_def Let_def starts_with_def includes_iff_sublist split: if_splits)

lemma search_matches_iff:
  "r \<in> set (search_matches tables query) \<longleftrightarrow>
     (\<exists>table \<in> set tables. r \<in> set (table_match (to_lower query) table) \<or>
        (\<exists>col \<in> set (tb_columns table). r \<in> set (column_match (to_lower query) table col)))"
  by (auto simp: search_matches_def Let_def)

lemma search_results_mset:
  "length (search_matches tables query) \<le> max_search_results \<Longrightarrow>
     mset (format_search_results tables query) = mset (search_matches tables query)"
  by (simp add: format_search_results_def)

lemma sorted_map_take: "sorted (map f xs) \<Longrightarrow> sorted (map f (take n xs))"
  by (metis append_take_drop_id map_append sorted_append)

lemma search_results_sorted:
  "sorted (map (\<lambda>r. match_priority (sr_matchType r)) (format_search_results tables query))"
  unfolding format_search_results_def by (rule sorted_map_take) simp

lemma search_results_dropped:
  "r \<in> set (format_search_results tables query) \<Longrightarrow>
   x \<in># mset (search_matches tables query) - mset (format_search_results tables query) \<Longrightarrow>
     match_priority (sr_matchType r) \<le> match_priority (sr_matchType x)"
proof -
  let ?k = "\<lambda>r. match_priority (sr_matchType r)"
  let ?s = "sort_key ?k (search_matches tables query)"
  assume r: "r \<in> set (format_search_results tables query)"
    and x: "x \<in># mset (search_matches tables query) - mset (format_search_results tables query)"
  have "mset (search_matches tables query) = mset (take max_search_results ?s) + mset (drop max_search_results ?s)"
    by (metis append_take_drop_id mset_append mset_sort)
  with x have x': "x \<in> set (drop max_search_results ?s)" by (simp add: format_search_results_def)
  have "sorted (map ?k (take max_search_results ?s) @ map ?k (drop max_search_results ?s))"
    by (metis append_take_drop_id map_append sorted_sort_key)
  with r x' show ?thesis by (auto simp: sorted_append format_search_results_def)
qed

end
