(* ===== verification/Permissions.thy ===== *)
theory Permissions
  imports Domain
begin

text \<open>
  The permission gate (\<open>src/permission-enforcer.ts\<close>): which categories of query a level
  allows, and the check that throws. The contract \<open>permission_gate\<close> is what the callers
  rely on: a gate never refuses less when the query asks for more, and never refuses more
  when the level is raised.
\<close>

fun permission_hierarchy :: "permission_level \<Rightarrow> query_category set" where
  "permission_hierarchy ReadOnly = {Read}"
| "permission_hierarchy ReadWrite = {Read, Write}"
| "permission_hierarchy Admin = {Read, Write, Ddl}"

definition enforce_permission :: "string \<Rightarrow> permission_level \<Rightarrow> query_category \<Rightarrow> unit result" where
  "enforce_permission conn level cat =
     (if cat \<notin> permission_hierarchy level then Inl (permission_error conn level cat) else Inr ())"

section \<open>What the gate allows\<close>

lemma hierarchy_iff: "cat \<in> permission_hierarchy level \<longleftrightarrow> category_rank cat \<le> permission_rank level"
  by (cases level; cases cat) simp_all

lemma enforce_permission_Inr [simp]:
  "enforce_permission conn level cat = Inr u \<longleftrightarrow> cat \<in> permission_hierarchy level"
  by (simp add: enforce_permission_def)

lemma enforce_permission_Inl:
  "enforce_permission conn level cat = Inl e \<Longrightarrow>
     cat \<notin> permission_hierarchy level \<and> e = permission_error conn level cat"
  by (auto simp: enforce_permission_def split: if_splits)

locale permission_gate =
  fixes gate :: "permission_level \<Rightarrow> query_category \<Rightarrow> bool"
  assumes gate_category: "gate l c \<Longrightarrow> c' \<le> c \<Longrightarrow> gate l c'"
    and gate_level: "gate l c \<Longrightarrow> l \<le> l' \<Longrightarrow> gate l' c"
    and gate_bottom: "gate ReadOnly c \<longleftrightarrow> c = Read"
begin

text \<open>Checking the worst category of several queries checks each of them.\<close>

lemma gate_fold_max: "gate l (fold max cs c) \<Longrightarrow> gate l c \<and> (\<forall>d \<in> set cs. gate l d)"
proof (induction cs arbitrary: c)
  case Nil
  then show ?case by simp
next
  case (Cons d cs)
  have "gate l (fold max cs (max d c))" using Cons.prems by simp
  from Cons.IH [OF this] have worst: "gate l (max d c)" and rest: "\<forall>d \<in> set cs. gate l d"
    by blast+
  have "gate l d" by (rule gate_category [OF worst]) simp
  moreover have "gate l c" by (rule gate_category [OF worst]) simp
  ultimately show ?case using rest by simp
qed

lemma read_only_blocks: "c \<noteq> Read \<Longrightarrow> \<not> gate ReadOnly c"
  by (simp add: gate_bottom)

lemma read_always: "gate l Read"
proof (rule gate_level)
  show "gate ReadOnly Read" by (simp add: gate_bottom)
  show "ReadOnly \<le> l" by (cases l) (simp_all add: less_eq_permission_level_def)
qed

end

interpretation pg: permission_gate "\<lambda>l c. enforce_permission conn l c = Inr ()" for conn
  by unfold_locales
    (auto simp: hierarchy_iff less_eq_query_category_def less_eq_permission_level_def)

end
