(* ===== verification/ConnectionManager.thy ===== *)
theory ConnectionManager
  imports Permissions
begin

text \<open>
  The connection manager (\<open>src/connection-manager.ts\<close>). The database backend is an
  interface of the program (\<open>DatabaseBackend\<close>): a parameter with one function per method,
  each of which reads and changes the world behind it (\<open>'w\<close>: the sidecar process and the
  databases) and returns or throws. Every method is modelled as a call that runs to
  completion; the order of methods is free, and a crash of the sidecar may come between
  any two. Overlapping methods are the subject of \<open>Interleaving\<close>, and overlapping callers of
  the transaction lock that of \<open>TransactionLock\<close>.
\<close>

section \<open>The backend\<close>

type_synonym ('w, 'a) effect = "'w \<Rightarrow> 'a result \<times> 'w"

record 'w backend =
  bk_connect :: "string \<Rightarrow> string \<Rightarrow> ('w, string) effect"
  bk_execute :: "string \<Rightarrow> string \<Rightarrow> jsval list option \<Rightarrow> execute_options \<Rightarrow> ('w, query_result) effect"
  bk_getSchema :: "string \<Rightarrow> backend_filter option \<Rightarrow> ('w, schema_info) effect"
  bk_explainQuery :: "string \<Rightarrow> string \<Rightarrow> bool option \<Rightarrow> ('w, query_result) effect"
  bk_validateQuery :: "string \<Rightarrow> string \<Rightarrow> ('w, bool \<times> string option) effect"
  bk_ping :: "string \<Rightarrow> ('w, unit) effect"
  bk_disconnect :: "string \<Rightarrow> ('w, unit) effect"
  bk_clock :: "'w \<Rightarrow> int"

section \<open>The state of the server\<close>

datatype audit_status = AuditOk | AuditError

record audit_entry =
  ae_tool :: string
  ae_connection :: string
  ae_sql :: string
  ae_params :: "jsval list"
  ae_durationMs :: int
  ae_rows :: int
  ae_status :: audit_status
  ae_error :: "string option"

text \<open>
  The fields of the connection manager, the world behind the backend, the calls made so
  far to the callback \<open>onSchemaFetched\<close> (when one is registered), and the entries handed
  to the audit logger.
\<close>

record 'w sys =
  cm_connectedIds :: "string set"
  cm_schemaCache :: "string \<rightharpoonup> schema_info"
  cm_statusMap :: "string \<rightharpoonup> connection_status"
  cm_driverMap :: "string \<rightharpoonup> string"
  cm_transactionLocks :: "string set"
  cm_onSchemaFetched :: bool
  cm_fetched :: "(string \<times> schema_info) list"
  sys_world :: 'w
  sys_audit :: "audit_entry list"

definition initial_sys :: "'w \<Rightarrow> 'w sys" where
  "initial_sys w =
     \<lparr>cm_connectedIds = {}, cm_schemaCache = Map.empty, cm_statusMap = Map.empty,
      cm_driverMap = Map.empty, cm_transactionLocks = {}, cm_onSchemaFetched = False,
      cm_fetched = [], sys_world = w, sys_audit = []\<rparr>"

text \<open>Awaiting a backend method.\<close>

definition call_backend :: "('w, 'a) effect \<Rightarrow> ('w sys, 'a) io" where
  "call_backend f = (\<lambda>s. case f (sys_world s) of
       (Inr a, w) \<Rightarrow> (Ret a, s\<lparr>sys_world := w\<rparr>)
     | (Inl e, w) \<Rightarrow> (Throw e, s\<lparr>sys_world := w\<rparr>))"

section \<open>Operations\<close>

definition ensure_connected :: "'w backend \<Rightarrow> connection_config \<Rightarrow> ('w sys, unit) io" where
  "ensure_connected bk config =
     bindM (gets (\<lambda>s. cc_name config \<in> cm_connectedIds s)) (\<lambda>connected.
       if connected then ret ()
       else try_catch
         (bindM (call_backend (bk_connect bk (cc_name config) (cc_dsn config))) (\<lambda>driver.
          modify (\<lambda>s. s\<lparr>cm_connectedIds := insert (cc_name config) (cm_connectedIds s),
                        cm_statusMap := (cm_statusMap s)(cc_name config \<mapsto> Connected),
                        cm_driverMap := (cm_driverMap s)(cc_name config \<mapsto> driver)\<rparr>)))
         (\<lambda>err. bindM
            (modify (\<lambda>s. s\<lparr>cm_statusMap := (cm_statusMap s)(cc_name config \<mapsto> Errored)\<rparr>))
            (\<lambda>_. throw err)))"

definition get_driver :: "'w sys \<Rightarrow> string \<Rightarrow> string" where
  "get_driver s connectionName = (case cm_driverMap s connectionName of None \<Rightarrow> [] | Some d \<Rightarrow> d)"

definition cm_execute ::
    "'w backend \<Rightarrow> connection_config \<Rightarrow> string \<Rightarrow> jsval list option \<Rightarrow> execute_options option \<Rightarrow>
       ('w sys, query_result) io" where
  "cm_execute bk config query params options =
     bindM (ensure_connected bk config) (\<lambda>_.
       call_backend (bk_execute bk (cc_name config) query params
         \<lparr>eo_maxRows = Some (case Option.bind options eo_maxRows of None \<Rightarrow> cc_maxRows config | Some m \<Rightarrow> m),
          eo_timeoutMs = Some (case Option.bind options eo_timeoutMs of None \<Rightarrow> cc_timeout config | Some t \<Rightarrow> t)\<rparr>))"

definition schema_request :: "connection_config \<Rightarrow> bool option \<Rightarrow> backend_filter option" where
  "schema_request config exactCounts =
     (case cc_schemaFilter config of
        Some f \<Rightarrow> Some \<lparr>bf_schemas = sf_schemas f, bf_tables = sf_tables f, bf_exactCounts = exactCounts\<rparr>
      | None \<Rightarrow>
          (case exactCounts of
             None \<Rightarrow> None
           | Some e \<Rightarrow> Some \<lparr>bf_schemas = None, bf_tables = None, bf_exactCounts = Some e\<rparr>))"

definition notify_schema :: "string \<Rightarrow> schema_info \<Rightarrow> 'w sys \<Rightarrow> 'w sys" where
  "notify_schema name schema s =
     (if cm_onSchemaFetched s then s\<lparr>cm_fetched := cm_fetched s @ [(name, schema)]\<rparr> else s)"

definition get_schema ::
    "'w backend \<Rightarrow> connection_config \<Rightarrow> bool \<Rightarrow> bool option \<Rightarrow> ('w sys, schema_info) io" where
  "get_schema bk config forceRefresh exactCounts =
     bindM (ensure_connected bk config) (\<lambda>_.
     bindM (gets (\<lambda>s. cm_schemaCache s (cc_name config))) (\<lambda>cached.
       if \<not> forceRefresh \<and> exactCounts = None \<and> cached \<noteq> None then ret (the cached)
       else bindM (call_backend (bk_getSchema bk (cc_name config) (schema_request config exactCounts))) (\<lambda>schema.
         bindM (modify (\<lambda>s. s\<lparr>cm_schemaCache := (cm_schemaCache s)(cc_name config \<mapsto> schema)\<rparr>)) (\<lambda>_.
         bindM (modify (notify_schema (cc_name config) schema)) (\<lambda>_.
         ret schema)))))"

definition explain_query ::
    "'w backend \<Rightarrow> connection_config \<Rightarrow> string \<Rightarrow> bool option \<Rightarrow> ('w sys, query_result) io" where
  "explain_query bk config query analyze =
     bindM (ensure_connected bk config) (\<lambda>_.
       call_backend (bk_explainQuery bk (cc_name config) query analyze))"

definition validate_query ::
    "'w backend \<Rightarrow> connection_config \<Rightarrow> string \<Rightarrow> ('w sys, bool \<times> string option) io" where
  "validate_query bk config query =
     bindM (ensure_connected bk config) (\<lambda>_.
       call_backend (bk_validateQuery bk (cc_name config) query))"

definition invalidate_schema_cache :: "string \<Rightarrow> ('w sys, unit) io" where
  "invalidate_schema_cache connectionName =
     modify (\<lambda>s. s\<lparr>cm_schemaCache := (cm_schemaCache s)(connectionName := None)\<rparr>)"

definition get_status :: "'w sys \<Rightarrow> string \<Rightarrow> connection_status" where
  "get_status s connectionName =
     (case cm_statusMap s connectionName of None \<Rightarrow> Available | Some st \<Rightarrow> st)"

definition cm_ping :: "'w backend \<Rightarrow> connection_config \<Rightarrow> ('w sys, unit) io" where
  "cm_ping bk config =
     bindM (ensure_connected bk config) (\<lambda>_. call_backend (bk_ping bk (cc_name config)))"

definition disconnect :: "'w backend \<Rightarrow> connection_config \<Rightarrow> ('w sys, unit) io" where
  "disconnect bk config =
     bindM (call_backend (bk_disconnect bk (cc_name config))) (\<lambda>_.
     modify (\<lambda>s. s\<lparr>cm_connectedIds := cm_connectedIds s - {cc_name config},
                   cm_schemaCache := (cm_schemaCache s)(cc_name config := None),
                   cm_driverMap := (cm_driverMap s)(cc_name config := None),
                   cm_statusMap := (cm_statusMap s)(cc_name config \<mapsto> Available)\<rparr>))"

definition handle_sidecar_crash :: "('w sys, unit) io" where
  "handle_sidecar_crash =
     modify (\<lambda>s. s\<lparr>cm_connectedIds := {},
                   cm_statusMap := (\<lambda>n. map_option (\<lambda>_. Available) (cm_statusMap s n))\<rparr>)"

fun disconnect_all :: "'w backend \<Rightarrow> connection_config list \<Rightarrow> ('w sys, unit) io" where
  "disconnect_all bk [] = ret ()"
| "disconnect_all bk (config # configs) =
     bindM (gets (\<lambda>s. cc_name config \<in> cm_connectedIds s)) (\<lambda>connected.
     bindM (if connected then try_catch (disconnect bk config) (\<lambda>_. ret ()) else ret ()) (\<lambda>_.
       disconnect_all bk configs))"

definition set_on_schema_fetched :: "('w sys, unit) io" where
  "set_on_schema_fetched = modify (\<lambda>s. s\<lparr>cm_onSchemaFetched := True\<rparr>)"

text \<open>
  The transaction lock, for callers that run one after the other: a caller that finds the
  lock taken waits for a release that no later caller performs.
\<close>

definition acquire_transaction_lock :: "string \<Rightarrow> ('w sys, unit) io" where
  "acquire_transaction_lock connectionName = (\<lambda>s.
     if connectionName \<in> cm_transactionLocks s then (Hang, s)
     else (Ret (), s\<lparr>cm_transactionLocks := insert connectionName (cm_transactionLocks s)\<rparr>))"

definition release_transaction_lock :: "string \<Rightarrow> ('w sys, unit) io" where
  "release_transaction_lock connectionName =
     modify (\<lambda>s. s\<lparr>cm_transactionLocks := cm_transactionLocks s - {connectionName}\<rparr>)"

text \<open>\<open>void auditLogger?.log(entry)\<close>\<close>

definition audit_log :: "bool \<Rightarrow> audit_entry \<Rightarrow> ('w sys, unit) io" where
  "audit_log auditLogger entry =
     modify (\<lambda>s. if auditLogger then s\<lparr>sys_audit := sys_audit s @ [entry]\<rparr> else s)"

section \<open>How the operations run\<close>

lemma call_backend_run [run_simps]:
  "call_backend f s = (case f (sys_world s) of
       (Inr a, w) \<Rightarrow> (Ret a, s\<lparr>sys_world := w\<rparr>)
     | (Inl e, w) \<Rightarrow> (Throw e, s\<lparr>sys_world := w\<rparr>))"
  by (simp add: call_backend_def)

lemma ensure_connected_run:
  "ensure_connected bk config s =
     (if cc_name config \<in> cm_connectedIds s then (Ret (), s)
      else case bk_connect bk (cc_name config) (cc_dsn config) (sys_world s) of
        (Inr driver, w) \<Rightarrow>
          (Ret (), s\<lparr>sys_world := w, cm_connectedIds := insert (cc_name config) (cm_connectedIds s),
             cm_statusMap := (cm_statusMap s)(cc_name config \<mapsto> Connected),
             cm_driverMap := (cm_driverMap s)(cc_name config \<mapsto> driver)\<rparr>)
      | (Inl e, w) \<Rightarrow>
          (Throw e, s\<lparr>sys_world := w, cm_statusMap := (cm_statusMap s)(cc_name config \<mapsto> Errored)\<rparr>))"
  by (simp add: ensure_connected_def run_simps split: prod.split sum.split)


lemma ensure_connected_Ret:
  "ensure_connected bk config s = (Ret (), s') \<Longrightarrow> cc_name config \<in> cm_connectedIds s'"
  by (auto simp: ensure_connected_run split: if_splits prod.splits sum.splits)

lemma ensure_connected_again:
  "ensure_connected bk config s = (Ret (), s') \<Longrightarrow> ensure_connected bk config s' = (Ret (), s')"
  by (frule ensure_connected_Ret) (simp add: ensure_connected_run [of bk config s'])

section \<open>The invariant\<close>

text \<open>
  A connection is reported as connected exactly when its identifier is in \<open>connectedIds\<close>;
  its driver is then known, and a schema is cached only for a connection whose driver is
  known.
\<close>

definition cm_inv :: "'w sys \<Rightarrow> bool" where
  "cm_inv s \<longleftrightarrow>
     (\<forall>n. n \<in> cm_connectedIds s \<longleftrightarrow> cm_statusMap s n = Some Connected) \<and>
     cm_connectedIds s \<subseteq> dom (cm_driverMap s) \<and>
     dom (cm_schemaCache s) \<subseteq> dom (cm_driverMap s)"

lemma cm_inv_world [simp]:
  "cm_inv (s\<lparr>sys_world := w\<rparr>) = cm_inv s" "cm_inv (s\<lparr>sys_audit := a\<rparr>) = cm_inv s"
  "cm_inv (s\<lparr>cm_transactionLocks := l\<rparr>) = cm_inv s" "cm_inv (s\<lparr>cm_fetched := f\<rparr>) = cm_inv s"
  "cm_inv (s\<lparr>cm_onSchemaFetched := b\<rparr>) = cm_inv s"
  by (simp_all add: cm_inv_def)

lemma keeps_call_backend [keeps_intros]:
  "(\<And>s w. P s \<Longrightarrow> P (s\<lparr>sys_world := w\<rparr>)) \<Longrightarrow> keeps P (call_backend f)"
  by (simp add: keeps_def call_backend_run split: prod.split sum.split)

lemma keeps_ensure_connected [keeps_intros]: "keeps cm_inv (ensure_connected bk config)"
  unfolding keeps_def ensure_connected_run
  by (auto simp: cm_inv_def split: prod.split sum.split)

lemma keeps_cm_execute [keeps_intros]: "keeps cm_inv (cm_execute bk config query params options)"
  unfolding cm_execute_def by (intro keeps_intros) simp_all

lemma keeps_explain_query [keeps_intros]: "keeps cm_inv (explain_query bk config query analyze)"
  unfolding explain_query_def by (intro keeps_intros) simp_all

lemma keeps_validate_query [keeps_intros]: "keeps cm_inv (validate_query bk config query)"
  unfolding validate_query_def by (intro keeps_intros) simp_all

lemma keeps_cm_ping [keeps_intros]: "keeps cm_inv (cm_ping bk config)"
  unfolding cm_ping_def by (intro keeps_intros) simp_all

lemma keeps_invalidate [keeps_intros]: "keeps cm_inv (invalidate_schema_cache n)"
  unfolding invalidate_schema_cache_def by (intro keeps_intros) (auto simp: cm_inv_def)

lemma keeps_audit_log [keeps_intros]: "keeps cm_inv (audit_log b entry)"
  unfolding audit_log_def by (intro keeps_intros) auto

lemma keeps_locks [keeps_intros]:
  "keeps cm_inv (acquire_transaction_lock n)" "keeps cm_inv (release_transaction_lock n)"
  "keeps cm_inv set_on_schema_fetched"
  by (auto simp: keeps_def acquire_transaction_lock_def release_transaction_lock_def
      set_on_schema_fetched_def run_simps)

lemma keeps_crash [keeps_intros]: "keeps cm_inv handle_sidecar_crash"
  unfolding handle_sidecar_crash_def by (intro keeps_intros) (auto simp: cm_inv_def)

lemma keeps_disconnect [keeps_intros]: "keeps cm_inv (disconnect bk config)"
  unfolding disconnect_def by (intro keeps_intros) (auto simp: cm_inv_def)

lemma keeps_disconnect_all [keeps_intros]: "keeps cm_inv (disconnect_all bk configs)"
  by (induction configs) (auto intro!: keeps_intros)

lemma get_schema_run:
  "get_schema bk config forceRefresh exactCounts s =
     (case ensure_connected bk config s of
        (Ret _, s1) \<Rightarrow>
          (case cm_schemaCache s1 (cc_name config) of
             Some schema \<Rightarrow>
               if \<not> forceRefresh \<and> exactCounts = None then (Ret schema, s1)
               else (case call_backend (bk_getSchema bk (cc_name config) (schema_request config exactCounts)) s1 of
                  (Ret schema, s2) \<Rightarrow> (Ret schema, notify_schema (cc_name config) schema
                      (s2\<lparr>cm_schemaCache := (cm_schemaCache s2)(cc_name config \<mapsto> schema)\<rparr>))
                | r \<Rightarrow> r)
           | None \<Rightarrow> (case call_backend (bk_getSchema bk (cc_name config) (schema_request config exactCounts)) s1 of
                  (Ret schema, s2) \<Rightarrow> (Ret schema, notify_schema (cc_name config) schema
                      (s2\<lparr>cm_schemaCache := (cm_schemaCache s2)(cc_name config \<mapsto> schema)\<rparr>))
                | r \<Rightarrow> r))
      | (Throw e, s1) \<Rightarrow> (Throw e, s1)
      | (Hang, s1) \<Rightarrow> (Hang, s1))"
  by (auto simp: get_schema_def bindM_run gets_run modify_run ret_run
      split: prod.split outcome.split option.split)

lemma keeps_get_schema [keeps_intros]: "keeps cm_inv (get_schema bk config forceRefresh exactCounts)"
  unfolding keeps_def
proof (intro allI impI)
  fix s :: "'a sys"
  assume inv: "cm_inv s"
  obtain r s1 where run: "ensure_connected bk config s = (r, s1)" by fastforce
  have inv1: "cm_inv s1" by (rule keeps_run [OF keeps_ensure_connected inv run])
  show "cm_inv (snd (get_schema bk config forceRefresh exactCounts s))"
  proof (cases r)
    case (Ret u)
    then have "cc_name config \<in> cm_connectedIds s1" using run ensure_connected_Ret by fastforce
    then have "cc_name config \<in> dom (cm_driverMap s1)" using inv1 by (auto simp: cm_inv_def)
    then have "cm_inv (notify_schema (cc_name config) schema
        (s1\<lparr>sys_world := w, cm_schemaCache := (cm_schemaCache s1)(cc_name config \<mapsto> schema)\<rparr>))"
      for w schema
      using inv1 by (auto simp: cm_inv_def notify_schema_def)
    then show ?thesis
      using run Ret inv1 by (auto simp: get_schema_run call_backend_run split: option.split prod.split sum.split)
  qed (use run inv1 in \<open>simp_all add: get_schema_run\<close>)
qed

section \<open>Any order of operations\<close>

inductive cm_step :: "'w backend \<Rightarrow> 'w sys \<Rightarrow> 'w sys \<Rightarrow> bool" for bk where
  step_ensure: "cm_step bk s (snd (ensure_connected bk config s))"
| step_execute: "cm_step bk s (snd (cm_execute bk config query params options s))"
| step_schema: "cm_step bk s (snd (get_schema bk config forceRefresh exactCounts s))"
| step_explain: "cm_step bk s (snd (explain_query bk config query analyze s))"
| step_validate: "cm_step bk s (snd (validate_query bk config query s))"
| step_invalidate: "cm_step bk s (snd (invalidate_schema_cache name s))"
| step_ping: "cm_step bk s (snd (cm_ping bk config s))"
| step_disconnect: "cm_step bk s (snd (disconnect bk config s))"
| step_crash: "cm_step bk s (snd (handle_sidecar_crash s))"
| step_disconnect_all: "cm_step bk s (snd (disconnect_all bk configs s))"
| step_callback: "cm_step bk s (snd (set_on_schema_fetched s))"
| step_acquire: "cm_step bk s (snd (acquire_transaction_lock name s))"
| step_release: "cm_step bk s (snd (release_transaction_lock name s))"
| step_audit: "cm_step bk s (snd (audit_log b entry s))"
| step_world: "cm_step bk s (s\<lparr>sys_world := w\<rparr>)"

lemma cm_step_inv: "cm_step bk s t \<Longrightarrow> cm_inv s \<Longrightarrow> cm_inv t"
  by (induction rule: cm_step.induct) (simp_all add: keepsD keeps_intros)

interpretation cm: invariant_machine "\<lambda>s. \<exists>w. s = initial_sys w" "cm_step bk" cm_inv for bk
proof
  show "\<exists>w. s = initial_sys w \<Longrightarrow> cm_inv s" for s :: "'a sys"
    by (auto simp: initial_sys_def cm_inv_def)
qed (rule cm_step_inv)

section \<open>The schema cache\<close>

text \<open>What a call returned is what the next default call returns, without asking the backend again.\<close>

lemma get_schema_cached:
  "get_schema bk config forceRefresh exactCounts s = (Ret schema, s') \<Longrightarrow>
     get_schema bk config False None s' = (Ret schema, s')"
proof -
  assume run: "get_schema bk config forceRefresh exactCounts s = (Ret schema, s')"
  then obtain s1 where ens: "ensure_connected bk config s = (Ret (), s1)"
    by (auto simp: get_schema_run split: prod.splits outcome.splits)
  then have "cc_name config \<in> cm_connectedIds s1" by (rule ensure_connected_Ret)
  then have "cc_name config \<in> cm_connectedIds s' \<and> cm_schemaCache s' (cc_name config) = Some schema"
    using run ens
    by (auto simp: get_schema_run call_backend_run notify_schema_def
        split: option.splits prod.splits sum.splits if_splits)
  then show ?thesis by (simp add: get_schema_run ensure_connected_run)
qed

text \<open>After an invalidation the backend is asked.\<close>

lemma get_schema_invalidated:
  "cc_name config \<in> cm_connectedIds s \<Longrightarrow>
     invalidate_schema_cache (cc_name config) s = (Ret (), s1) \<Longrightarrow>
     bk_getSchema bk (cc_name config) (schema_request config None) (sys_world s) = (Inr schema, w) \<Longrightarrow>
     \<exists>s2. get_schema bk config False None s1 = (Ret schema, s2) \<and> sys_world s2 = w"
  by (auto simp: invalidate_schema_cache_def run_simps get_schema_run ensure_connected_run notify_schema_def)

section \<open>Shutdown\<close>

lemma disconnect_all_returns: "fst (disconnect_all bk configs s) = Ret ()"
proof (induction configs arbitrary: s)
  case Nil
  then show ?case by (simp add: run_simps)
next
  case (Cons config configs)
  then show ?case
    by (simp add: run_simps disconnect_def split: prod.split outcome.split sum.split)
qed

end
