(* ===== verification/ExecuteSql.thy ===== *)
theory ExecuteSql
  imports SqlSecurity OutputFormatter ConfigLoader ConnectionManager
begin

text \<open>
  The tool \<open>execute_sql\<close> (\<open>handleExecuteSql\<close> in \<open>src/tools/execute-sql.ts\<close>): the guards in
  the order of the code, the statement on the backend, the audit entry, the page. The
  clock is read from the world behind the backend.
\<close>

record execute_args =
  xa_connection :: string
  xa_query :: string
  xa_params :: "jsval list option"
  xa_limit :: "int option"
  xa_offset :: "int option"

section \<open>The handler\<close>

definition invalid_query :: error where
  "invalid_query = OmnibaseError ''Query cannot be empty'' ''INVALID_QUERY'' None"

definition multi_statement_error :: "string \<Rightarrow> error" where
  "multi_statement_error msg = OmnibaseError msg ''MULTI_STATEMENT'' None"

text \<open>The guards: everything between the start of the handler and the first effect.\<close>

definition execute_guards ::
    "sql_parser \<Rightarrow> connection_config \<Rightarrow> string \<Rightarrow> query_category result" where
  "execute_guards astify conn query =
     bindR (guardR (query = [] \<or> trim query = []) invalid_query) (\<lambda>_.
     bindR (guardR (is_multi_statement astify query)
       (multi_statement_error ''Multi-statement queries are not allowed. Send one statement per request.'')) (\<lambda>_.
     bindR (check_sql_security query (cc_allowAllPragmas conn)) (\<lambda>_.
     let category = classify_query astify query in
     bindR (enforce_permission (cc_name conn) (cc_permission conn) category) (\<lambda>_.
     bindR (check_read_only_tables query category (cc_readOnlyTables conn)) (\<lambda>_.
     Inr category)))))"

definition invalidate_on_change :: "string \<Rightarrow> query_category \<Rightarrow> ('w sys, unit) io" where
  "invalidate_on_change name category =
     (if category = Ddl \<or> category = Write then invalidate_schema_cache name else ret ())"

definition execute_log ::
    "'w backend \<Rightarrow> bool \<Rightarrow> string \<Rightarrow> execute_args \<Rightarrow> int \<Rightarrow> int \<Rightarrow> audit_status \<Rightarrow> string option \<Rightarrow>
       ('w sys, unit) io" where
  "execute_log bk auditLogger connection args startMs rows status err =
     bindM (gets (\<lambda>s. bk_clock bk (sys_world s))) (\<lambda>t.
       audit_log auditLogger
         \<lparr>ae_tool = ''execute_sql'', ae_connection = connection, ae_sql = xa_query args,
          ae_params = or_else (xa_params args) [], ae_durationMs = t - startMs, ae_rows = rows,
          ae_status = status, ae_error = err\<rparr>)"

text \<open>\<open>result.rows.slice(offset, offset + effectiveLimit)\<close> and the new \<open>rowCount\<close>, when there is an offset.\<close>

definition page_of :: "query_result \<Rightarrow> int \<Rightarrow> int \<Rightarrow> query_result" where
  "page_of result offset effectiveLimit =
     (if offset > 0 then
        let rows = js_slice offset (offset + effectiveLimit) (qr_rows result) in
        result\<lparr>qr_rows := rows, qr_rowCount := int (length rows)\<rparr>
      else result)"

definition effective_limit :: "connection_config \<Rightarrow> execute_args \<Rightarrow> int" where
  "effective_limit conn args = or_else (xa_limit args) (cc_maxRows conn)"

abbreviation page_offset :: "execute_args \<Rightarrow> int" where
  "page_offset args \<equiv> or_else (xa_offset args) 0"

text \<open>The body of the \<open>try\<close> block.\<close>

definition execute_body ::
    "sql_parser \<Rightarrow> 'w backend \<Rightarrow> connection_config \<Rightarrow> execute_args \<Rightarrow> bool \<Rightarrow> int \<Rightarrow>
       ('w sys, formatted_result) io" where
  "execute_body astify bk conn args auditLogger startMs =
     bindM (liftR (execute_guards astify conn (xa_query args))) (\<lambda>category.
     bindM (invalidate_on_change (cc_name conn) category) (\<lambda>_.
     let effectiveLimit = effective_limit conn args;
         offset = page_offset args in
     bindM (cm_execute bk conn (xa_query args) (xa_params args)
       (Some \<lparr>eo_maxRows = Some (offset + effectiveLimit), eo_timeoutMs = None\<rparr>)) (\<lambda>result.
     bindM (execute_log bk auditLogger (cc_name conn) args startMs (qr_rowCount result) AuditOk None) (\<lambda>_.
     let formatted = format_query_result (page_of result offset effectiveLimit) effectiveLimit
           (cc_maxValueLength conn) in
     ret (if offset > 0 then formatted\<lparr>fr_page_offset := Some offset\<rparr> else formatted)))))"

definition handle_execute_sql ::
    "sql_parser \<Rightarrow> 'w backend \<Rightarrow> omnibase_config \<Rightarrow> bool \<Rightarrow> execute_args \<Rightarrow> ('w sys, formatted_result) io" where
  "handle_execute_sql astify bk config auditLogger args =
     bindM (gets (\<lambda>s. bk_clock bk (sys_world s))) (\<lambda>startMs.
     bindM (liftR (get_connection config (Some (xa_connection args)))) (\<lambda>conn.
     try_catch (execute_body astify bk conn args auditLogger startMs)
       (\<lambda>err. bindM (execute_log bk auditLogger (cc_name conn) args startMs 0 AuditError (Some (err_message err)))
          (\<lambda>_. throw err))))"

section \<open>What the guards admit\<close>

definition execute_admits ::
    "sql_parser \<Rightarrow> omnibase_config \<Rightarrow> execute_args \<Rightarrow> bool" where
  "execute_admits astify config args \<longleftrightarrow>
     (\<exists>conn category. get_connection config (Some (xa_connection args)) = Inr conn \<and>
        execute_guards astify conn (xa_query args) = Inr category)"

lemma execute_guards_Inr:
  "execute_guards astify conn query = Inr category \<longleftrightarrow>
     trim query \<noteq> [] \<and> \<not> is_multi_statement astify query \<and>
     check_sql_security query (cc_allowAllPragmas conn) = Inr () \<and>
     category = classify_query astify query \<and>
     category \<in> permission_hierarchy (cc_permission conn) \<and>
     check_read_only_tables query category (cc_readOnlyTables conn) = Inr ()"
proof -
  have "trim [] = []" by (simp add: trim_def trim_start_def trim_end_def)
  then show ?thesis
    by (auto simp: execute_guards_def bindR_eq_Inr Let_def)
qed

text \<open>A refused query: the error of the guard, one audit entry, nothing else.\<close>

definition refused_entry ::
    "connection_config \<Rightarrow> execute_args \<Rightarrow> error \<Rightarrow> audit_entry" where
  "refused_entry conn args e =
     \<lparr>ae_tool = ''execute_sql'', ae_connection = cc_name conn, ae_sql = xa_query args,
      ae_params = or_else (xa_params args) [], ae_durationMs = 0, ae_rows = 0,
      ae_status = AuditError, ae_error = Some (err_message e)\<rparr>"

lemma execute_refused:
  "get_connection config (Some (xa_connection args)) = Inr conn \<Longrightarrow>
     execute_guards astify conn (xa_query args) = Inl e \<Longrightarrow>
     handle_execute_sql astify bk config auditLogger args s =
       (Throw e, if auditLogger
          then s\<lparr>sys_audit := sys_audit s @ [refused_entry conn args e]\<rparr> else s)"
  by (simp add: handle_execute_sql_def execute_body_def run_simps execute_log_def audit_log_def
      refused_entry_def)

lemma execute_unknown_connection:
  "get_connection config (Some (xa_connection args)) = Inl e \<Longrightarrow>
     handle_execute_sql astify bk config auditLogger args s = (Throw e, s)"
  by (simp add: handle_execute_sql_def run_simps)

interpretation xs: guarded_handler "handle_execute_sql astify bk config auditLogger"
    "execute_admits astify config" sys_world
  for astify bk config auditLogger
proof
  fix r :: execute_args and s
  assume no: "\<not> execute_admits astify config r"
  have "(\<exists>e. fst (handle_execute_sql astify bk config auditLogger r s) = Throw e) \<and>
      sys_world (snd (handle_execute_sql astify bk config auditLogger r s)) = sys_world s"
  proof (cases "get_connection config (Some (xa_connection r))")
    case Inl
    then show ?thesis by (simp add: execute_unknown_connection)
  next
    case (Inr conn)
    with no obtain e where "execute_guards astify conn (xa_query r) = Inl e"
      by (cases "execute_guards astify conn (xa_query r)") (auto simp: execute_admits_def)
    with Inr show ?thesis by (simp add: execute_refused)
  qed
  then show "\<exists>e. fst (handle_execute_sql astify bk config auditLogger r s) = Throw e"
    "sys_world (snd (handle_execute_sql astify bk config auditLogger r s)) = sys_world s"
    by blast+
qed

section \<open>What an admitted query does\<close>

text \<open>The backend is asked once, with exactly the text and parameters of the request.\<close>

lemma execute_admitted:
  assumes conn: "get_connection config (Some (xa_connection args)) = Inr conn"
    and ok: "execute_guards astify conn (xa_query args) = Inr category"
    and live: "cc_name conn \<in> cm_connectedIds s"
    and runs: "bk_execute bk (cc_name conn) (xa_query args) (xa_params args)
        \<lparr>eo_maxRows = Some (page_offset args + effective_limit conn args),
         eo_timeoutMs = Some (cc_timeout conn)\<rparr> (sys_world s) = (Inr result, w)"
  shows "\<exists>s' formatted. handle_execute_sql astify bk config auditLogger args s = (Ret formatted, s') \<and>
     sys_world s' = w \<and>
     fr_rows formatted = map (map (\<lambda>v. truncate_value v (or_else (cc_maxValueLength conn) default_max_value_length)))
       (qr_rows (page_of result (page_offset args) (effective_limit conn args)))"
proof -
  have frame: "cm_connectedIds (snd (invalidate_on_change n category s)) = cm_connectedIds s \<and>
      sys_world (snd (invalidate_on_change n category s)) = sys_world s \<and>
      fst (invalidate_on_change n category s) = Ret ()" for n
    by (simp add: invalidate_on_change_def invalidate_schema_cache_def run_simps)
  obtain s1 where s1: "invalidate_on_change (cc_name conn) category s = (Ret (), s1)"
    and same: "cm_connectedIds s1 = cm_connectedIds s" "sys_world s1 = sys_world s"
    using frame by (metis prod.collapse)
  show ?thesis
    using conn ok live runs same
    by (auto simp: handle_execute_sql_def execute_body_def run_simps s1 cm_execute_def
        ensure_connected_run execute_log_def audit_log_def Let_def format_query_result_def)
qed

section \<open>Pages\<close>

text \<open>
  A backend that answers a row limit with the first rows of a fixed result: the page is
  the stretch of that result that the offset and the limit name.
\<close>

lemma page_of_prefix:
  "qr_rows result = take (nat (offset + limit)) all \<Longrightarrow> 0 \<le> offset \<Longrightarrow> 0 \<le> limit \<Longrightarrow>
     qr_rows (page_of result offset limit) = take (nat limit) (drop (nat offset) all)"
  by (auto simp: page_of_def Let_def js_slice_nonneg drop_take nat_add_distrib)

text \<open>Consecutive pages of size \<open>k\<close> give the whole result back.\<close>

lemma pages_concat:
  "0 < k \<Longrightarrow> length xs \<le> n * k \<Longrightarrow> concat (map (\<lambda>i. take k (drop (i * k) xs)) [0..<n]) = xs"
proof (induction n arbitrary: xs)
  case 0
  then show ?case by simp
next
  case (Suc n)
  have "concat (map (\<lambda>i. take k (drop (i * k) (drop k xs))) [0..<n]) = drop k xs"
    by (rule Suc.IH) (use Suc.prems in auto)
  moreover have "map (\<lambda>i. take k (drop (i * k) xs)) [0..<Suc n] =
      take k xs # map (\<lambda>i. take k (drop (i * k) (drop k xs))) [0..<n]"
    by (subst upt_conv_Cons) (simp_all add: map_Suc_upt [symmetric] add.commute del: upt_Suc map_Suc_upt)
  ultimately show ?case by simp
qed

lemma keeps_handle_execute_sql: "keeps cm_inv (handle_execute_sql astify bk config auditLogger args)"
  unfolding handle_execute_sql_def execute_body_def execute_log_def Let_def invalidate_on_change_def
  by (intro keeps_intros)

section \<open>The schema cache\<close>

lemma keeps_no_schema:
  "keeps (\<lambda>s. cm_schemaCache s n = None) (cm_execute bk conn query params options)"
  "keeps (\<lambda>s. cm_schemaCache s n = None) (execute_log bk auditLogger c args t rows st e)"
proof -
  have "keeps (\<lambda>s. cm_schemaCache s n = None) (ensure_connected bk conn)"
    unfolding keeps_def ensure_connected_run by (auto split: prod.split sum.split)
  then show "keeps (\<lambda>s. cm_schemaCache s n = None) (cm_execute bk conn query params options)"
    unfolding cm_execute_def by (intro keeps_intros) simp_all
  show "keeps (\<lambda>s. cm_schemaCache s n = None) (execute_log bk auditLogger c args t rows st e)"
    unfolding execute_log_def audit_log_def by (intro keeps_intros) simp_all
qed

text \<open>An admitted statement that may change the schema or the data empties the cached schema.\<close>

lemma execute_clears_cache:
  assumes conn: "get_connection config (Some (xa_connection args)) = Inr conn"
    and ok: "execute_guards astify conn (xa_query args) = Inr category" and "category \<noteq> Read"
  shows "cm_schemaCache (snd (handle_execute_sql astify bk config auditLogger args s)) (cc_name conn) = None"
proof -
  let ?P = "\<lambda>s. cm_schemaCache s (cc_name conn) = None"
  let ?limit = "effective_limit conn args" and ?offset = "page_offset args"
  have cat: "category = Ddl \<or> category = Write" using assms(3) by (cases category) auto
  let ?s = "s\<lparr>cm_schemaCache := (cm_schemaCache s)(cc_name conn := None)\<rparr>"
  let ?tail = "\<lambda>startMs. bindM (cm_execute bk conn (xa_query args) (xa_params args)
       (Some \<lparr>eo_maxRows = Some (?offset + ?limit), eo_timeoutMs = None\<rparr>)) (\<lambda>result.
     bindM (execute_log bk auditLogger (cc_name conn) args startMs (qr_rowCount result) AuditOk None) (\<lambda>_.
     let formatted = format_query_result (page_of result ?offset ?limit) ?limit (cc_maxValueLength conn) in
     ret (if ?offset > 0 then formatted\<lparr>fr_page_offset := Some ?offset\<rparr> else formatted)))"
  let ?handler = "\<lambda>startMs err. bindM (execute_log bk auditLogger (cc_name conn) args startMs 0 AuditError
       (Some (err_message err))) (\<lambda>_. throw err)"
  have body: "execute_body astify bk conn args auditLogger startMs s = ?tail startMs ?s" for startMs
    using ok cat by (simp add: execute_body_def invalidate_on_change_def invalidate_schema_cache_def
        bindM_run [of "modify _"] modify_run Let_def)
  have "keeps ?P (try_catch (?tail startMs) (?handler startMs))" for startMs
    unfolding Let_def by (intro keeps_intros keeps_no_schema)
  from keepsD [OF this, of ?s] show ?thesis
    by (simp add: handle_execute_sql_def conn bindM_run [of "gets _"] gets_run try_catch_run body)
qed

end
