(* ===== verification/CustomToolExec.thy ===== *)
theory CustomToolExec
  imports CustomToolConfig ComposeExpander ExecuteSql
begin

text \<open>
  Execution of custom tools (\<open>src/custom-tools.ts\<close>): a single statement, several steps in a
  transaction, or a pipeline of statements and other tools. Two simplifications of the
  code's \<open>null\<close>: a steps tool without steps, which validation rejects, throws at the end of
  its transaction (the code throws when it reads \<open>rowCount\<close>), and the fuel of the recursion
  between composed tools stands for a recursion that never ends (\<open>Hang\<close>).
\<close>

record 'w tool_env =
  te_astify :: sql_parser
  te_backend :: "'w backend"
  te_config :: omnibase_config
  te_auditLogger :: bool

definition undefined_read :: "string \<Rightarrow> error" where
  "undefined_read prop =
     JsError (''Cannot read properties of undefined (reading '' @ quote_single prop @ '')'')"

definition effective_permission :: "connection_config \<Rightarrow> tool_config \<Rightarrow> permission_level" where
  "effective_permission conn tool = or_else (ct_permission tool) (cc_permission conn)"

definition tool_options :: "connection_config \<Rightarrow> tool_config \<Rightarrow> execute_options" where
  "tool_options conn tool =
     \<lparr>eo_maxRows = Some (or_else (ct_maxRows tool) (cc_maxRows conn)),
      eo_timeoutMs = Some (or_else (ct_timeout tool) (cc_timeout conn))\<rparr>"

definition tool_format :: "connection_config \<Rightarrow> tool_config \<Rightarrow> query_result \<Rightarrow> formatted_result" where
  "tool_format conn tool result =
     format_query_result result (or_else (ct_maxRows tool) (cc_maxRows conn)) (cc_maxValueLength conn)"

definition tool_log ::
    "'w tool_env \<Rightarrow> string \<Rightarrow> string \<Rightarrow> string \<Rightarrow> jsval list \<Rightarrow> int \<Rightarrow> int \<Rightarrow> audit_status \<Rightarrow> string option \<Rightarrow>
       ('w sys, unit) io" where
  "tool_log env toolName connection sql params startMs rows status err =
     bindM (gets (\<lambda>s. bk_clock (te_backend env) (sys_world s))) (\<lambda>t.
       audit_log (te_auditLogger env)
         \<lparr>ae_tool = ''custom_'' @ toolName, ae_connection = connection, ae_sql = sql,
          ae_params = params, ae_durationMs = t - startMs, ae_rows = rows,
          ae_status = status, ae_error = err\<rparr>)"

abbreviation clock_now :: "'w tool_env \<Rightarrow> ('w sys, int) io" where
  "clock_now env \<equiv> gets (\<lambda>s. bk_clock (te_backend env) (sys_world s))"

section \<open>One statement\<close>

text \<open>
  From the template to the statement that is sent: substitution, the statement count, the
  content rules, the permission. \<open>msg\<close> is the message of the statement count.
\<close>

definition statement_guards ::
    "sql_parser \<Rightarrow> connection_config \<Rightarrow> tool_config \<Rightarrow> string \<Rightarrow> string \<Rightarrow> jsval obj \<Rightarrow>
       (string \<times> jsval list \<times> query_category) result" where
  "statement_guards astify conn tool msg template args =
     bindR (substitute_parameters template args (tool_params tool)) (\<lambda>(sql, values).
     bindR (guardR (is_multi_statement astify sql) (multi_statement_error msg)) (\<lambda>_.
     bindR (check_sql_security sql (cc_allowAllPragmas conn)) (\<lambda>_.
     let category = classify_query astify sql in
     bindR (enforce_permission (cc_name conn) (effective_permission conn tool) category) (\<lambda>_.
     Inr (sql, values, category)))))"

definition tool_execute ::
    "'w tool_env \<Rightarrow> connection_config \<Rightarrow> tool_config \<Rightarrow> string \<Rightarrow> jsval list \<Rightarrow> ('w sys, query_result) io" where
  "tool_execute env conn tool sql values =
     cm_execute (te_backend env) conn sql (Some values) (Some (tool_options conn tool))"

definition single_guards ::
    "'w tool_env \<Rightarrow> tool_config \<Rightarrow> jsval obj \<Rightarrow>
       (connection_config \<times> string \<times> jsval list \<times> query_category) result" where
  "single_guards env tool args =
     bindR (get_connection (te_config env) (ct_connection tool)) (\<lambda>conn.
     bindR (case ct_sql tool of None \<Rightarrow> Inl (undefined_read ''replace'') | Some t \<Rightarrow> Inr t) (\<lambda>template.
     bindR (statement_guards (te_astify env) conn tool
       ''Custom tool SQL template contains multiple statements'' template args) (\<lambda>(sql, values, category).
     Inr (conn, sql, values, category))))"

section \<open>Several steps in a transaction\<close>

fun prepare_steps ::
    "sql_parser \<Rightarrow> connection_config \<Rightarrow> tool_parameter obj \<Rightarrow> jsval obj \<Rightarrow> tool_step list \<Rightarrow>
       query_category \<Rightarrow> ((string \<times> jsval list) list \<times> query_category) result" where
  "prepare_steps astify conn paramDefs args [] maxCategory = Inr ([], maxCategory)"
| "prepare_steps astify conn paramDefs args (step # steps) maxCategory =
     bindR (substitute_parameters (ts_sql step) args paramDefs) (\<lambda>(sql, values).
     bindR (check_sql_security sql (cc_allowAllPragmas conn)) (\<lambda>_.
     let category = classify_query astify sql;
         maxCategory' = (if category_rank category > category_rank maxCategory then category else maxCategory) in
     bindR (prepare_steps astify conn paramDefs args steps maxCategory') (\<lambda>(rest, m).
     Inr ((sql, values) # rest, m))))"

text \<open>The tool's steps, or the failure of \<open>tool.steps!\<close>.\<close>

definition steps_guards ::
    "'w tool_env \<Rightarrow> tool_config \<Rightarrow> jsval obj \<Rightarrow> (connection_config \<times> (string \<times> jsval list) list) result" where
  "steps_guards env tool args =
     bindR (get_connection (te_config env) (ct_connection tool)) (\<lambda>conn.
     bindR (prepare_steps (te_astify env) conn (tool_params tool) args (or_else (ct_steps tool) []) Read)
       (\<lambda>(substituted, maxCategory).
     bindR (enforce_permission (cc_name conn) (effective_permission conn tool) maxCategory) (\<lambda>_.
     Inr (conn, substituted))))"

text \<open>
  \<open>/CREATE\s+TEMP(?:ORARY)?\s+TABLE\s+(?:IF\s+NOT\s+EXISTS\s+)?([^\s(;]+)/i\<close>
\<close>

definition temp_table_rx :: rx where
  "temp_table_rx =
     (let sp = plus_rx True (Cls is_space) in
      seq_rx [lit_i ''CREATE'', sp, lit_i ''TEMP'', opt_rx (lit_i ''ORARY''), sp, lit_i ''TABLE'', sp,
        opt_rx (seq_rx [lit_i ''IF'', sp, lit_i ''NOT'', sp, lit_i ''EXISTS'', sp]),
        Grp 1 (plus_rx True (Cls (\<lambda>c. \<not> is_space c \<and> c \<noteq> CHR ''('' \<and> c \<noteq> CHR '';'')))])"

definition temp_table_of :: "string \<Rightarrow> string option" where
  "temp_table_of sql = Option.bind (rx_exec temp_table_rx sql) (\<lambda>(_, _, m). group_of 1 m)"

text \<open>The variables \<open>returnResult\<close>, \<open>lastResult\<close> and \<open>tempTablesCreated\<close>.\<close>

record step_vars =
  sv_returnResult :: "query_result option"
  sv_lastResult :: "query_result option"
  sv_tempTables :: "string list"

definition no_step_vars :: step_vars where
  "no_step_vars = \<lparr>sv_returnResult = None, sv_lastResult = None, sv_tempTables = []\<rparr>"

definition on_sys :: "('s, 'a) io \<Rightarrow> ('s \<times> 'v, 'a) io" where
  "on_sys m = (\<lambda>(s, v). case m s of (r, s') \<Rightarrow> (r, (s', v)))"

definition on_vars :: "('v \<Rightarrow> 'v) \<Rightarrow> ('s \<times> 'v, unit) io" where
  "on_vars f = modify (\<lambda>(s, v). (s, f v))"

fun run_steps ::
    "'w tool_env \<Rightarrow> connection_config \<Rightarrow> tool_config \<Rightarrow> (tool_step \<times> string \<times> jsval list) list \<Rightarrow>
       ('w sys \<times> step_vars, unit) io" where
  "run_steps env conn tool [] = ret ()"
| "run_steps env conn tool ((step, sql, values) # rest) =
     bindM (on_sys (tool_execute env conn tool sql values)) (\<lambda>stepResult.
     bindM (on_vars (\<lambda>v. v\<lparr>sv_lastResult := Some stepResult\<rparr>)) (\<lambda>_.
     bindM (on_vars (\<lambda>v. if ts_return step = Some True then v\<lparr>sv_returnResult := Some stepResult\<rparr> else v)) (\<lambda>_.
     bindM (on_sys (invalidate_on_change (cc_name conn) (classify_query (te_astify env) sql))) (\<lambda>_.
     bindM (on_vars (\<lambda>v. case temp_table_of sql of
         None \<Rightarrow> v | Some table \<Rightarrow> v\<lparr>sv_tempTables := sv_tempTables v @ [table]\<rparr>)) (\<lambda>_.
     run_steps env conn tool rest)))))"

text \<open>An awaited call whose failure is ignored.\<close>

definition best_effort :: "('s, 'a) io \<Rightarrow> ('s, unit) io" where
  "best_effort m = try_catch (bindM m (\<lambda>_. ret ())) (\<lambda>_. ret ())"

fun drop_temp_tables ::
    "'w tool_env \<Rightarrow> connection_config \<Rightarrow> tool_config \<Rightarrow> string list \<Rightarrow> ('w sys, unit) io" where
  "drop_temp_tables env conn tool [] = ret ()"
| "drop_temp_tables env conn tool (table # tables) =
     bindM (best_effort (tool_execute env conn tool (''DROP TABLE IF EXISTS '' @ table) []))
       (\<lambda>_. drop_temp_tables env conn tool tables)"

text \<open>The \<open>catch\<close> and the \<open>finally\<close> of the transaction, and the \<open>try\<close> block that they guard.\<close>

definition steps_catch ::
    "'w tool_env \<Rightarrow> connection_config \<Rightarrow> tool_config \<Rightarrow> error \<Rightarrow> ('w sys \<times> step_vars, unit) io" where
  "steps_catch env conn tool err =
     bindM (on_sys (best_effort (tool_execute env conn tool ''ROLLBACK'' []))) (\<lambda>_. throw err)"

definition steps_finally ::
    "'w tool_env \<Rightarrow> connection_config \<Rightarrow> tool_config \<Rightarrow> ('w sys \<times> step_vars, unit) io" where
  "steps_finally env conn tool =
     bindM (gets (\<lambda>(s, v). sv_tempTables v)) (\<lambda>tables.
     bindM (on_sys (drop_temp_tables env conn tool tables)) (\<lambda>_.
     on_sys (release_transaction_lock (cc_name conn))))"

definition steps_transaction ::
    "'w tool_env \<Rightarrow> connection_config \<Rightarrow> tool_config \<Rightarrow> (string \<times> jsval list) list \<Rightarrow>
       ('w sys \<times> step_vars, unit) io" where
  "steps_transaction env conn tool substituted =
     try_finally
       (try_catch
          (bindM (run_steps env conn tool (zip (or_else (ct_steps tool) []) substituted)) (\<lambda>_.
           bindM (on_sys (tool_execute env conn tool ''COMMIT'' [])) (\<lambda>_. ret ())))
          (steps_catch env conn tool))
       (steps_finally env conn tool)"

text \<open>\<open>return returnResult ?? lastResult!\<close>\<close>

definition steps_result ::
    "unit outcome \<times> ('w sys \<times> step_vars) \<Rightarrow> query_result outcome \<times> 'w sys" where
  "steps_result st =
     (case st of (r, (s, v)) \<Rightarrow>
       ((case r of
          Throw e \<Rightarrow> Throw e
        | Hang \<Rightarrow> Hang
        | Ret _ \<Rightarrow>
            (case sv_returnResult v of
               Some q \<Rightarrow> Ret q
             | None \<Rightarrow> (case sv_lastResult v of
                 Some q \<Rightarrow> Ret q
               | None \<Rightarrow> Throw (JsError (''Cannot read properties of null (reading '' @
                     quote_single ''rowCount'' @ '')''))))), s))"

definition execute_steps_raw ::
    "'w tool_env \<Rightarrow> tool_config \<Rightarrow> jsval obj \<Rightarrow> ('w sys, query_result) io" where
  "execute_steps_raw env tool args =
     bindM (liftR (steps_guards env tool args)) (\<lambda>(conn, substituted).
     bindM (acquire_transaction_lock (cc_name conn)) (\<lambda>_.
     bindM (tool_execute env conn tool ''BEGIN'' []) (\<lambda>_ s.
       steps_result (steps_transaction env conn tool substituted (s, no_step_vars)))))"

section \<open>Pipelines\<close>

text \<open>\<open>/^\{[a-zA-Z_][a-zA-Z0-9_]*\}$/\<close>\<close>

definition whole_placeholder_rx :: rx where
  "whole_placeholder_rx = seq_rx [Bol, lit ''{'', Cls is_ident_start, Star True (Cls is_word), lit ''}'', Eol]"

definition step_arg :: "jsval obj \<Rightarrow> jsval \<Rightarrow> jsval" where
  "step_arg args value =
     (case value of
        JStr v \<Rightarrow>
          if rx_test whole_placeholder_rx v then
            (case obj_get args (butlast (tl v)) of None \<Rightarrow> JUndef | Some a \<Rightarrow> a)
          else value
      | _ \<Rightarrow> value)"

definition step_args :: "jsval obj \<Rightarrow> compose_step \<Rightarrow> jsval obj" where
  "step_args args step =
     foldl (\<lambda>acc (key, value). obj_set key (step_arg args value) acc) [] (or_else (cs_args step) [])"

definition inline_guards ::
    "'w tool_env \<Rightarrow> connection_config \<Rightarrow> tool_config \<Rightarrow> compose_step \<Rightarrow> query_result obj \<Rightarrow> jsval obj \<Rightarrow>
       (string \<times> jsval list \<times> query_category) result" where
  "inline_guards env conn tool step context args =
     bindR (case cs_sql step of None \<Rightarrow> Inl (undefined_read ''replace'') | Some t \<Rightarrow> Inr t) (\<lambda>template.
     bindR (expand_compose_references template context) (\<lambda>expanded.
     statement_guards (te_astify env) conn tool
       (''Compose step '' @ quote_single (cs_as step) @ '': SQL contains multiple statements'') expanded args))"

definition referenced_tool :: "'w tool_env \<Rightarrow> string \<Rightarrow> tool_config result" where
  "referenced_tool env name =
     (case oc_tools (te_config env) of
        None \<Rightarrow> Inl (undefined_read name)
      | Some tools \<Rightarrow>
          (case obj_get tools name of None \<Rightarrow> Inl (undefined_read ''compose'') | Some tool \<Rightarrow> Inr tool))"

definition is_composed :: "tool_config \<Rightarrow> bool" where
  "is_composed tool \<longleftrightarrow> or_else (ct_compose tool) [] \<noteq> []"

fun execute_raw_custom_tool ::
    "nat \<Rightarrow> 'w tool_env \<Rightarrow> tool_config \<Rightarrow> jsval obj \<Rightarrow> ('w sys, query_result) io"
and run_compose ::
    "nat \<Rightarrow> 'w tool_env \<Rightarrow> connection_config \<Rightarrow> tool_config \<Rightarrow> jsval obj \<Rightarrow> compose_step list \<Rightarrow>
       query_result obj \<Rightarrow> query_result option \<Rightarrow> ('w sys, query_result option) io"
where
  "execute_raw_custom_tool 0 env tool args = (\<lambda>s. (Hang, s))"
| "execute_raw_custom_tool (Suc n) env tool args =
     (if is_composed tool then
        bindM (liftR (get_connection (te_config env) (ct_connection tool))) (\<lambda>conn.
        bindM (run_compose n env conn tool args (or_else (ct_compose tool) []) [] None) (\<lambda>lastResult.
        ret (the lastResult)))
      else if ct_steps tool \<noteq> None then execute_steps_raw env tool args
      else
        bindM (liftR (single_guards env tool args)) (\<lambda>(conn, sql, values, category).
        bindM (invalidate_on_change (cc_name conn) category) (\<lambda>_.
        tool_execute env conn tool sql values)))"
| "run_compose n env conn tool args [] context lastResult = ret lastResult"
| "run_compose n env conn tool args (step # steps) context lastResult =
     bindM
       (case nonempty (cs_tool step) of
          Some ref \<Rightarrow>
            bindM (liftR (referenced_tool env ref)) (\<lambda>refTool.
            execute_raw_custom_tool n env refTool (step_args args step))
        | None \<Rightarrow>
            bindM (liftR (inline_guards env conn tool step context args)) (\<lambda>(sql, values, category).
            bindM (invalidate_on_change (cc_name conn) category) (\<lambda>_.
            tool_execute env conn tool sql values)))
       (\<lambda>result. run_compose n env conn tool args steps (obj_set (cs_as step) result context) (Some result))"

section \<open>The tool call\<close>

definition compose_summary :: "tool_config \<Rightarrow> string" where
  "compose_summary tool =
     join ''; '' (map (\<lambda>s. case nonempty (cs_tool s) of
         Some t \<Rightarrow> ''[tool:'' @ t @ '']'' | None \<Rightarrow> or_else (cs_sql s) []) (or_else (ct_compose tool) []))"

text \<open>
  Run a raw execution, log its outcome and format its result; the common shape of
  \<open>executeComposedTool\<close> and \<open>executeCustomToolSteps\<close>.
\<close>

definition logged_execution ::
    "'w tool_env \<Rightarrow> string \<Rightarrow> connection_config \<Rightarrow> tool_config \<Rightarrow> string \<Rightarrow> int \<Rightarrow>
       ('w sys, query_result) io \<Rightarrow> ('w sys, formatted_result) io" where
  "logged_execution env toolName conn tool sql startMs raw =
     try_catch
       (bindM raw (\<lambda>result.
        bindM (tool_log env toolName (cc_name conn) sql [] startMs (qr_rowCount result) AuditOk None) (\<lambda>_.
        ret (tool_format conn tool result))))
       (\<lambda>err. bindM (tool_log env toolName (cc_name conn) sql [] startMs 0 AuditError (Some (err_message err)))
          (\<lambda>_. throw err))"

definition execute_composed_tool ::
    "nat \<Rightarrow> 'w tool_env \<Rightarrow> string \<Rightarrow> tool_config \<Rightarrow> jsval obj \<Rightarrow> ('w sys, formatted_result) io" where
  "execute_composed_tool n env toolName tool args =
     bindM (clock_now env) (\<lambda>startMs.
     bindM (liftR (get_connection (te_config env) (ct_connection tool))) (\<lambda>conn.
     logged_execution env toolName conn tool (compose_summary tool) startMs
       (execute_raw_custom_tool n env tool args)))"

definition execute_custom_tool_steps ::
    "'w tool_env \<Rightarrow> string \<Rightarrow> tool_config \<Rightarrow> jsval obj \<Rightarrow> ('w sys, formatted_result) io" where
  "execute_custom_tool_steps env toolName tool args =
     bindM (liftR (get_connection (te_config env) (ct_connection tool))) (\<lambda>conn.
     bindM (clock_now env) (\<lambda>startMs.
     logged_execution env toolName conn tool (join ''; '' (map ts_sql (or_else (ct_steps tool) []))) startMs
       (execute_steps_raw env tool args)))"

definition execute_single_tool ::
    "'w tool_env \<Rightarrow> string \<Rightarrow> tool_config \<Rightarrow> jsval obj \<Rightarrow> ('w sys, formatted_result) io" where
  "execute_single_tool env toolName tool args =
     bindM (liftR (single_guards env tool args)) (\<lambda>(conn, sql, values, category).
     bindM (invalidate_on_change (cc_name conn) category) (\<lambda>_.
     bindM (clock_now env) (\<lambda>startMs.
     bindM
       (try_catch (tool_execute env conn tool sql values)
         (\<lambda>err. bindM (tool_log env toolName (cc_name conn) sql values startMs 0 AuditError
              (Some (err_message err))) (\<lambda>_. throw err))) (\<lambda>result.
     bindM (tool_log env toolName (cc_name conn) sql values startMs (qr_rowCount result) AuditOk None) (\<lambda>_.
     ret (tool_format conn tool result))))))"

definition execute_custom_tool ::
    "nat \<Rightarrow> 'w tool_env \<Rightarrow> string \<Rightarrow> tool_config \<Rightarrow> jsval obj \<Rightarrow> ('w sys, formatted_result) io" where
  "execute_custom_tool n env toolName tool args =
     (if is_composed tool then execute_composed_tool n env toolName tool args
      else if ct_steps tool \<noteq> None then execute_custom_tool_steps env toolName tool args
      else execute_single_tool env toolName tool args)"

end
