(* ===== verification/ComposeGraph.thy ===== *)
theory ComposeGraph
  imports CustomToolConfig
begin

text \<open>
  Correctness of the circular-reference search of \<open>CustomToolConfig\<close>: it always answers,
  it reports only real cycles, and when it accepts, the relation "refers to" between
  composed tools has no cycle. The last part gives the bound on the nesting of composed
  tools that their execution relies on.
\<close>

definition refers_to :: "graph \<Rightarrow> (string \<times> string) set" where
  "refers_to edges = {(a, b). b \<in> set (neighbors edges a)}"

section \<open>What a successful search knows\<close>

text \<open>The finished tools refer only to finished tools, and none of them reaches itself.\<close>

definition settled :: "graph \<Rightarrow> string set \<Rightarrow> bool" where
  "settled edges F \<longleftrightarrow>
     (\<forall>x \<in> F. set (neighbors edges x) \<subseteq> F) \<and> (\<forall>x \<in> F. (x, x) \<notin> (refers_to edges)\<^sup>+)"

lemma settled_reach:
  assumes "settled edges F" "x \<in> F" "(x, y) \<in> (refers_to edges)\<^sup>+"
  shows "y \<in> F"
  using assms(3,1,2)
  by (induction rule: trancl_induct) (auto simp: settled_def refers_to_def)

lemma settled_insert:
  assumes "settled edges F" "set (neighbors edges x) \<subseteq> F"
  shows "settled edges (insert x F)"
proof (cases "x \<in> F")
  case True
  then show ?thesis using assms by (simp add: insert_absorb)
next
  case False
  have "(x, x) \<notin> (refers_to edges)\<^sup>+"
  proof
    assume "(x, x) \<in> (refers_to edges)\<^sup>+"
    then obtain y where y: "(x, y) \<in> refers_to edges" "y = x \<or> (y, x) \<in> (refers_to edges)\<^sup>+"
      by (metis tranclD rtranclD)
    with assms(2) have "y \<in> F" by (auto simp: refers_to_def)
    then show False using y(2) False settled_reach [OF assms(1)] by blast
  qed
  then show ?thesis using assms by (auto simp: settled_def)
qed

section \<open>The search\<close>

lemma search_frame:
  "dfs n edges node path st = Some (Inr st') \<Longrightarrow> snd st' = snd st \<and> fst st \<subseteq> fst st'"
  "dfs_all n edges xs path st = Some (Inr st') \<Longrightarrow> snd st' = snd st \<and> fst st \<subseteq> fst st'"
proof (induction n edges node path st and n edges xs path st arbitrary: st' and st' rule: dfs_dfs_all.induct)
  case (2 n edges node path visited inStack)
  show ?case
  proof (cases "node \<in> inStack \<or> node \<in> visited")
    case True
    then show ?thesis using 2(2) by (auto split: if_splits)
  next
    case False
    then obtain v s where run: "dfs_all n edges (neighbors edges node) (path @ [node])
        (insert node visited, insert node inStack) = Some (Inr (v, s))"
      and st': "st' = (v, s - {node})"
      using 2(2) by (auto split: if_splits option.splits sum.splits)
    then show ?thesis using 2(1) [OF _ _ run] False by auto
  qed
next
  case (4 n edges x xs path st)
  then obtain st1 where run: "dfs n edges x path st = Some (Inr st1)"
      "dfs_all n edges xs path st1 = Some (Inr st')"
    by (auto split: option.splits sum.splits)
  show ?case using 4(1) [OF run(1)] 4(2) [OF run(1) _ run(2)] by auto
qed auto

definition search_post :: "graph \<Rightarrow> string set \<Rightarrow> string set \<times> string set \<Rightarrow> string set \<times> string set \<Rightarrow> bool" where
  "search_post edges goal st st' \<longleftrightarrow>
     snd st' = snd st \<and> fst st \<subseteq> fst st' \<and> goal \<subseteq> fst st' - snd st' \<and>
     settled edges (fst st' - snd st')"

lemma search_sound:
  "dfs n edges node path st = Some (Inr st') \<Longrightarrow> settled edges (fst st - snd st) \<Longrightarrow>
     search_post edges {node} st st'"
  "dfs_all n edges xs path st = Some (Inr st') \<Longrightarrow> settled edges (fst st - snd st) \<Longrightarrow>
     search_post edges (set xs) st st'"
proof (induction n edges node path st and n edges xs path st arbitrary: st' and st' rule: dfs_dfs_all.induct)
  case (1 edges node path st)
  then show ?case by simp
next
  case (2 n edges node path visited inStack)
  show ?case
  proof (cases "node \<in> visited")
    case True
    with 2(2,3) show ?thesis by (auto simp: search_post_def split: if_splits)
  next
    case False
    with 2(2) obtain v s where notin: "node \<notin> inStack"
      and run: "dfs_all n edges (neighbors edges node) (path @ [node])
        (insert node visited, insert node inStack) = Some (Inr (v, s))"
      and st': "st' = (v, s - {node})"
      by (auto split: if_splits option.splits sum.splits)
    have diff: "insert node visited - insert node inStack = visited - inStack" using False by blast
    have "search_post edges (set (neighbors edges node))
        (insert node visited, insert node inStack) (v, s)"
      by (rule 2(1) [OF notin False run]) (use 2(3) diff in simp)
    then have s: "s = insert node inStack" and v: "insert node visited \<subseteq> v"
      and nb: "set (neighbors edges node) \<subseteq> v - s" and settled: "settled edges (v - s)"
      by (auto simp: search_post_def)
    have "s - {node} = inStack" using s notin by simp
    moreover have "v - inStack = insert node (v - s)" using s v notin by auto
    moreover have "settled edges (insert node (v - s))" by (rule settled_insert [OF settled nb])
    ultimately show ?thesis using v notin st' by (auto simp: search_post_def)
  qed
next
  case (3 n edges path st)
  then show ?case by (simp add: search_post_def)
next
  case (4 n edges x xs path st)
  from 4(3) obtain st1 where run1: "dfs n edges x path st = Some (Inr st1)"
    and run2: "dfs_all n edges xs path st1 = Some (Inr st')"
    by (auto split: option.splits sum.splits)
  have one: "search_post edges {x} st st1" by (rule 4(1) [OF run1 4(4)])
  have two: "search_post edges (set xs) st1 st'"
  proof (rule 4(2) [OF run1 _ run2])
    show "settled edges (fst st1 - snd st1)" using one unfolding search_post_def by (elim conjE)
  qed (rule refl)
  show ?case using one two by (auto simp: search_post_def)
qed

section \<open>What a reported cycle is\<close>

fun walk :: "graph \<Rightarrow> string list \<Rightarrow> bool" where
  "walk edges (a # b # xs) \<longleftrightarrow> b \<in> set (neighbors edges a) \<and> walk edges (b # xs)"
| "walk edges xs \<longleftrightarrow> True"

definition is_cycle :: "graph \<Rightarrow> string list \<Rightarrow> bool" where
  "is_cycle edges c \<longleftrightarrow> length c \<ge> 2 \<and> hd c = last c \<and> walk edges c"

lemma walk_append:
  "walk edges (xs @ [a]) \<Longrightarrow> b \<in> set (neighbors edges a) \<Longrightarrow> walk edges (xs @ [a, b])"
  by (induction edges "xs @ [a]" arbitrary: xs rule: walk.induct)
    (auto simp: Cons_eq_append_conv append_eq_Cons_conv)

lemma walk_dropWhile: "walk edges xs \<Longrightarrow> walk edges (dropWhile P xs)"
proof (induction xs)
  case Nil
  then show ?case by simp
next
  case (Cons x xs)
  have "walk edges xs" using Cons.prems by (cases xs) auto
  with Cons show ?case by simp
qed

lemma walk_reach: "walk edges xs \<Longrightarrow> length xs \<ge> 2 \<Longrightarrow> (hd xs, last xs) \<in> (refers_to edges)\<^sup>+"
proof (induction edges xs rule: walk.induct)
  case (1 edges a b xs)
  have ab: "(a, b) \<in> refers_to edges" using 1 by (simp add: refers_to_def)
  show ?case
  proof (cases xs)
    case Nil
    then show ?thesis using ab by auto
  next
    case (Cons c ys)
    then have "(b, last (b # xs)) \<in> (refers_to edges)\<^sup>+" using 1 by simp
    then show ?thesis using ab by (auto intro: trancl_into_trancl2)
  qed
qed simp_all

lemma cycle_not_acyclic: "is_cycle edges c \<Longrightarrow> (hd c, hd c) \<in> (refers_to edges)\<^sup>+"
  using walk_reach [of edges c] by (simp add: is_cycle_def)

lemma cycle_of_is_cycle:
  assumes "walk edges (path @ [node])" "node \<in> set path"
  shows "is_cycle edges (cycle_of path node)"
proof -
  obtain ys zs where split: "path = ys @ node # zs" "node \<notin> set ys"
    using split_list_first [OF assms(2)] by blast
  then have c: "cycle_of path node = node # zs @ [node]"
    by (simp add: cycle_of_def dropWhile_append3 dropWhile_append)
  have "walk edges (dropWhile (\<lambda>x. x \<noteq> node) (path @ [node]))"
    by (rule walk_dropWhile [OF assms(1)])
  also have "dropWhile (\<lambda>x. x \<noteq> node) (path @ [node]) = node # zs @ [node]"
    using split by (simp add: dropWhile_append)
  finally show ?thesis using c by (simp add: is_cycle_def)
qed

text \<open>The path leads to the node that is searched, and its tools are the ones on the stack.\<close>

definition on_path :: "graph \<Rightarrow> string list \<Rightarrow> string list \<Rightarrow> string set \<Rightarrow> bool" where
  "on_path edges path targets inStack \<longleftrightarrow>
     set path = inStack \<and> (\<forall>x \<in> set targets. walk edges (path @ [x]))"

lemma search_error:
  "dfs n edges node path st = Some (Inl e) \<Longrightarrow> on_path edges path [node] (snd st) \<Longrightarrow>
     \<exists>c. is_cycle edges c \<and> e = cycle_error c"
  "dfs_all n edges xs path st = Some (Inl e) \<Longrightarrow> on_path edges path xs (snd st) \<Longrightarrow>
     \<exists>c. is_cycle edges c \<and> e = cycle_error c"
proof (induction n edges node path st and n edges xs path st rule: dfs_dfs_all.induct)
  case (2 n edges node path visited inStack)
  show ?case
  proof (cases "node \<in> inStack")
    case True
    then show ?thesis using 2(2,3) by (auto simp: on_path_def intro!: exI cycle_of_is_cycle)
  next
    case False
    then have new: "node \<notin> visited" and run: "dfs_all n edges (neighbors edges node) (path @ [node])
        (insert node visited, insert node inStack) = Some (Inl e)"
      using 2(2) by (auto split: if_splits option.splits sum.splits)
    have "on_path edges (path @ [node]) (neighbors edges node) (insert node inStack)"
      using 2(3) by (auto simp: on_path_def intro: walk_append)
    then show ?thesis using 2(1) [OF False new run] by simp
  qed
next
  case (4 n edges x xs path st)
  show ?case
  proof (cases "dfs n edges x path st = Some (Inl e)")
    case True
    then show ?thesis using 4(1) 4(4) by (auto simp: on_path_def)
  next
    case False
    then obtain st1 where run1: "dfs n edges x path st = Some (Inr st1)"
      and run2: "dfs_all n edges xs path st1 = Some (Inl e)"
      using 4(3) by (auto split: option.splits sum.splits)
    have "snd st1 = snd st"
      using search_frame(1) [OF run1] by blast
    then show ?thesis using 4(2) [OF run1 _ run2] 4(4) by (auto simp: on_path_def)
  qed
qed simp_all

section \<open>The search always answers\<close>

lemma search_total:
  "finite V \<Longrightarrow> \<forall>a. set (neighbors edges a) \<subseteq> V \<Longrightarrow> node \<in> V \<Longrightarrow> card (V - fst st) < n \<Longrightarrow>
     dfs n edges node path st \<noteq> None"
  "finite V \<Longrightarrow> \<forall>a. set (neighbors edges a) \<subseteq> V \<Longrightarrow> set xs \<subseteq> V \<Longrightarrow> card (V - fst st) < n \<Longrightarrow>
     dfs_all n edges xs path st \<noteq> None"
proof (induction n edges node path st and n edges xs path st rule: dfs_dfs_all.induct)
  case (2 n edges node path visited inStack)
  show ?case
  proof (cases "node \<in> inStack \<or> node \<in> visited")
    case True
    then show ?thesis by auto
  next
    case False
    have "V - insert node visited \<subset> V - visited" using False 2(4) by blast
    then have "card (V - insert node visited) < card (V - visited)"
      using 2(2) by (simp add: psubset_card_mono)
    then have "card (V - insert node visited) < n" using 2(5) by simp
    moreover have "set (neighbors edges node) \<subseteq> V" using 2(3) by blast
    ultimately have "dfs_all n edges (neighbors edges node) (path @ [node])
        (insert node visited, insert node inStack) \<noteq> None"
      using 2(1) False 2(2,3) by simp
    then show ?thesis using False by (auto split: option.splits sum.splits)
  qed
next
  case (4 n edges x xs path st)
  have "dfs n edges x path st \<noteq> None" using 4 by simp
  moreover have "dfs_all n edges xs path st1 \<noteq> None" if run: "dfs n edges x path st = Some (Inr st1)" for st1
  proof (rule 4(2) [OF run refl 4(3,4)])
    have "V - fst st1 \<subseteq> V - fst st" using search_frame(1) [OF run] by blast
    then have "card (V - fst st1) \<le> card (V - fst st)" using 4(3) by (simp add: card_mono)
    then show "card (V - fst st1) < n" using 4(6) by simp
  qed (use 4 in auto)
  ultimately show ?case by (auto split: option.splits sum.splits)
qed simp_all

lemma neighbors_entry: "b \<in> set (neighbors edges a) \<Longrightarrow> (a, neighbors edges a) \<in> set edges"
  by (cases "obj_get edges a") (auto simp: neighbors_def dest: map_of_SomeD)

lemma neighbors_nodes: "set (neighbors edges a) \<subseteq> set (graph_nodes edges)"
  by (auto simp: graph_nodes_def dest: neighbors_entry)

section \<open>All roots\<close>

lemma roots_sound:
  "dfs_roots n edges xs (v, {}) = Some (Inr st') \<Longrightarrow> settled edges v \<Longrightarrow>
     v \<union> set xs \<subseteq> fst st' \<and> settled edges (fst st')"
proof (induction xs arbitrary: v)
  case Nil
  then show ?case by auto
next
  case (Cons x xs)
  show ?case
  proof (cases "x \<in> v")
    case True
    then show ?thesis using Cons by auto
  next
    case False
    then obtain st1 where run: "dfs n edges x [] (v, {}) = Some (Inr st1)"
      and rest: "dfs_roots n edges xs st1 = Some (Inr st')"
      using Cons.prems(1) by (auto split: option.splits sum.splits)
    have post: "search_post edges {x} (v, {}) st1"
      by (rule search_sound(1) [OF run]) (simp add: Cons.prems(2))
    then obtain v1 where st1: "st1 = (v1, {})" by (cases st1) (simp add: search_post_def)
    have "v1 \<union> set xs \<subseteq> fst st' \<and> settled edges (fst st')"
      by (rule Cons.IH) (use rest st1 post in \<open>simp_all add: search_post_def\<close>)
    then show ?thesis using post st1 by (auto simp: search_post_def)
  qed
qed

lemma roots_error:
  "dfs_roots n edges xs (v, {}) = Some (Inl e) \<Longrightarrow> \<exists>c. is_cycle edges c \<and> e = cycle_error c"
proof (induction xs arbitrary: v)
  case Nil
  then show ?case by simp
next
  case (Cons x xs)
  show ?case
  proof (cases "x \<in> v")
    case True
    then show ?thesis using Cons by auto
  next
    case False
    show ?thesis
    proof (cases "dfs n edges x [] (v, {})")
      case None
      then show ?thesis using Cons.prems False by simp
    next
      case (Some r)
      show ?thesis
      proof (cases r)
        case (Inl e')
        then show ?thesis using search_error(1) [of n edges x "[]" "(v, {})" e'] Some False Cons.prems
          by (simp add: on_path_def)
      next
        case (Inr st1)
        then have "snd st1 = {}" using search_frame(1) Some by fastforce
        then obtain v1 where "st1 = (v1, {})" by (cases st1) auto
        then show ?thesis using Cons Some False Inr by simp
      qed
    qed
  qed
qed

lemma roots_total:
  "set xs \<subseteq> set (graph_nodes edges) \<Longrightarrow> length (graph_nodes edges) < n \<Longrightarrow>
     dfs_roots n edges xs st \<noteq> None"
proof (induction xs arbitrary: st)
  case Nil
  then show ?case by simp
next
  case (Cons x xs)
  have "card (set (graph_nodes edges) - fst st) \<le> length (graph_nodes edges)"
    by (meson card_Diff_subset_Int card_length card_mono Diff_subset finite_set le_trans)
  then have "dfs n edges x [] st \<noteq> None"
    using Cons.prems neighbors_nodes by (intro search_total(1) [OF finite_set]) auto
  then show ?case using Cons by (auto split: option.splits sum.splits)
qed

section \<open>The verdict\<close>

lemma refers_to_key: "(a, b) \<in> refers_to edges \<Longrightarrow> a \<in> set (obj_keys edges)"
  by (auto simp: refers_to_def dest!: neighbors_entry intro: rev_image_eqI)

lemma detect_total: "detect_compose_circular_deps config \<noteq> None"
  using roots_total [of "obj_keys (compose_edges config)" "compose_edges config"
      "Suc (length (graph_nodes (compose_edges config)))" "({}, {})"]
  by (auto simp: detect_compose_circular_deps_def Let_def graph_nodes_def split: option.splits sum.splits)

lemma detect_reports:
  "detect_compose_circular_deps config = Some (Inl e) \<Longrightarrow>
     \<exists>c. is_cycle (compose_edges config) c \<and> e = cycle_error c"
  by (auto simp: detect_compose_circular_deps_def Let_def split: option.splits sum.splits dest: roots_error)

lemma detect_accepts:
  "detect_compose_circular_deps config = Some (Inr ()) \<longleftrightarrow> acyclic (refers_to (compose_edges config))"
    (is "?ok \<longleftrightarrow> acyclic ?E")
proof
  assume ?ok
  then obtain st where run: "dfs_roots (Suc (length (graph_nodes (compose_edges config))))
      (compose_edges config) (obj_keys (compose_edges config)) ({}, {}) = Some (Inr st)"
    by (auto simp: detect_compose_circular_deps_def Let_def split: option.splits sum.splits)
  have post: "set (obj_keys (compose_edges config)) \<subseteq> fst st" "settled (compose_edges config) (fst st)"
    using roots_sound [OF run] by (simp_all add: settled_def)
  have "(x, x) \<notin> ?E\<^sup>+" for x
  proof
    assume cyc: "(x, x) \<in> ?E\<^sup>+"
    then obtain y where "(x, y) \<in> ?E" by (meson tranclD)
    then have "x \<in> fst st" using post(1) refers_to_key by blast
    then show False using post(2) cyc by (simp add: settled_def)
  qed
  then show "acyclic ?E" by (simp add: acyclic_def)
next
  assume acyclic: "acyclic ?E"
  obtain r where r: "detect_compose_circular_deps config = Some r" using detect_total by fast
  show ?ok
  proof (cases r)
    case (Inl e)
    then obtain c where "is_cycle (compose_edges config) c" using r detect_reports by blast
    then show ?thesis using cycle_not_acyclic acyclic by (meson acyclic_def)
  qed (use r in simp)
qed

section \<open>Nesting depth\<close>

definition nesting :: "graph \<Rightarrow> string \<Rightarrow> nat" where
  "nesting edges a = card ((refers_to edges)\<^sup>+ `` {a})"

lemma finite_refers_to: "finite (refers_to edges)"
proof (rule finite_subset)
  show "refers_to edges \<subseteq> set (graph_nodes edges) \<times> set (graph_nodes edges)"
  proof (rule subrelI)
    fix a b
    assume ab: "(a, b) \<in> refers_to edges"
    have "a \<in> set (graph_nodes edges)" using refers_to_key [OF ab] by (simp add: graph_nodes_def)
    then show "(a, b) \<in> set (graph_nodes edges) \<times> set (graph_nodes edges)"
      using ab neighbors_nodes by (auto simp: refers_to_def)
  qed
qed simp

lemma nesting_decreases:
  assumes "acyclic (refers_to edges)" "(a, b) \<in> refers_to edges"
  shows "nesting edges b < nesting edges a"
proof -
  let ?T = "(refers_to edges)\<^sup>+"
  have "?T `` {b} \<subset> ?T `` {a}"
  proof
    show "?T `` {b} \<subseteq> ?T `` {a}" using assms(2) by (auto intro: trancl_into_trancl2)
    have "b \<in> ?T `` {a}" "b \<notin> ?T `` {b}" using assms by (auto simp: acyclic_def)
    then show "?T `` {b} \<noteq> ?T `` {a}" by blast
  qed
  moreover have "finite (?T `` {a})" by (simp add: finite_refers_to)
  ultimately show ?thesis unfolding nesting_def by (rule psubset_card_mono [rotated])
qed

lemma nesting_bound: "(refers_to edges) `` UNIV \<subseteq> set ts \<Longrightarrow> nesting edges a \<le> length ts"
proof -
  assume "(refers_to edges) `` UNIV \<subseteq> set ts"
  then have "(refers_to edges)\<^sup>+ `` {a} \<subseteq> set ts" by (blast dest: tranclD2)
  then show ?thesis unfolding nesting_def by (meson card_length card_mono finite_set le_trans)
qed

end
