(* ===== verification/ToolValidation.thy ===== *)
theory ToolValidation
  imports ComposeGraph
begin

text \<open>
  What the validation of the custom tools (\<open>CustomToolConfig\<close>) accepts, as a declarative
  specification, and what its errors are.
\<close>

section \<open>The specification\<close>

definition tool_name_ok :: "string \<Rightarrow> bool" where
  "tool_name_ok n \<longleftrightarrow> (\<exists>c w. n = c # w \<and> is_alpha c \<and> (\<forall>d \<in> set w. is_word d))"

definition identifier_ok :: "string \<Rightarrow> bool" where
  "identifier_ok n \<longleftrightarrow> (\<exists>c w. n = c # w \<and> is_ident_start c \<and> (\<forall>d \<in> set w. is_word d))"

definition step_target_ok :: "omnibase_config \<Rightarrow> compose_step \<Rightarrow> bool" where
  "step_target_ok config step \<longleftrightarrow>
     (cs_tool step = None \<and> cs_sql step \<noteq> None) \<or>
     (cs_sql step = None \<and> (\<exists>ref. cs_tool step = Some ref \<and> ref \<in> set (obj_keys (config_tools config))))"

definition pipeline_ok :: "omnibase_config \<Rightarrow> tool_config \<Rightarrow> compose_step list \<Rightarrow> bool" where
  "pipeline_ok config tool steps \<longleftrightarrow>
     steps \<noteq> [] \<and> distinct (map cs_as steps) \<and>
     (\<forall>step \<in> set steps. identifier_ok (cs_as step) \<and> cs_as step \<notin> set (obj_keys (tool_params tool)) \<and>
        step_target_ok config step)"

definition param_ok :: "tool_parameter \<Rightarrow> bool" where
  "param_ok p \<longleftrightarrow>
     (tp_type p = PEnum \<longrightarrow> (\<exists>v vs. tp_values p = Some (v # vs))) \<and>
     (tp_required p = Some False \<longrightarrow> tp_default p \<noteq> JUndef)"

definition placeholders_defined :: "tool_config \<Rightarrow> string \<Rightarrow> bool" where
  "placeholders_defined tool sql \<longleftrightarrow>
     set (extract_placeholders sql) \<subseteq> set (obj_keys (tool_params tool))"

text \<open>Exactly one of the three kinds of tool, well formed.\<close>

definition body_ok :: "omnibase_config \<Rightarrow> tool_config \<Rightarrow> bool" where
  "body_ok config tool \<longleftrightarrow>
     (\<exists>sql. ct_sql tool = Some sql \<and> ct_steps tool = None \<and> ct_compose tool = None \<and>
        placeholders_defined tool sql) \<or>
     (\<exists>steps. ct_sql tool = None \<and> ct_steps tool = Some steps \<and> ct_compose tool = None \<and> steps \<noteq> [] \<and>
        length (List.filter (\<lambda>s. ts_return s = Some True) steps) \<le> 1 \<and>
        (\<forall>s \<in> set steps. placeholders_defined tool (ts_sql s))) \<or>
     (\<exists>steps. ct_sql tool = None \<and> ct_steps tool = None \<and> ct_compose tool = Some steps \<and>
        pipeline_ok config tool steps)"

definition tool_ok :: "omnibase_config \<Rightarrow> string \<times> tool_config \<Rightarrow> bool" where
  "tool_ok config nt \<longleftrightarrow>
     (case nt of (name, tool) \<Rightarrow>
       tool_name_ok name \<and> name \<notin> set built_in_tool_names \<and>
       (\<exists>c d. ct_description tool = Some (c # d)) \<and>
       (\<exists>conn. get_connection config (ct_connection tool) = Inr conn) \<and>
       body_ok config tool \<and> (\<forall>(n, p) \<in> set (tool_params tool). param_ok p))"

definition tools_ok :: "omnibase_config \<Rightarrow> bool" where
  "tools_ok config \<longleftrightarrow>
     (\<forall>nt \<in> set (config_tools config). tool_ok config nt) \<and> acyclic (refers_to (compose_edges config))"

section \<open>The patterns\<close>

lemma tool_name_rx_iff: "rx_test tool_name_rx n \<longleftrightarrow> tool_name_ok n"
  unfolding rx_test_iff tool_name_rx_def seq_rx.simps tool_name_ok_def
  by (simp add: rx_seq rx_simps) blast

lemma valid_identifier_rx_iff: "rx_test valid_identifier_rx n \<longleftrightarrow> identifier_ok n"
  unfolding rx_test_iff valid_identifier_rx_def seq_rx.simps identifier_ok_def
  by (simp add: rx_seq rx_simps) blast

section \<open>The checks accept what the specification describes\<close>

lemma nonempty_Some: "nonempty x = Some s \<longleftrightarrow> x = Some s \<and> s \<noteq> []"
  by (auto simp: nonempty_def split: option.splits)

lemma nonempty_None: "nonempty x = None \<longleftrightarrow> \<not> (\<exists>c d. x = Some (c # d))"
  by (auto simp: nonempty_def neq_Nil_conv split: option.splits)

lemma check_compose_step_Inr:
  "check_compose_step config name tool seen step = Inr () \<longleftrightarrow>
     identifier_ok (cs_as step) \<and> cs_as step \<notin> set seen \<and>
     cs_as step \<notin> set (obj_keys (tool_params tool)) \<and> step_target_ok config step"
proof -
  have "identifier_ok (cs_as step) \<Longrightarrow> cs_as step \<noteq> []" by (auto simp: identifier_ok_def)
  then show ?thesis
    by (cases "cs_tool step"; cases "cs_sql step")
      (auto simp: check_compose_step_def bindR_eq_Inr valid_identifier_rx_iff step_target_ok_def
        map_of_eq_None_iff)
qed

lemma check_compose_steps_Inr:
  "check_compose_steps config name tool seen steps = Inr () \<longleftrightarrow>
     distinct (map cs_as steps) \<and> set (map cs_as steps) \<inter> set seen = {} \<and>
     (\<forall>step \<in> set steps. identifier_ok (cs_as step) \<and> cs_as step \<notin> set (obj_keys (tool_params tool)) \<and>
        step_target_ok config step)"
  by (induction steps arbitrary: seen) (auto simp: bindR_eq_Inr check_compose_step_Inr)

lemma validate_compose_pipeline_Inr:
  "validate_compose_pipeline name tool steps config = Inr () \<longleftrightarrow> pipeline_ok config tool steps"
  by (auto simp: validate_compose_pipeline_def bindR_eq_Inr check_compose_steps_Inr pipeline_ok_def)

lemma check_parameter_Inr: "check_parameter name (n, p) = Inr () \<longleftrightarrow> param_ok p"
  by (cases "tp_values p"; cases "the (tp_values p)")
    (auto simp: check_parameter_def bindR_eq_Inr param_ok_def)

lemma check_placeholders_Inr:
  "check_placeholders name tool = Inr () \<longleftrightarrow>
     ct_compose tool \<noteq> None \<or> (\<forall>sql \<in> set (template_sql tool). placeholders_defined tool sql)"
  by (auto simp: check_placeholders_def forR_eq_Inr placeholders_defined_def)

lemma body_checks_Inr:
  "defined_modes tool = 1 \<and> check_steps name tool = Inr () \<and>
     (case ct_compose tool of None \<Rightarrow> Inr () | Some compose \<Rightarrow> validate_compose_pipeline name tool compose config)
       = Inr () \<and> check_placeholders name tool = Inr () \<longleftrightarrow> body_ok config tool"
  by (cases "ct_sql tool"; cases "ct_steps tool"; cases "ct_compose tool")
    (auto simp: defined_modes_def check_steps_def bindR_eq_Inr validate_compose_pipeline_Inr
      check_placeholders_Inr template_sql_def body_ok_def linorder_not_less)

lemma validate_tool_Inr: "validate_tool config (name, tool) = Inr () \<longleftrightarrow> tool_ok config (name, tool)"
proof -
  have modes: "\<not> 1 < defined_modes tool \<and> defined_modes tool \<noteq> 0 \<longleftrightarrow> defined_modes tool = 1" by auto
  have conn: "(case get_connection config (ct_connection tool) of Inr _ \<Rightarrow> Inr () | Inl _ \<Rightarrow> Inl e) = Inr u
      \<longleftrightarrow> (\<exists>c. get_connection config (ct_connection tool) = Inr c)" for e :: error and u :: unit
    by (cases "get_connection config (ct_connection tool)") auto
  show ?thesis
    unfolding validate_tool_def tool_ok_def prod.case bindR_eq_Inr guardR_eq_Inr forR_eq_Inr conn
      nonempty_None tool_name_rx_iff body_checks_Inr [of tool name config, symmetric]
    using modes by (auto simp: check_parameter_Inr)
qed

section \<open>Errors\<close>

text \<open>Every rejection of a tool names the tool and has the code \<open>INVALID_TOOL_CONFIG\<close>.\<close>

definition is_invalid_tool :: "string \<Rightarrow> error \<Rightarrow> bool" where
  "is_invalid_tool name e \<longleftrightarrow> (\<exists>msg. e = invalid_tool name msg)"

lemma check_compose_steps_Inl:
  "check_compose_steps config name tool seen steps = Inl e \<Longrightarrow> is_invalid_tool name e"
  by (induction steps arbitrary: seen)
    (auto simp: bindR_eq_Inl check_compose_step_def is_invalid_tool_def split: option.splits)

lemma validate_tool_Inl:
  "validate_tool config (name, tool) = Inl e \<Longrightarrow> is_invalid_tool name e"
proof -
  assume "validate_tool config (name, tool) = Inl e"
  moreover have "check_steps name tool = Inl e \<Longrightarrow> is_invalid_tool name e"
    by (auto simp: check_steps_def bindR_eq_Inl is_invalid_tool_def split: option.splits)
  moreover have "validate_compose_pipeline name tool c config = Inl e \<Longrightarrow> is_invalid_tool name e" for c
    by (auto simp: validate_compose_pipeline_def bindR_eq_Inl is_invalid_tool_def
        dest: check_compose_steps_Inl)
  moreover have "check_placeholders name tool = Inl e \<Longrightarrow> is_invalid_tool name e"
    by (auto simp: check_placeholders_def is_invalid_tool_def split: if_splits dest!: forR_eq_Inl)
  moreover have "forR (check_parameter name) ps = Inl e \<Longrightarrow> is_invalid_tool name e" for ps
    by (auto simp: check_parameter_def bindR_eq_Inl is_invalid_tool_def dest!: forR_eq_Inl)
  ultimately show ?thesis
    by (auto simp: validate_tool_def bindR_eq_Inl is_invalid_tool_def split: option.splits sum.splits)
qed

section \<open>All tools\<close>

lemma validate_custom_tools_total: "validate_custom_tools config \<noteq> None"
  using detect_total [of config]
  by (simp add: validate_custom_tools_def split: option.split sum.split)

lemma validate_custom_tools_accepts:
  "validate_custom_tools config = Some (Inr ()) \<longleftrightarrow> tools_ok config"
proof (cases "oc_tools config")
  case None
  then show ?thesis
    by (simp add: validate_custom_tools_def tools_ok_def compose_edges_def refers_to_def
        neighbors_def acyclic_def)
next
  case (Some tools)
  have "forR (validate_tool config) tools = Inr () \<longleftrightarrow> (\<forall>nt \<in> set tools. tool_ok config nt)"
    by (auto simp: forR_eq_Inr validate_tool_Inr)
  then show ?thesis
    using Some by (auto simp: validate_custom_tools_def tools_ok_def detect_accepts split: sum.split)
qed

lemma validate_custom_tools_error:
  "validate_custom_tools config = Some (Inl e) \<Longrightarrow>
     (\<exists>name \<in> set (obj_keys (config_tools config)). is_invalid_tool name e) \<or>
     (\<exists>c. is_cycle (compose_edges config) c \<and> e = cycle_error c)"
proof -
  assume err: "validate_custom_tools config = Some (Inl e)"
  then obtain tools where tools: "oc_tools config = Some tools"
    by (auto simp: validate_custom_tools_def split: option.splits)
  show ?thesis
  proof (cases "forR (validate_tool config) tools")
    case (Inl e')
    then obtain n t where "(n, t) \<in> set tools" "validate_tool config (n, t) = Inl e"
      using err tools forR_eq_Inl by (force simp: validate_custom_tools_def)
    then have "n \<in> set (obj_keys (config_tools config))" "is_invalid_tool n e"
      using tools validate_tool_Inl by force+
    then show ?thesis by blast
  next
    case Inr
    then show ?thesis using err tools detect_reports by (auto simp: validate_custom_tools_def)
  qed
qed

end
