(* ===== verification/ToolExecution.thy ===== *)
theory ToolExecution
  imports CustomToolExec ToolValidation
begin

text \<open>
  Correctness of the execution of custom tools (\<open>CustomToolExec\<close>): what is sent to the
  database and in which order, the transaction lock, and termination of nested pipelines.
\<close>

section \<open>Frame lemmas\<close>

text \<open>No statement touches the transaction locks.\<close>

lemma keeps_locks_ensure [keeps_intros]: "keeps (\<lambda>s. cm_transactionLocks s = L) (ensure_connected bk config)"
  unfolding keeps_def ensure_connected_run by (auto split: prod.split sum.split)

lemma keeps_locks_tool_execute [keeps_intros]:
  "keeps (\<lambda>s. cm_transactionLocks s = L) (tool_execute env conn tool sql values)"
  unfolding tool_execute_def cm_execute_def by (intro keeps_intros) simp_all

lemma keeps_locks_invalidate [keeps_intros]:
  "keeps (\<lambda>s. cm_transactionLocks s = L) (invalidate_on_change n c)"
  unfolding invalidate_on_change_def invalidate_schema_cache_def by (intro keeps_intros) simp_all

lemma keeps_locks_tool_log [keeps_intros]:
  "keeps (\<lambda>s. cm_transactionLocks s = L) (tool_log env n c q ps t rows st e)"
  unfolding tool_log_def audit_log_def by (intro keeps_intros) simp_all

lemma locks_same:
  "(\<And>L. keeps (\<lambda>s. cm_transactionLocks s = L) m) \<Longrightarrow> m s = (r, s') \<Longrightarrow>
     cm_transactionLocks s' = cm_transactionLocks s"
  using keeps_run by (metis (mono_tags, lifting))

text \<open>A statement never hangs, and once connected the connection stays.\<close>

definition settles :: "('s, 'a) io \<Rightarrow> bool" where
  "settles m \<longleftrightarrow> (\<forall>s. fst (m s) \<noteq> Hang)"

lemma settles_basic [simp]: "settles (ret a)" "settles (throw e)" "settles (gets f)" "settles (modify g)"
    "settles (liftR r)"
  by (simp_all add: settles_def run_simps split: sum.split)

lemma settles_bindM [intro]: "settles m \<Longrightarrow> (\<And>a. settles (f a)) \<Longrightarrow> settles (bindM m f)"
  unfolding settles_def bindM_def by (auto split: prod.split outcome.split) (metis fst_conv)

lemma settles_try_catch [intro]: "settles m \<Longrightarrow> (\<And>e. settles (h e)) \<Longrightarrow> settles (try_catch m h)"
  unfolding settles_def try_catch_def by (auto split: prod.split outcome.split) (metis fst_conv)

lemma settles_call_backend [simp]: "settles (call_backend f)"
  by (simp add: settles_def call_backend_run split: prod.split sum.split)

lemma settles_ensure_connected [simp]: "settles (ensure_connected bk config)"
  by (simp add: settles_def ensure_connected_run split: prod.split sum.split)

lemma settles_tool_execute [simp]: "settles (tool_execute env conn tool sql values)"
  unfolding tool_execute_def cm_execute_def by (intro settles_bindM) simp_all

lemma settles_tool_log [simp]: "settles (tool_log env n c q ps t rows st e)"
  unfolding tool_log_def audit_log_def by (intro settles_bindM) simp_all

lemma settles_invalidate [simp]: "settles (invalidate_on_change n c)"
  by (simp add: invalidate_on_change_def invalidate_schema_cache_def)

section \<open>The statements that are sent\<close>

text \<open>
  An observer of the world that records the statements in the order of their arrival:
  \<open>tr\<close> is extended by every statement and by nothing else that the executor does.
\<close>

definition records :: "'w backend \<Rightarrow> ('w \<Rightarrow> string list) \<Rightarrow> bool" where
  "records bk tr \<longleftrightarrow>
     (\<forall>i dsn w. tr (snd (bk_connect bk i dsn w)) = tr w) \<and>
     (\<forall>i q ps opts w. tr (snd (bk_execute bk i q ps opts w)) = tr w @ [q])"

text \<open>One statement on a live connection.\<close>

lemma tool_execute_live:
  assumes "records (te_backend env) tr" "cc_name conn \<in> cm_connectedIds s"
    and "tool_execute env conn tool sql values s = (r, s')"
  shows "r \<noteq> Hang \<and> cm_connectedIds s' = cm_connectedIds s \<and>
     cm_transactionLocks s' = cm_transactionLocks s \<and> tr (sys_world s') = tr (sys_world s) @ [sql]"
proof -
  obtain q w where run: "bk_execute (te_backend env) (cc_name conn) sql (Some values)
      (tool_options conn tool) (sys_world s) = (q, w)" by fastforce
  have opts: "\<lparr>eo_maxRows = Some (or_else (eo_maxRows (tool_options conn tool)) (cc_maxRows conn)),
      eo_timeoutMs = Some (or_else (eo_timeoutMs (tool_options conn tool)) (cc_timeout conn))\<rparr>
      = tool_options conn tool"
    by (simp add: tool_options_def)
  have "tr w = tr (sys_world s) @ [sql]"
    using assms(1) run unfolding records_def by (metis snd_conv)
  then show ?thesis
    using assms(2,3) run
    by (auto simp: tool_execute_def cm_execute_def bindM_run ensure_connected_run opts call_backend_run
        split: sum.splits)
qed

lemma invalidate_frame:
  "invalidate_on_change n c s = (r, s') \<Longrightarrow>
     r = Ret () \<and> sys_world s' = sys_world s \<and> cm_connectedIds s' = cm_connectedIds s \<and>
     cm_transactionLocks s' = cm_transactionLocks s"
  by (auto simp: invalidate_on_change_def invalidate_schema_cache_def run_simps split: if_splits)

abbreviation drops :: "string list \<Rightarrow> string list" where
  "drops tables \<equiv> map (\<lambda>t. ''DROP TABLE IF EXISTS '' @ t) tables"

abbreviation temp_tables :: "string list \<Rightarrow> string list" where
  "temp_tables sqls \<equiv> List.map_filter temp_table_of sqls"

lemma drop_temp_tables_live:
  assumes "records (te_backend env) tr" "cc_name conn \<in> cm_connectedIds s"
    and "drop_temp_tables env conn tool tables s = (r, s')"
  shows "r = Ret () \<and> cm_connectedIds s' = cm_connectedIds s \<and>
     cm_transactionLocks s' = cm_transactionLocks s \<and>
     tr (sys_world s') = tr (sys_world s) @ drops tables"
  using assms(2,3)
proof (induction tables arbitrary: s)
  case Nil
  then show ?case by (simp add: run_simps)
next
  case (Cons table tables)
  obtain q s1 where run: "tool_execute env conn tool (''DROP TABLE IF EXISTS '' @ table) [] s = (q, s1)"
    by fastforce
  note one = tool_execute_live [OF assms(1) Cons.prems(1) run]
  have "drop_temp_tables env conn tool tables s1 = (r, s')"
    using Cons.prems(2) run one
    by (cases q) (auto simp: best_effort_def run_simps)
  with Cons.IH [of s1] one Cons.prems(1) show ?case by simp
qed

abbreviation step_sql :: "tool_step \<times> string \<times> jsval list \<Rightarrow> string" where
  "step_sql x \<equiv> fst (snd x)"

text \<open>
  The loop over the steps: it sends a prefix of the statements, all of them when it
  returns, and remembers the temporary tables of the ones that succeeded.
\<close>

lemma run_steps_live:
  assumes "records (te_backend env) tr" "cc_name conn \<in> cm_connectedIds s"
    and "run_steps env conn tool xs (s, v) = (r, (s', v'))"
  shows "cm_connectedIds s' = cm_connectedIds s \<and> cm_transactionLocks s' = cm_transactionLocks s \<and>
     (r = Ret () \<and> tr (sys_world s') = tr (sys_world s) @ map step_sql xs \<and>
        sv_tempTables v' = sv_tempTables v @ temp_tables (map step_sql xs) \<and>
        (xs \<noteq> [] \<or> sv_lastResult v \<noteq> None \<longrightarrow> sv_lastResult v' \<noteq> None) \<or>
      (\<exists>e k. r = Throw e \<and> k < length xs \<and>
         tr (sys_world s') = tr (sys_world s) @ take (Suc k) (map step_sql xs) \<and>
         sv_tempTables v' = sv_tempTables v @ temp_tables (take k (map step_sql xs))))"
  using assms(2,3)
proof (induction xs arbitrary: s v)
  case Nil
  then show ?case by (simp add: run_simps List.map_filter_simps)
next
  case (Cons x xs)
  obtain step sql vals where x: "x = (step, sql, vals)" by (cases x)
  obtain q s1 where run: "tool_execute env conn tool sql vals s = (q, s1)" by fastforce
  note one = tool_execute_live [OF assms(1) Cons.prems(1) run]
  show ?case
  proof (cases q)
    case Hang
    then show ?thesis using one by simp
  next
    case (Throw e)
    then have "r = Throw e" "s' = s1" "v' = v"
      using Cons.prems(2) run x by (simp_all add: bindM_run on_sys_def)
    then show ?thesis
      using one x by (auto simp: List.map_filter_simps intro!: exI [of _ "0::nat"])
  next
    case (Ret res)
    obtain q2 s2 where inv: "invalidate_on_change (cc_name conn) (classify_query (te_astify env) sql) s1 = (q2, s2)"
      by fastforce
    note two = invalidate_frame [OF inv]
    obtain v2 where rest: "run_steps env conn tool xs (s2, v2) = (r, (s', v'))"
      and v2: "sv_tempTables v2 = sv_tempTables v @ temp_tables [sql]" "sv_lastResult v2 \<noteq> None"
      using Cons.prems(2) run inv x Ret two
      by (cases "temp_table_of sql")
        (auto simp: run_simps on_sys_def on_vars_def List.map_filter_simps split: if_splits)
    have "cc_name conn \<in> cm_connectedIds s2" using Cons.prems(1) one two by simp
    note IH = Cons.IH [OF this rest]
    from IH show ?thesis
    proof (elim conjE disjE exE)
      assume "r = Ret ()"
        and "tr (sys_world s') = tr (sys_world s2) @ map step_sql xs"
        and "sv_tempTables v' = sv_tempTables v2 @ temp_tables (map step_sql xs)"
        and "xs \<noteq> [] \<or> sv_lastResult v2 \<noteq> None \<longrightarrow> sv_lastResult v' \<noteq> None"
        and "cm_connectedIds s' = cm_connectedIds s2"
        and "cm_transactionLocks s' = cm_transactionLocks s2"
      then show ?thesis using one two v2 x by (auto simp: List.map_filter_simps split: option.splits)
    next
      fix e k
      assume "r = Throw e" "k < length xs"
        and "tr (sys_world s') = tr (sys_world s2) @ take (Suc k) (map step_sql xs)"
        and "sv_tempTables v' = sv_tempTables v2 @ temp_tables (take k (map step_sql xs))"
        and "cm_connectedIds s' = cm_connectedIds s2"
        and "cm_transactionLocks s' = cm_transactionLocks s2"
      then show ?thesis
        using one two v2 x
        by (auto simp: List.map_filter_simps split: option.splits intro!: exI [of _ "Suc k"])
    qed
  qed
qed


text \<open>
  The \<open>try\<close> block with its handlers: all statements and \<open>COMMIT\<close>, or a prefix of them
  and \<open>ROLLBACK\<close>; then the temporary tables of the statements that succeeded are dropped and
  the lock is released.
\<close>

definition committed_log :: "string list \<Rightarrow> string list" where
  "committed_log sqls = sqls @ [''COMMIT''] @ drops (temp_tables sqls)"

definition rolled_back_log :: "string list \<Rightarrow> nat \<Rightarrow> string list" where
  "rolled_back_log sqls k = take (Suc k) (sqls @ [''COMMIT'']) @ [''ROLLBACK''] @ drops (temp_tables (take k sqls))"

lemma best_effort_live:
  assumes "records (te_backend env) tr" "cc_name conn \<in> cm_connectedIds s"
  shows "\<exists>s'. best_effort (tool_execute env conn tool sql vals) s = (Ret (), s') \<and>
     cm_connectedIds s' = cm_connectedIds s \<and> cm_transactionLocks s' = cm_transactionLocks s \<and>
     tr (sys_world s') = tr (sys_world s) @ [sql]"
proof -
  obtain q s1 where run: "tool_execute env conn tool sql vals s = (q, s1)" by fastforce
  show ?thesis
    using tool_execute_live [OF assms run] run by (cases q) (auto simp: best_effort_def run_simps)
qed

lemma on_sys_run [run_simps]: "on_sys m (s, v) = (case m s of (r, s') \<Rightarrow> (r, (s', v)))"
  by (simp add: on_sys_def)

lemma steps_catch_live:
  assumes "records (te_backend env) tr" "cc_name conn \<in> cm_connectedIds s"
  shows "\<exists>s'. steps_catch env conn tool e (s, v) = (Throw e, (s', v)) \<and>
     cm_connectedIds s' = cm_connectedIds s \<and> cm_transactionLocks s' = cm_transactionLocks s \<and>
     tr (sys_world s') = tr (sys_world s) @ [''ROLLBACK'']"
  using best_effort_live [OF assms, of tool "''ROLLBACK''" "[]"]
  by (auto simp: steps_catch_def bindM_run on_sys_run throw_run)

lemma steps_finally_live:
  assumes "records (te_backend env) tr" "cc_name conn \<in> cm_connectedIds s"
  shows "\<exists>s'. steps_finally env conn tool (s, v) = (Ret (), (s', v)) \<and>
     cm_transactionLocks s' = cm_transactionLocks s - {cc_name conn} \<and>
     tr (sys_world s') = tr (sys_world s) @ drops (sv_tempTables v)"
proof -
  obtain q s1 where drop: "drop_temp_tables env conn tool (sv_tempTables v) s = (q, s1)" by fastforce
  show ?thesis
    using drop_temp_tables_live [OF assms drop] drop
    by (auto simp: steps_finally_def bindM_run gets_run on_sys_run release_transaction_lock_def modify_run)
qed

text \<open>The body of the \<open>try\<close> block.\<close>

definition steps_body ::
    "'w tool_env \<Rightarrow> connection_config \<Rightarrow> tool_config \<Rightarrow> (tool_step \<times> string \<times> jsval list) list \<Rightarrow>
       ('w sys \<times> step_vars, unit) io" where
  "steps_body env conn tool xs =
     bindM (run_steps env conn tool xs) (\<lambda>_.
     bindM (on_sys (tool_execute env conn tool ''COMMIT'' [])) (\<lambda>_. ret ()))"

lemma steps_body_live:
  assumes rec: "records (te_backend env) tr" and live: "cc_name conn \<in> cm_connectedIds s"
    and run: "steps_body env conn tool xs (s, no_step_vars) = (r, (s', v'))"
  shows "cm_connectedIds s' = cm_connectedIds s \<and> cm_transactionLocks s' = cm_transactionLocks s \<and>
     (r = Ret () \<and> tr (sys_world s') = tr (sys_world s) @ map step_sql xs @ [''COMMIT''] \<and>
        sv_tempTables v' = temp_tables (map step_sql xs) \<and> (xs \<noteq> [] \<longrightarrow> sv_lastResult v' \<noteq> None) \<or>
      (\<exists>e k. r = Throw e \<and> k \<le> length xs \<and>
         tr (sys_world s') = tr (sys_world s) @ take (Suc k) (map step_sql xs @ [''COMMIT'']) \<and>
         sv_tempTables v' = temp_tables (take k (map step_sql xs))))"
proof -
  obtain r1 s1 v1 where steps: "run_steps env conn tool xs (s, no_step_vars) = (r1, (s1, v1))"
    by (metis prod.collapse)
  have none: "sv_tempTables no_step_vars = []" by (simp add: no_step_vars_def)
  note loop = run_steps_live [OF rec live steps]
  show ?thesis
  proof (cases r1)
    case (Ret u)
    obtain q s2 where commit: "tool_execute env conn tool ''COMMIT'' [] s1 = (q, s2)" by fastforce
    have live1: "cc_name conn \<in> cm_connectedIds s1" using loop live by auto
    note last = tool_execute_live [OF rec live1 commit]
    have all: "tr (sys_world s1) = tr (sys_world s) @ map step_sql xs"
      "sv_tempTables v1 = temp_tables (map step_sql xs)" "xs \<noteq> [] \<longrightarrow> sv_lastResult v1 \<noteq> None"
      and same: "cm_connectedIds s1 = cm_connectedIds s" "cm_transactionLocks s1 = cm_transactionLocks s"
      using loop Ret none by auto
    have same2: "cm_connectedIds s2 = cm_connectedIds s" "cm_transactionLocks s2 = cm_transactionLocks s"
      "tr (sys_world s2) = tr (sys_world s) @ map step_sql xs @ [''COMMIT'']"
      using last all same by auto
    show ?thesis
    proof (cases q)
      case (Ret res)
      then have "(r, s', v') = (Ret (), s2, v1)"
        using run steps commit \<open>r1 = Ret u\<close> by (simp add: steps_body_def bindM_run on_sys_run ret_run)
      then show ?thesis using all same2 by simp
    next
      case (Throw e)
      then have "(r, s', v') = (Throw e, s2, v1)"
        using run steps commit \<open>r1 = Ret u\<close> by (simp add: steps_body_def bindM_run on_sys_run)
      then show ?thesis using all same2 by (auto intro!: exI [of _ "length xs"])
    qed (use last in simp)
  next
    case (Throw e)
    with loop obtain k where "k < length xs"
      "tr (sys_world s1) = tr (sys_world s) @ take (Suc k) (map step_sql xs)"
      "sv_tempTables v1 = temp_tables (take k (map step_sql xs))"
      using none by auto
    then show ?thesis
      using loop run Throw steps
      by (auto simp: steps_body_def bindM_run intro!: exI [of _ k])
  qed (use loop in simp)
qed

lemma steps_transaction_live:
  assumes rec: "records (te_backend env) tr" and live: "cc_name conn \<in> cm_connectedIds s"
    and run: "steps_transaction env conn tool sub (s, no_step_vars) = (r, (s', v'))"
    and xs: "xs = zip (or_else (ct_steps tool) []) sub"
  shows "cm_transactionLocks s' = cm_transactionLocks s - {cc_name conn} \<and>
     (r = Ret () \<and> tr (sys_world s') = tr (sys_world s) @ committed_log (map step_sql xs) \<and>
        (xs \<noteq> [] \<longrightarrow> sv_lastResult v' \<noteq> None) \<or>
      (\<exists>e k. r = Throw e \<and> k \<le> length xs \<and>
         tr (sys_world s') = tr (sys_world s) @ rolled_back_log (map step_sql xs) k))"
proof -
  obtain r1 s1 v1 where body: "steps_body env conn tool xs (s, no_step_vars) = (r1, (s1, v1))"
    by (metis prod.collapse)
  note b = steps_body_live [OF rec live body]
  have live1: "cc_name conn \<in> cm_connectedIds s1" using b live by auto
  have unfold: "steps_transaction env conn tool sub =
      try_finally (try_catch (steps_body env conn tool xs) (steps_catch env conn tool))
        (steps_finally env conn tool)"
    by (simp add: steps_transaction_def steps_body_def xs)
  show ?thesis
  proof (cases r1)
    case (Ret u)
    obtain s2 where fin: "steps_finally env conn tool (s1, v1) = (Ret (), (s2, v1))"
      "cm_transactionLocks s2 = cm_transactionLocks s1 - {cc_name conn}"
      "tr (sys_world s2) = tr (sys_world s1) @ drops (sv_tempTables v1)"
      using steps_finally_live [OF rec live1] by blast
    have "(r, s', v') = (Ret (), s2, v1)"
      using run body Ret fin(1) by (simp add: unfold try_finally_run try_catch_run bindM_run ret_run)
    then show ?thesis using b Ret fin by (simp add: committed_log_def)
  next
    case (Throw e)
    then obtain k where k: "k \<le> length xs"
      "tr (sys_world s1) = tr (sys_world s) @ take (Suc k) (map step_sql xs @ [''COMMIT''])"
      "sv_tempTables v1 = temp_tables (take k (map step_sql xs))"
      using b by auto
    obtain s2 where handler: "steps_catch env conn tool e (s1, v1) = (Throw e, (s2, v1))"
      "cm_connectedIds s2 = cm_connectedIds s1" "cm_transactionLocks s2 = cm_transactionLocks s1"
      "tr (sys_world s2) = tr (sys_world s1) @ [''ROLLBACK'']"
      using steps_catch_live [OF rec live1] by blast
    have "cc_name conn \<in> cm_connectedIds s2" using live1 handler(2) by simp
    from steps_finally_live [OF rec this]
    obtain s3 where fin: "steps_finally env conn tool (s2, v1) = (Ret (), (s3, v1))"
      "cm_transactionLocks s3 = cm_transactionLocks s2 - {cc_name conn}"
      "tr (sys_world s3) = tr (sys_world s2) @ drops (sv_tempTables v1)"
      by blast
    have "(r, s', v') = (Throw e, s3, v1)"
      using run body Throw handler(1) fin(1)
      by (simp add: unfold try_finally_run try_catch_run bindM_run throw_run)
    then show ?thesis using b k fin handler by (auto simp: rolled_back_log_def)
  qed (use b in simp)
qed

end
