(* ===== verification/StepsTools.thy ===== *)
theory StepsTools
  imports ToolExecution
begin

text \<open>
  Multi-step tools as a whole (\<open>executeStepsRaw\<close> in \<open>src/custom-tools.ts\<close>): what the guards
  establish for every step, the shape of the transaction, and the fate of the lock.
\<close>

section \<open>What the guards establish\<close>

lemma max_category:
  "(if category_rank c > category_rank m then c else m) = max c m" for c :: query_category
  by (simp add: max_def less_eq_query_category_def not_le)

lemma prepare_steps_Inr:
  "prepare_steps astify conn defs args steps m0 = Inr (sub, m) \<Longrightarrow>
     list_all2 (\<lambda>step sv. substitute_parameters (ts_sql step) args defs = Inr sv \<and>
        check_sql_security (fst sv) (cc_allowAllPragmas conn) = Inr ()) steps sub \<and>
     m = fold max (map (\<lambda>sv. classify_query astify (fst sv)) sub) m0"
proof (induction steps arbitrary: m0 sub)
  case Nil
  then show ?case by simp
next
  case (Cons step steps)
  then show ?case
    by (fastforce simp: bindR_eq_Inr Let_def max_category split: prod.splits)
qed

lemma steps_guards_Inr:
  assumes "steps_guards env tool args = Inr (conn, sub)"
  shows "get_connection (te_config env) (ct_connection tool) = Inr conn \<and>
     list_all2 (\<lambda>step sv. substitute_parameters (ts_sql step) args (tool_params tool) = Inr sv)
       (or_else (ct_steps tool) []) sub \<and>
     (\<forall>(sql, vs) \<in> set sub. check_sql_security sql (cc_allowAllPragmas conn) = Inr () \<and>
        classify_query (te_astify env) sql \<in> permission_hierarchy (effective_permission conn tool))"
proof -
  obtain m where conn: "get_connection (te_config env) (ct_connection tool) = Inr conn"
    and prep: "prepare_steps (te_astify env) conn (tool_params tool) args (or_else (ct_steps tool) []) Read
        = Inr (sub, m)"
    and allowed: "enforce_permission (cc_name conn) (effective_permission conn tool) m = Inr ()"
    using assms by (auto simp: steps_guards_def bindR_eq_Inr)
  note p = prepare_steps_Inr [OF prep]
  have "enforce_permission (cc_name conn) (effective_permission conn tool)
      (fold max (map (\<lambda>sv. classify_query (te_astify env) (fst sv)) sub) Read) = Inr ()"
    using allowed p by simp
  from pg.gate_fold_max [OF this]
  have each: "\<forall>sv \<in> set sub. classify_query (te_astify env) (fst sv) \<in>
      permission_hierarchy (effective_permission conn tool)"
    by simp
  have "\<forall>sv \<in> set sub. check_sql_security (fst sv) (cc_allowAllPragmas conn) = Inr ()"
    using p by (force simp: list_all2_conv_all_nth in_set_conv_nth)
  moreover have "list_all2 (\<lambda>step sv. substitute_parameters (ts_sql step) args (tool_params tool) = Inr sv)
       (or_else (ct_steps tool) []) sub"
    using p by (auto elim: list_all2_mono)
  ultimately show ?thesis using conn each by auto
qed

section \<open>The transaction\<close>

definition lock_taken :: "string \<Rightarrow> 'w sys \<Rightarrow> 'w sys" where
  "lock_taken name s = s\<lparr>cm_transactionLocks := insert name (cm_transactionLocks s)\<rparr>"

lemma steps_raw_refused:
  "steps_guards env tool args = Inl e \<Longrightarrow> execute_steps_raw env tool args s = (Throw e, s)"
  by (simp add: execute_steps_raw_def run_simps)

lemma steps_raw_locked:
  "steps_guards env tool args = Inr (conn, sub) \<Longrightarrow> cc_name conn \<in> cm_transactionLocks s \<Longrightarrow>
     execute_steps_raw env tool args s = (Hang, s)"
  by (simp add: execute_steps_raw_def run_simps acquire_transaction_lock_def)

lemma steps_raw_unlocked:
  "steps_guards env tool args = Inr (conn, sub) \<Longrightarrow> cc_name conn \<notin> cm_transactionLocks s \<Longrightarrow>
     execute_steps_raw env tool args s =
       (case tool_execute env conn tool ''BEGIN'' [] (lock_taken (cc_name conn) s) of
          (Ret _, s1) \<Rightarrow> steps_result (steps_transaction env conn tool sub (s1, no_step_vars))
        | (Throw e, s1) \<Rightarrow> (Throw e, s1)
        | (Hang, s1) \<Rightarrow> (Hang, s1))"
  by (simp add: execute_steps_raw_def bindM_run liftR_run acquire_transaction_lock_def lock_taken_def)

lemma snd_steps_result: "snd (steps_result (r, (s, v))) = s"
  by (simp add: steps_result_def)

lemma steps_result_Hang: "fst (steps_result (r, (s, v))) = Hang \<longleftrightarrow> r = Hang"
  by (simp add: steps_result_def split: outcome.split option.split)

lemma keeps_steps_result:
  "keeps (\<lambda>(s, v). P s) m \<Longrightarrow> keeps P (\<lambda>s. steps_result (m (s, v0)))"
  unfolding keeps_def
proof (intro allI impI)
  fix s
  assume m: "\<forall>s. (case s of (s, v) \<Rightarrow> P s) \<longrightarrow> (case snd (m s) of (s, v) \<Rightarrow> P s)" and "P s"
  obtain r s' v where run: "m (s, v0) = (r, (s', v))" by (metis prod.collapse)
  have "case snd (m (s, v0)) of (s, v) \<Rightarrow> P s" using m [rule_format, of "(s, v0)"] \<open>P s\<close> by simp
  then have "P s'" by (simp add: run)
  then show "P (snd (steps_result (m (s, v0))))" by (simp add: run snd_steps_result)
qed

lemma begin_live:
  assumes "tool_execute env conn tool sql vals s = (Ret b, s1)"
  shows "cc_name conn \<in> cm_connectedIds s1"
proof -
  obtain s0 where "ensure_connected (te_backend env) conn s = (Ret (), s0)"
    "cm_connectedIds s1 = cm_connectedIds s0"
    using assms by (auto simp: tool_execute_def cm_execute_def bindM_run call_backend_run
        split: prod.splits outcome.splits sum.splits)
  then show ?thesis using ensure_connected_Ret by fastforce
qed

lemma begin_trace:
  assumes "records (te_backend env) tr" "tool_execute env conn tool sql vals s = (Ret b, s1)"
  shows "tr (sys_world s1) = tr (sys_world s) @ [sql]"
proof -
  obtain s0 where ens: "ensure_connected (te_backend env) conn s = (Ret (), s0)"
    and run: "tool_execute env conn tool sql vals s0 = (Ret b, s1)"
    using assms(2) ensure_connected_again [of "te_backend env" conn s]
    by (auto simp: tool_execute_def cm_execute_def bindM_run split: prod.splits outcome.splits)
  have "tr (sys_world s0) = tr (sys_world s)"
    using ens assms(1) unfolding ensure_connected_run records_def
    by (auto split: if_splits prod.splits sum.splits) (metis snd_conv)
  then show ?thesis
    using tool_execute_live [OF assms(1) _ run] ens ensure_connected_Ret by fastforce
qed

lemma steps_raw_transaction:
  assumes rec: "records (te_backend env) tr"
    and guards: "steps_guards env tool args = Inr (conn, sub)"
    and free: "cc_name conn \<notin> cm_transactionLocks s"
    and begun: "tool_execute env conn tool ''BEGIN'' [] (lock_taken (cc_name conn) s) = (Ret b, s1)"
    and nonempty: "sub \<noteq> []"
    and run: "execute_steps_raw env tool args s = (r, s')"
  shows "cm_transactionLocks s' = cm_transactionLocks s \<and>
     ((\<exists>res. r = Ret res) \<and> tr (sys_world s') = tr (sys_world s) @ ''BEGIN'' # committed_log (map fst sub) \<or>
      (\<exists>e k. r = Throw e \<and> k \<le> length sub \<and>
         tr (sys_world s') = tr (sys_world s) @ ''BEGIN'' # rolled_back_log (map fst sub) k))"
proof -
  let ?xs = "zip (or_else (ct_steps tool) []) sub"
  have len: "length (or_else (ct_steps tool) []) = length sub"
    using steps_guards_Inr [OF guards] by (auto dest: list_all2_lengthD)
  have sqls: "map step_sql ?xs = map fst sub"
    using len by (simp add: map_snd_zip flip: map_map [unfolded comp_def])
  have lenx: "length ?xs = length sub" "?xs \<noteq> []" using len nonempty by (auto simp: zip_eq_Nil_iff)
  obtain q s2 v where tx: "steps_transaction env conn tool sub (s1, no_step_vars) = (q, (s2, v))"
    by (metis prod.collapse)
  note t = steps_transaction_live [OF rec begin_live [OF begun] tx refl, unfolded sqls lenx(1)]
  have start: "tr (sys_world s1) = tr (sys_world s) @ [''BEGIN'']"
    using begin_trace [OF rec begun] by (simp add: lock_taken_def)
  have "cm_transactionLocks s1 = insert (cc_name conn) (cm_transactionLocks s)"
    using locks_same [OF keeps_locks_tool_execute begun] by (simp add: lock_taken_def)
  then have locks: "cm_transactionLocks s2 = cm_transactionLocks s"
    using t free by auto
  show ?thesis
  proof (cases q)
    case (Ret u)
    then have "\<exists>res. (r, s') = (Ret res, s2)"
      using run t lenx(2) unfolding steps_raw_unlocked [OF guards free] begun
      by (auto simp: tx steps_result_def split: option.splits)
    then show ?thesis using t Ret start locks by auto
  next
    case (Throw e)
    then have "(r, s') = (Throw e, s2)"
      using run unfolding steps_raw_unlocked [OF guards free] begun by (simp add: tx steps_result_def)
    then show ?thesis using t Throw start locks by auto
  qed (use t in simp)
qed

text \<open>When \<open>BEGIN\<close> fails, the call throws and the lock is never released: the next call waits forever.\<close>

lemma steps_raw_begin_fails:
  assumes guards: "steps_guards env tool args = Inr (conn, sub)"
    and free: "cc_name conn \<notin> cm_transactionLocks s"
    and failed: "tool_execute env conn tool ''BEGIN'' [] (lock_taken (cc_name conn) s) = (Throw e, s1)"
  shows "execute_steps_raw env tool args s = (Throw e, s1) \<and> cc_name conn \<in> cm_transactionLocks s1"
  using locks_same [OF keeps_locks_tool_execute failed] failed
  by (simp add: steps_raw_unlocked [OF guards free] lock_taken_def)

section \<open>The lock over a whole call\<close>

lemma settles_best_effort [simp]: "settles (best_effort (tool_execute env conn tool sql vals))"
  unfolding best_effort_def by (intro settles_try_catch settles_bindM) simp_all

lemma settles_try_finally: "settles m \<Longrightarrow> settles fin \<Longrightarrow> settles (try_finally m fin)"
  unfolding settles_def try_finally_run
  by (auto simp: bindM_run ret_run throw_run split: prod.splits outcome.splits) (metis fst_conv)+

lemma best_effort_returns: "settles m \<Longrightarrow> fst (best_effort m s) = Ret ()"
  by (auto simp: best_effort_def run_simps settles_def split: prod.splits outcome.splits) (metis fst_conv)

lemma drop_temp_tables_returns: "fst (drop_temp_tables env conn tool tables s) = Ret ()"
proof (induction tables arbitrary: s)
  case Nil
  then show ?case by (simp add: run_simps)
next
  case (Cons t ts)
  obtain q s1 where run: "best_effort (tool_execute env conn tool (''DROP TABLE IF EXISTS '' @ t) []) s = (q, s1)"
    by fastforce
  have "q = Ret ()"
    using best_effort_returns [OF settles_tool_execute, of env conn tool "''DROP TABLE IF EXISTS '' @ t" "[]" s] run
    by simp
  then show ?case using Cons run by (simp add: bindM_run)
qed

lemma settles_drop_temp_tables [simp]: "settles (drop_temp_tables env conn tool tables)"
  by (induction tables) (auto intro!: settles_bindM)

lemma settles_on_sys [intro]: "settles m \<Longrightarrow> settles (on_sys m)"
  by (auto simp: settles_def on_sys_def split: prod.split) (metis fst_conv)

lemma settles_run_steps: "settles (run_steps env conn tool xs)"
  by (induction env conn tool xs rule: run_steps.induct)
    (auto simp: on_vars_def intro!: settles_bindM settles_on_sys)

lemma settles_steps_transaction: "settles (steps_transaction env conn tool sub)"
proof -
  have fin: "settles (steps_finally env conn tool)"
    unfolding steps_finally_def release_transaction_lock_def by (intro settles_bindM settles_on_sys) simp_all
  have body: "settles (try_catch
      (bindM (run_steps env conn tool (zip (or_else (ct_steps tool) []) sub)) (\<lambda>_.
         bindM (on_sys (tool_execute env conn tool ''COMMIT'' [])) (\<lambda>_. ret ())))
      (steps_catch env conn tool))"
    unfolding steps_catch_def by (intro settles_try_catch settles_bindM settles_on_sys settles_run_steps) simp_all
  then show ?thesis
    using fin unfolding steps_transaction_def by (rule settles_try_finally)
qed

lemma keeps_best_effort [keeps_intros]: "keeps P m \<Longrightarrow> keeps P (best_effort m)"
  unfolding best_effort_def by (intro keeps_intros)

lemma keeps_on_sys [keeps_intros]: "keeps P m \<Longrightarrow> keeps (\<lambda>(s, v). P s) (on_sys m)"
  by (auto simp: keeps_def on_sys_def split: prod.split)

lemma keeps_on_vars [keeps_intros]: "keeps (\<lambda>(s, v). P s) (on_vars f)"
  unfolding on_vars_def by (intro keeps_modify) auto

lemma keeps_drop_temp_tables [keeps_intros]:
  "(\<And>table. keeps P (tool_execute env conn tool (''DROP TABLE IF EXISTS '' @ table) [])) \<Longrightarrow>
     keeps P (drop_temp_tables env conn tool tables)"
  by (induction tables) (auto intro!: keeps_intros)

lemma keeps_run_steps [keeps_intros]:
  "(\<And>step sql vals. (step, sql, vals) \<in> set xs \<Longrightarrow> keeps P (tool_execute env conn tool sql vals)) \<Longrightarrow>
   (\<And>c. keeps P (invalidate_on_change (cc_name conn) c)) \<Longrightarrow>
     keeps (\<lambda>(s, v). P s) (run_steps env conn tool xs)"
proof (induction xs)
  case Nil
  then show ?case by (simp add: keeps_ret)
next
  case (Cons x xs)
  obtain step sql vals where x: "x = (step, sql, vals)" by (cases x)
  have "keeps (\<lambda>(s, v). P s) (run_steps env conn tool xs)" by (rule Cons.IH) (use Cons.prems in auto)
  moreover have "keeps P (tool_execute env conn tool sql vals)"
    by (rule Cons.prems(1) [of step]) (simp add: x)
  ultimately show ?case
    unfolding x run_steps.simps using Cons.prems(2) by (intro keeps_intros)
qed

text \<open>The transaction block releases the lock, and only that one.\<close>

lemma steps_transaction_locks:
  assumes "steps_transaction env conn tool sub (s, v) = (r, (s', v'))"
  shows "cm_transactionLocks s' = cm_transactionLocks s - {cc_name conn}"
proof -
  let ?body = "try_catch
      (bindM (run_steps env conn tool (zip (or_else (ct_steps tool) []) sub)) (\<lambda>_.
         bindM (on_sys (tool_execute env conn tool ''COMMIT'' [])) (\<lambda>_. ret ())))
      (steps_catch env conn tool)"
  obtain r1 s1 v1 where body: "?body (s, v) = (r1, (s1, v1))" by (metis prod.collapse)
  have "keeps (\<lambda>(s', v). cm_transactionLocks s' = cm_transactionLocks s) ?body"
    unfolding steps_catch_def by (intro keeps_intros)
  from keeps_run [OF this _ body] have locks1: "cm_transactionLocks s1 = cm_transactionLocks s" by simp
  obtain q s2 where drop: "drop_temp_tables env conn tool (sv_tempTables v1) s1 = (q, s2)" by fastforce
  have q: "q = Ret ()" using drop_temp_tables_returns [of env conn tool "sv_tempTables v1" s1] drop by simp
  have "keeps (\<lambda>s. cm_transactionLocks s = L) (drop_temp_tables env conn tool (sv_tempTables v1))" for L
    by (intro keeps_intros)
  from locks_same [OF this drop] have locks2: "cm_transactionLocks s2 = cm_transactionLocks s1" .
  have not_hang: "r1 \<noteq> Hang"
  proof -
    have "settles ?body"
      unfolding steps_catch_def by (intro settles_try_catch settles_bindM settles_on_sys settles_run_steps) simp_all
    then show ?thesis using body unfolding settles_def by (metis fst_conv)
  qed
  have fin: "steps_finally env conn tool (s1, v1) =
      (Ret (), (s2\<lparr>cm_transactionLocks := cm_transactionLocks s2 - {cc_name conn}\<rparr>, v1))"
    using drop q by (simp add: steps_finally_def bindM_run gets_run on_sys_run release_transaction_lock_def modify_run)
  have "s' = s2\<lparr>cm_transactionLocks := cm_transactionLocks s2 - {cc_name conn}\<rparr>"
    using assms body fin not_hang unfolding steps_transaction_def try_finally_run
    by (cases r1) (auto simp: bindM_run ret_run throw_run)
  then show ?thesis using locks1 locks2 by simp
qed

text \<open>A steps tool waits only if the lock is taken; if it returns, the locks are as before.\<close>

lemma steps_raw_locks:
  assumes "execute_steps_raw env tool args s = (r, s')"
  shows "(r = Hang \<longrightarrow> cm_transactionLocks s \<noteq> {}) \<and>
     (\<forall>res. r = Ret res \<longrightarrow> cm_transactionLocks s' = cm_transactionLocks s)"
proof (cases "steps_guards env tool args")
  case (Inl e)
  then show ?thesis using assms by (auto simp: steps_raw_refused)
next
  case (Inr cs)
  obtain conn sub where cs: "cs = (conn, sub)" by (cases cs)
  with Inr have guards: "steps_guards env tool args = Inr (conn, sub)" by simp
  show ?thesis
  proof (cases "cc_name conn \<in> cm_transactionLocks s")
    case True
    then show ?thesis using assms by (auto simp: steps_raw_locked [OF guards])
  next
    case False
    obtain q s1 where start: "tool_execute env conn tool ''BEGIN'' [] (lock_taken (cc_name conn) s) = (q, s1)"
      by fastforce
    have q: "q \<noteq> Hang" using settles_tool_execute start unfolding settles_def by (metis fst_conv)
    have locks1: "cm_transactionLocks s1 = insert (cc_name conn) (cm_transactionLocks s)"
      using locks_same [OF keeps_locks_tool_execute start] by (simp add: lock_taken_def)
    obtain p s2 v where tx: "steps_transaction env conn tool sub (s1, no_step_vars) = (p, (s2, v))"
      by (metis prod.collapse)
    have p: "p \<noteq> Hang" using settles_steps_transaction tx unfolding settles_def by (metis fst_conv)
    have "cm_transactionLocks s2 = cm_transactionLocks s"
      using steps_transaction_locks [OF tx] locks1 False by auto
    then have res: "snd (steps_result (p, (s2, v))) = s2" "fst (steps_result (p, (s2, v))) \<noteq> Hang"
      "cm_transactionLocks s2 = cm_transactionLocks s"
      using p by (simp_all add: snd_steps_result steps_result_Hang)
    show ?thesis
    proof (cases q)
      case (Ret b)
      then have "(r, s') = steps_result (p, (s2, v))"
        using assms unfolding steps_raw_unlocked [OF guards False] start by (simp add: tx)
      then show ?thesis using res by (metis fst_conv snd_conv)
    next
      case (Throw e)
      then show ?thesis using assms unfolding steps_raw_unlocked [OF guards False] start by auto
    qed (use q in simp)
  qed
qed

end
