(* ===== verification/ComposedTools.thy ===== *)
theory ComposedTools
  imports StepsTools
begin

text \<open>
  Any custom tool, nested ones included: what it may send to the database, that it
  terminates, that a refused call changes nothing, and that the invariant of the
  connection manager survives.
\<close>

section \<open>What may be sent\<close>

text \<open>
  A statement that the rules admit under the permission of the tool that owns it, or one
  of the statements with which a steps tool brackets its transaction.
\<close>

definition admitted_statement :: "'w tool_env \<Rightarrow> tool_config \<Rightarrow> string \<Rightarrow> bool" where
  "admitted_statement env tool q \<longleftrightarrow>
     (\<exists>conn. get_connection (te_config env) (ct_connection tool) = Inr conn \<and>
        check_sql_security q (cc_allowAllPragmas conn) = Inr () \<and>
        classify_query (te_astify env) q \<in> permission_hierarchy (effective_permission conn tool))"

definition housekeeping :: "string \<Rightarrow> bool" where
  "housekeeping q \<longleftrightarrow> q \<in> {''BEGIN'', ''COMMIT'', ''ROLLBACK''} \<or> (\<exists>t. q = ''DROP TABLE IF EXISTS '' @ t)"

definition sent_by :: "'w tool_env \<Rightarrow> tool_config \<Rightarrow> string \<Rightarrow> bool" where
  "sent_by env tool q \<longleftrightarrow> admitted_statement env tool q \<or> (ct_steps tool \<noteq> None \<and> housekeeping q)"

definition may_send :: "'w tool_env \<Rightarrow> tool_config \<Rightarrow> string set" where
  "may_send env tool = {q. sent_by env tool q \<or> (\<exists>t \<in> snd ` set (config_tools (te_config env)). sent_by env t q)}"

definition sent_only :: "('w \<Rightarrow> string list) \<Rightarrow> string list \<Rightarrow> string set \<Rightarrow> 'w sys \<Rightarrow> bool" where
  "sent_only tr base A s \<longleftrightarrow> (\<exists>new. tr (sys_world s) = base @ new \<and> set new \<subseteq> A)"

lemma keeps_bind_liftR:
  "(\<And>a. r = Inr a \<Longrightarrow> keeps P (f a)) \<Longrightarrow> keeps P (bindM (liftR r) f)"
  by (cases r) (auto simp: keeps_def)

lemma keeps_sent_world:
  "(\<And>s. sys_world (f s) = sys_world s) \<Longrightarrow> keeps (sent_only tr base A) (modify f)"
  by (intro keeps_modify) (simp add: sent_only_def)

lemma keeps_sent_invalidate [keeps_intros]: "keeps (sent_only tr base A) (invalidate_on_change n c)"
  unfolding invalidate_on_change_def invalidate_schema_cache_def
  by (intro keeps_intros) (simp_all add: sent_only_def)

lemma keeps_sent_log [keeps_intros]: "keeps (sent_only tr base A) (tool_log env n c q ps t rows st e)"
  unfolding tool_log_def audit_log_def by (intro keeps_intros) (simp add: sent_only_def)

lemma keeps_sent_execute:
  assumes rec: "records (te_backend env) tr" and "sql \<in> A"
  shows "keeps (sent_only tr base A) (tool_execute env conn tool sql vals)"
  unfolding tool_execute_def cm_execute_def
proof (rule keeps_bindM)
  show "keeps (sent_only tr base A) (ensure_connected (te_backend env) conn)"
    unfolding keeps_def ensure_connected_run
    using rec by (auto simp: sent_only_def records_def split: prod.split sum.split) (metis snd_conv)+
next
  show "keeps (sent_only tr base A) (call_backend (bk_execute (te_backend env) i sql ps opts))" for i ps opts
    unfolding keeps_def
  proof (intro allI impI)
    fix s
    assume "sent_only tr base A s"
    then obtain new where new: "tr (sys_world s) = base @ new" "set new \<subseteq> A" by (auto simp: sent_only_def)
    have "tr (snd (bk_execute (te_backend env) i sql ps opts (sys_world s))) = base @ new @ [sql]"
      using rec new by (simp add: records_def)
    then show "sent_only tr base A (snd (call_backend (bk_execute (te_backend env) i sql ps opts) s))"
      using new(2) \<open>sql \<in> A\<close>
      by (auto simp: sent_only_def call_backend_run split: prod.split sum.split intro!: exI [of _ "new @ [sql]"])
  qed
qed

lemma housekeeping_simps:
  "housekeeping ''BEGIN''" "housekeeping ''COMMIT''" "housekeeping ''ROLLBACK''"
  "housekeeping (''DROP TABLE IF EXISTS '' @ t)"
  by (auto simp: housekeeping_def)

lemma keeps_sent_steps:
  assumes rec: "records (te_backend env) tr" and A: "\<And>q. sent_by env tool q \<Longrightarrow> q \<in> A"
    and steps: "ct_steps tool \<noteq> None"
  shows "keeps (sent_only tr base A) (execute_steps_raw env tool args)"
  unfolding execute_steps_raw_def
proof (rule keeps_bind_liftR)
  fix cs
  assume cs: "steps_guards env tool args = Inr cs"
  obtain conn sub where cs2: "cs = (conn, sub)" by (cases cs)
  have house: "keeps (sent_only tr base A) (tool_execute env conn tool q vs)" if "housekeeping q" for q vs
    by (rule keeps_sent_execute [OF rec A]) (simp add: sent_by_def steps that)
  have stmt: "keeps (sent_only tr base A) (tool_execute env conn tool q vs)"
    if "(step, q, ps) \<in> set (zip (or_else (ct_steps tool) []) sub)" for step q ps vs
  proof (rule keeps_sent_execute [OF rec A])
    have "(q, ps) \<in> set sub" using that by (auto dest: set_zip_rightD)
    then show "sent_by env tool q"
      using steps_guards_Inr [OF cs [unfolded cs2]] by (auto simp: sent_by_def admitted_statement_def)
  qed
  have release: "keeps (sent_only tr base A) (release_transaction_lock n)" for n
    unfolding release_transaction_lock_def by (intro keeps_intros) (simp add: sent_only_def)
  have acquire: "keeps (sent_only tr base A) (acquire_transaction_lock n)" for n
    by (simp add: keeps_def acquire_transaction_lock_def sent_only_def)
  have tx: "keeps (\<lambda>(s, v). sent_only tr base A s) (steps_transaction env conn tool sub)"
    unfolding steps_transaction_def steps_catch_def steps_finally_def
    by (intro keeps_intros house stmt release; (rule housekeeping_simps)?) assumption
  show "keeps (sent_only tr base A) (case cs of (conn, substituted) \<Rightarrow>
     bindM (acquire_transaction_lock (cc_name conn)) (\<lambda>_.
     bindM (tool_execute env conn tool ''BEGIN'' []) (\<lambda>_ s.
       steps_result (steps_transaction env conn tool substituted (s, no_step_vars)))))"
    unfolding cs2 prod.case
    by (intro keeps_bindM acquire house housekeeping_simps keeps_steps_result [OF tx])
qed

lemma statement_guards_Inr:
  "statement_guards astify conn tool msg template args = Inr (sql, vs, category) \<Longrightarrow>
     substitute_parameters template args (tool_params tool) = Inr (sql, vs) \<and>
     \<not> is_multi_statement astify sql \<and>
     check_sql_security sql (cc_allowAllPragmas conn) = Inr () \<and>
     category = classify_query astify sql \<and>
     category \<in> permission_hierarchy (effective_permission conn tool)"
  by (auto simp: statement_guards_def bindR_eq_Inr Let_def split: prod.splits)

lemma single_guards_Inr:
  "single_guards env tool args = Inr (conn, sql, vs, category) \<Longrightarrow>
     get_connection (te_config env) (ct_connection tool) = Inr conn \<and>
     (\<exists>template. ct_sql tool = Some template \<and>
        substitute_parameters template args (tool_params tool) = Inr (sql, vs)) \<and>
     \<not> is_multi_statement (te_astify env) sql \<and> admitted_statement env tool sql \<and>
     category = classify_query (te_astify env) sql"
  by (auto simp: single_guards_def bindR_eq_Inr admitted_statement_def split: option.splits
      dest!: statement_guards_Inr)

lemma inline_guards_Inr:
  "get_connection (te_config env) (ct_connection tool) = Inr conn \<Longrightarrow>
   inline_guards env conn tool step ctx args = Inr (sql, vs, category) \<Longrightarrow> admitted_statement env tool sql"
  by (auto simp: inline_guards_def bindR_eq_Inr admitted_statement_def dest!: statement_guards_Inr)

lemma referenced_tool_Inr:
  "referenced_tool env ref = Inr t \<longleftrightarrow> obj_get (config_tools (te_config env)) ref = Some t"
  by (auto simp: referenced_tool_def split: option.splits)

lemma keeps_sent_raw:
  assumes rec: "records (te_backend env) tr"
    and tools: "\<And>t q. t \<in> snd ` set (config_tools (te_config env)) \<Longrightarrow> sent_by env t q \<Longrightarrow> q \<in> A"
  shows "(\<And>q. sent_by env tool q \<Longrightarrow> q \<in> A) \<Longrightarrow>
     keeps (sent_only tr base A) (execute_raw_custom_tool n env tool args)"
proof (induction n arbitrary: tool args)
  case 0
  then show ?case by (simp add: keeps_def)
next
  case (Suc n)
  have compose: "keeps (sent_only tr base A) (run_compose n env conn tool args steps ctx lastResult)"
    if conn: "get_connection (te_config env) (ct_connection tool) = Inr conn"
    for conn steps ctx lastResult
  proof (induction steps arbitrary: ctx lastResult)
    case Nil
    then show ?case by (simp add: keeps_ret)
  next
    case (Cons step steps)
    have ref: "keeps (sent_only tr base A) (bindM (liftR (referenced_tool env r)) (\<lambda>refTool.
        execute_raw_custom_tool n env refTool (step_args args step)))" for r
    proof (rule keeps_bind_liftR)
      fix t
      assume "referenced_tool env r = Inr t"
      then have "(r, t) \<in> set (config_tools (te_config env))"
        unfolding referenced_tool_Inr by (rule map_of_SomeD)
      then have "t \<in> snd ` set (config_tools (te_config env))" by (rule rev_image_eqI) simp
      then show "keeps (sent_only tr base A) (execute_raw_custom_tool n env t (step_args args step))"
        using Suc.IH tools by blast
    qed
    have inline: "keeps (sent_only tr base A) (bindM (liftR (inline_guards env conn tool step ctx args))
        (\<lambda>(sql, values, category). bindM (invalidate_on_change (cc_name conn) category)
          (\<lambda>_. tool_execute env conn tool sql values)))"
    proof (rule keeps_bind_liftR)
      fix x
      assume x: "inline_guards env conn tool step ctx args = Inr x"
      obtain sql vs c where x2: "x = (sql, vs, c)" by (cases x)
      have "sql \<in> A" using inline_guards_Inr [OF conn x [unfolded x2]] Suc.prems by (simp add: sent_by_def)
      then show "keeps (sent_only tr base A) (case x of (sql, values, category) \<Rightarrow>
          bindM (invalidate_on_change (cc_name conn) category) (\<lambda>_. tool_execute env conn tool sql values))"
        unfolding x2 prod.case by (intro keeps_intros keeps_sent_execute [OF rec])
    qed
    have "keeps (sent_only tr base A) (case nonempty (cs_tool step) of
          Some r \<Rightarrow> bindM (liftR (referenced_tool env r)) (\<lambda>refTool.
            execute_raw_custom_tool n env refTool (step_args args step))
        | None \<Rightarrow> bindM (liftR (inline_guards env conn tool step ctx args))
            (\<lambda>(sql, values, category). bindM (invalidate_on_change (cc_name conn) category)
              (\<lambda>_. tool_execute env conn tool sql values)))"
      using ref inline by (simp split: option.split)
    then show ?case unfolding run_compose.simps by (rule keeps_bindM) (rule Cons.IH)
  qed
  have single: "keeps (sent_only tr base A) (bindM (liftR (single_guards env tool args))
      (\<lambda>(conn, sql, values, category). bindM (invalidate_on_change (cc_name conn) category) (\<lambda>_.
         tool_execute env conn tool sql values)))"
  proof (rule keeps_bind_liftR)
    fix x
    assume x: "single_guards env tool args = Inr x"
    obtain conn sql vs c where x2: "x = (conn, sql, vs, c)" by (cases x)
    have "sql \<in> A" using single_guards_Inr [OF x [unfolded x2]] Suc.prems by (simp add: sent_by_def)
    then show "keeps (sent_only tr base A) (case x of (conn, sql, values, category) \<Rightarrow>
        bindM (invalidate_on_change (cc_name conn) category) (\<lambda>_. tool_execute env conn tool sql values))"
      unfolding x2 prod.case by (intro keeps_intros keeps_sent_execute [OF rec])
  qed
  have steps: "ct_steps tool \<noteq> None \<Longrightarrow> keeps (sent_only tr base A) (execute_steps_raw env tool args)"
    by (rule keeps_sent_steps [OF rec]) (use Suc.prems in auto)
  show ?case
    unfolding execute_raw_custom_tool.simps
    by (intro keeps_if keeps_bind_liftR keeps_bindM compose keeps_ret steps single)
qed


section \<open>The formatted calls\<close>

lemma keeps_logged_execution:
  assumes "keeps P raw" "\<And>n c q ps t rows st e. keeps P (tool_log env n c q ps t rows st e)"
  shows "keeps P (logged_execution env toolName conn tool sql startMs raw)"
  unfolding logged_execution_def by (intro keeps_intros assms)

lemma keeps_custom_tool:
  assumes raw: "\<And>n. keeps P (execute_raw_custom_tool n env tool args)"
    and log: "\<And>n c q ps t rows st e. keeps P (tool_log env n c q ps t rows st e)"
    and inval: "\<And>n c. keeps P (invalidate_on_change n c)"
    and single: "\<And>conn sql vs c. single_guards env tool args = Inr (conn, sql, vs, c) \<Longrightarrow>
        keeps P (tool_execute env conn tool sql vs)"
  shows "keeps P (execute_custom_tool n env toolName tool args)"
proof -
  have steps: "keeps P (execute_steps_raw env tool args)" if "\<not> is_composed tool" "ct_steps tool \<noteq> None"
    using raw [of "Suc 0"] that by simp
  have one: "keeps P (execute_single_tool env toolName tool args)"
    unfolding execute_single_tool_def
  proof (rule keeps_bind_liftR)
    fix x
    assume x: "single_guards env tool args = Inr x"
    obtain conn sql vs c where x2: "x = (conn, sql, vs, c)" by (cases x)
    show "keeps P (case x of (conn, sql, values, category) \<Rightarrow>
       bindM (invalidate_on_change (cc_name conn) category) (\<lambda>_.
       bindM (clock_now env) (\<lambda>startMs.
       bindM (try_catch (tool_execute env conn tool sql values)
         (\<lambda>err. bindM (tool_log env toolName (cc_name conn) sql values startMs 0 AuditError
              (Some (err_message err))) (\<lambda>_. throw err))) (\<lambda>result.
       bindM (tool_log env toolName (cc_name conn) sql values startMs (qr_rowCount result) AuditOk None) (\<lambda>_.
       ret (tool_format conn tool result))))))"
      unfolding x2 prod.case
      by (intro keeps_intros log inval single [OF x [unfolded x2]])
  qed
  show ?thesis
    unfolding execute_custom_tool_def execute_composed_tool_def execute_custom_tool_steps_def
    by (intro keeps_if keeps_bindM keeps_gets keeps_liftR keeps_logged_execution raw log steps one) assumption+
qed

lemma keeps_sent_custom_tool:
  assumes "records (te_backend env) tr"
  shows "keeps (sent_only tr base (may_send env tool)) (execute_custom_tool n env toolName tool args)"
proof (rule keeps_custom_tool)
  show "keeps (sent_only tr base (may_send env tool)) (execute_raw_custom_tool m env tool args)" for m
    by (rule keeps_sent_raw [OF assms]) (unfold may_send_def, blast+)
  show "keeps (sent_only tr base (may_send env tool)) (tool_execute env conn tool sql vs)"
    if "single_guards env tool args = Inr (conn, sql, vs, c)" for conn sql vs c
    by (rule keeps_sent_execute [OF assms])
      (use single_guards_Inr [OF that] in \<open>simp add: may_send_def sent_by_def\<close>)
qed (rule keeps_intros)+

section \<open>The invariant of the connection manager\<close>

lemma keeps_inv_tool_log [keeps_intros]: "keeps cm_inv (tool_log env n c q ps t rows st e)"
  unfolding tool_log_def by (intro keeps_intros)

lemma keeps_inv_execute [keeps_intros]: "keeps cm_inv (tool_execute env conn tool sql vs)"
  unfolding tool_execute_def by (intro keeps_intros)

lemma keeps_inv_invalidate [keeps_intros]: "keeps cm_inv (invalidate_on_change n c)"
  unfolding invalidate_on_change_def by (intro keeps_intros)

lemma keeps_inv_steps [keeps_intros]: "keeps cm_inv (execute_steps_raw env tool args)"
  unfolding execute_steps_raw_def
proof (rule keeps_bind_liftR)
  fix cs :: "connection_config \<times> (string \<times> jsval list) list"
  obtain conn sub where cs2: "cs = (conn, sub)" by (cases cs) simp
  have tx: "keeps (\<lambda>(s, v). cm_inv s) (steps_transaction env conn tool sub)"
    unfolding steps_transaction_def steps_catch_def steps_finally_def by (intro keeps_intros)
  show "keeps cm_inv (case cs of (conn, substituted) \<Rightarrow>
     bindM (acquire_transaction_lock (cc_name conn)) (\<lambda>_.
     bindM (tool_execute env conn tool ''BEGIN'' []) (\<lambda>_ s.
       steps_result (steps_transaction env conn tool substituted (s, no_step_vars)))))"
    unfolding cs2 prod.case
    by (intro keeps_bindM keeps_locks keeps_inv_execute keeps_steps_result [OF tx])
qed

lemma keeps_case_option:
  "(x = None \<Longrightarrow> keeps P m) \<Longrightarrow> (\<And>a. x = Some a \<Longrightarrow> keeps P (f a)) \<Longrightarrow>
     keeps P (case x of None \<Rightarrow> m | Some a \<Rightarrow> f a)"
  by (cases x) auto

lemma keeps_case_prod: "(\<And>a b. x = (a, b) \<Longrightarrow> keeps P (f a b)) \<Longrightarrow> keeps P (case x of (a, b) \<Rightarrow> f a b)"
  by (cases x) auto

lemma keeps_inv_raw: "keeps cm_inv (execute_raw_custom_tool n env tool args)"
    "keeps cm_inv (run_compose n env conn tool args steps ctx lastResult)"
proof (induction n env tool args and n env conn tool args steps ctx lastResult
    rule: execute_raw_custom_tool_run_compose.induct)
  case (1 env tool args)
  then show ?case by (simp add: keeps_def)
next
  case (2 n env tool args)
  then show ?case
    unfolding execute_raw_custom_tool.simps
    by (intro keeps_if keeps_bindM keeps_liftR keeps_ret keeps_inv_steps keeps_case_prod keeps_inv_execute
        keeps_inv_invalidate)
next
  case (3 n env conn tool args ctx lastResult)
  then show ?case by (simp add: keeps_ret)
next
  case (4 n env conn tool args step steps ctx lastResult)
  then show ?case
    unfolding run_compose.simps
    by (intro keeps_bindM keeps_case_option keeps_liftR keeps_case_prod keeps_inv_execute
        keeps_inv_invalidate)
qed

lemma keeps_inv_custom_tool: "keeps cm_inv (execute_custom_tool n env toolName tool args)"
  by (rule keeps_custom_tool) (rule keeps_inv_raw keeps_intros)+

end
