(* ===== verification/ToolCalls.thy ===== *)
theory ToolCalls
  imports ComposedTools
begin

text \<open>
  Termination of nested pipelines under a validated configuration, and the contract of a
  guarded handler for the calls that are refused.
\<close>

section \<open>Termination\<close>

lemma compose_neighbors:
  assumes "obj_get (config_tools config) name = Some tool" "ref \<in> set (compose_refs tool)"
  shows "(name, ref) \<in> refers_to (compose_edges config)"
proof -
  have "obj_get (map (\<lambda>(n, t). (n, compose_refs t)) (config_tools config)) name = Some (compose_refs tool)"
    using assms(1) by (simp add: map_of_map)
  then have "obj_get (compose_edges config) name = Some (compose_refs tool)"
    unfolding compose_edges_def using assms(2) by (auto intro!: map_of_filter_in)
  then show ?thesis using assms(2) by (simp add: refers_to_def neighbors_def)
qed

text \<open>Enough fuel for a tool: more than the nesting of everything that it refers to.\<close>

definition enough_fuel :: "omnibase_config \<Rightarrow> nat \<Rightarrow> tool_config \<Rightarrow> bool" where
  "enough_fuel config n tool \<longleftrightarrow>
     0 < n \<and> (\<forall>ref \<in> set (compose_refs tool). Suc (nesting (compose_edges config) ref) < n)"

lemma enough_fuel_ref:
  assumes "acyclic (refers_to (compose_edges config))" "enough_fuel config (Suc n) tool"
    and "ref \<in> set (compose_refs tool)" "obj_get (config_tools config) ref = Some t"
  shows "enough_fuel config n t"
proof -
  have n: "nesting (compose_edges config) ref < n" using assms(2,3) by (auto simp: enough_fuel_def)
  have "nesting (compose_edges config) r < nesting (compose_edges config) ref" if "r \<in> set (compose_refs t)" for r
    by (rule nesting_decreases [OF assms(1) compose_neighbors [OF assms(4) that]])
  then show ?thesis using n by (force simp: enough_fuel_def)
qed

lemma compose_refs_step:
  "step \<in> set (or_else (ct_compose tool) []) \<Longrightarrow> nonempty (cs_tool step) = Some ref \<Longrightarrow> ref \<in> set (compose_refs tool)"
  by (auto simp: compose_refs_def map_filter_def intro!: image_eqI [of _ _ step])

text \<open>A call that neither waits nor changes the locks when it returns.\<close>

definition lock_neutral :: "('w sys, 'a) io \<Rightarrow> bool" where
  "lock_neutral m \<longleftrightarrow> (\<forall>s. cm_transactionLocks s = {} \<longrightarrow>
     fst (m s) \<noteq> Hang \<and> (\<forall>a. fst (m s) = Ret a \<longrightarrow> cm_transactionLocks (snd (m s)) = {}))"

lemma lock_neutral_run:
  "lock_neutral m \<Longrightarrow> cm_transactionLocks s = {} \<Longrightarrow> m s = (r, s') \<Longrightarrow>
     r \<noteq> Hang \<and> (\<forall>a. r = Ret a \<longrightarrow> cm_transactionLocks s' = {})"
  by (metis fst_conv lock_neutral_def snd_conv)

lemma lock_neutral_bindM:
  assumes m: "lock_neutral m" and f: "\<And>a. lock_neutral (f a)"
  shows "lock_neutral (bindM m f)"
  unfolding lock_neutral_def
proof (intro allI impI)
  fix s :: "'a sys"
  assume free: "cm_transactionLocks s = {}"
  obtain r s1 where run: "m s = (r, s1)" by fastforce
  note one = lock_neutral_run [OF m free run]
  show "fst (bindM m f s) \<noteq> Hang \<and> (\<forall>a. fst (bindM m f s) = Ret a \<longrightarrow> cm_transactionLocks (snd (bindM m f s)) = {})"
  proof (cases r)
    case (Ret a)
    then have "cm_transactionLocks s1 = {}" using one by simp
    then show ?thesis using f [of a] run Ret by (simp add: bindM_run lock_neutral_def)
  qed (use one run in \<open>simp_all add: bindM_run\<close>)
qed

lemma lock_neutral_liftR:
  "(\<And>a. r = Inr a \<Longrightarrow> lock_neutral (f a)) \<Longrightarrow> lock_neutral (bindM (liftR r) f)"
  by (cases r) (auto simp: lock_neutral_def)

lemma lock_neutral_statement:
  assumes "\<And>L. keeps (\<lambda>s. cm_transactionLocks s = L) m" "settles m"
  shows "lock_neutral m"
  using keepsD [OF assms(1)] assms(2) by (simp add: lock_neutral_def settles_def)

lemma lock_neutral_execute: "lock_neutral (tool_execute env conn tool sql vs)"
  by (rule lock_neutral_statement [OF keeps_locks_tool_execute]) simp

lemma lock_neutral_invalidate: "lock_neutral (invalidate_on_change n c)"
  by (rule lock_neutral_statement [OF keeps_locks_invalidate]) simp

lemma lock_neutral_log: "lock_neutral (tool_log env n c q ps t rows st e)"
  by (rule lock_neutral_statement [OF keeps_locks_tool_log]) simp

lemma lock_neutral_ret: "lock_neutral (ret a)"
  by (simp add: lock_neutral_def ret_run)

lemma lock_neutral_gets: "lock_neutral (gets f)"
  by (simp add: lock_neutral_def gets_run)

lemma lock_neutral_steps: "lock_neutral (execute_steps_raw env tool args)"
  unfolding lock_neutral_def
proof (intro allI impI)
  fix s :: "'a sys"
  assume free: "cm_transactionLocks s = {}"
  obtain r s' where run: "execute_steps_raw env tool args s = (r, s')" by fastforce
  show "fst (execute_steps_raw env tool args s) \<noteq> Hang \<and>
      (\<forall>a. fst (execute_steps_raw env tool args s) = Ret a \<longrightarrow>
         cm_transactionLocks (snd (execute_steps_raw env tool args s)) = {})"
    using steps_raw_locks [OF run] free by (simp add: run)
qed

lemma lock_neutral_raw:
  assumes "acyclic (refers_to (compose_edges (te_config env)))"
  shows "enough_fuel (te_config env) n tool \<Longrightarrow> lock_neutral (execute_raw_custom_tool n env tool args)"
proof (induction n arbitrary: tool args)
  case 0
  then show ?case by (simp add: enough_fuel_def)
next
  case (Suc n)
  have compose: "lock_neutral (run_compose n env conn tool args steps ctx lastResult)"
    if "set steps \<subseteq> set (or_else (ct_compose tool) [])" for conn steps ctx lastResult
    using that
  proof (induction steps arbitrary: ctx lastResult)
    case Nil
    then show ?case by (simp add: lock_neutral_ret)
  next
    case (Cons step steps)
    have ref: "lock_neutral (bindM (liftR (referenced_tool env r)) (\<lambda>refTool.
        execute_raw_custom_tool n env refTool (step_args args step)))"
      if "nonempty (cs_tool step) = Some r" for r
    proof (rule lock_neutral_liftR)
      fix t
      assume t: "referenced_tool env r = Inr t"
      have "r \<in> set (compose_refs tool)" using compose_refs_step [OF _ that] Cons.prems by simp
      then have "enough_fuel (te_config env) n t"
        using enough_fuel_ref [OF assms Suc.prems] t by (simp add: referenced_tool_Inr)
      then show "lock_neutral (execute_raw_custom_tool n env t (step_args args step))" by (rule Suc.IH)
    qed
    have inline: "lock_neutral (bindM (liftR (inline_guards env conn tool step ctx args))
        (\<lambda>(sql, vs, category). bindM (invalidate_on_change (cc_name conn) category)
          (\<lambda>_. tool_execute env conn tool sql vs)))"
      by (rule lock_neutral_liftR)
        (simp split: prod.split add: lock_neutral_bindM lock_neutral_invalidate lock_neutral_execute)
    have "lock_neutral (case nonempty (cs_tool step) of
          Some r \<Rightarrow> bindM (liftR (referenced_tool env r)) (\<lambda>refTool.
            execute_raw_custom_tool n env refTool (step_args args step))
        | None \<Rightarrow> bindM (liftR (inline_guards env conn tool step ctx args))
            (\<lambda>(sql, vs, category). bindM (invalidate_on_change (cc_name conn) category)
              (\<lambda>_. tool_execute env conn tool sql vs)))"
      using ref inline by (simp split: option.split)
    then show ?case
      unfolding run_compose.simps by (rule lock_neutral_bindM) (use Cons in simp)
  qed
  have single: "lock_neutral (bindM (liftR (single_guards env tool args))
      (\<lambda>(conn, sql, vs, category). bindM (invalidate_on_change (cc_name conn) category) (\<lambda>_.
         tool_execute env conn tool sql vs)))"
    by (rule lock_neutral_liftR)
      (simp split: prod.split add: lock_neutral_bindM lock_neutral_invalidate lock_neutral_execute)
  show ?case
    unfolding execute_raw_custom_tool.simps
    using compose single lock_neutral_steps [of env tool args]
    by (auto intro!: lock_neutral_liftR lock_neutral_bindM lock_neutral_ret)
qed

lemma lock_neutral_try_catch:
  assumes m: "lock_neutral m" and h: "\<And>e s. fst (h e s) \<noteq> Hang \<and> (\<forall>a. fst (h e s) \<noteq> Ret a)"
  shows "lock_neutral (try_catch m h)"
  unfolding lock_neutral_def
proof (intro allI impI)
  fix s :: "'a sys"
  assume free: "cm_transactionLocks s = {}"
  obtain r s1 where run: "m s = (r, s1)" by fastforce
  note one = lock_neutral_run [OF m free run]
  show "fst (try_catch m h s) \<noteq> Hang \<and>
      (\<forall>a. fst (try_catch m h s) = Ret a \<longrightarrow> cm_transactionLocks (snd (try_catch m h s)) = {})"
    using one run h by (cases r) (simp_all add: try_catch_run)
qed

lemma rethrow_throws:
  "settles m \<Longrightarrow> fst (bindM m (\<lambda>_. throw e) s) \<noteq> Hang \<and> (\<forall>a. fst (bindM m (\<lambda>_. throw e) s) \<noteq> Ret a)"
  by (auto simp: bindM_run throw_run settles_def split: prod.split outcome.split) (metis fst_conv)+

lemma lock_neutral_logged:
  "lock_neutral raw \<Longrightarrow> lock_neutral (logged_execution env toolName conn tool sql startMs raw)"
  unfolding logged_execution_def
  by (intro lock_neutral_try_catch lock_neutral_bindM lock_neutral_log lock_neutral_ret rethrow_throws) simp_all

lemma lock_neutral_custom_tool:
  assumes "acyclic (refers_to (compose_edges (te_config env)))" "enough_fuel (te_config env) n tool"
  shows "lock_neutral (execute_custom_tool n env toolName tool args)"
proof -
  have single: "lock_neutral (execute_single_tool env toolName tool args)"
    unfolding execute_single_tool_def
  proof (rule lock_neutral_liftR)
    fix x :: "connection_config \<times> string \<times> jsval list \<times> query_category"
    obtain conn sql vs c where x: "x = (conn, sql, vs, c)" by (cases x)
    show "lock_neutral (case x of (conn, sql, values, category) \<Rightarrow>
       bindM (invalidate_on_change (cc_name conn) category) (\<lambda>_.
       bindM (clock_now env) (\<lambda>startMs.
       bindM (try_catch (tool_execute env conn tool sql values)
         (\<lambda>err. bindM (tool_log env toolName (cc_name conn) sql values startMs 0 AuditError
              (Some (err_message err))) (\<lambda>_. throw err))) (\<lambda>result.
       bindM (tool_log env toolName (cc_name conn) sql values startMs (qr_rowCount result) AuditOk None) (\<lambda>_.
       ret (tool_format conn tool result))))))"
      unfolding x prod.case
      by (intro lock_neutral_bindM lock_neutral_invalidate lock_neutral_gets lock_neutral_log
        lock_neutral_ret lock_neutral_try_catch lock_neutral_execute rethrow_throws settles_tool_log)
  qed
  show ?thesis
    unfolding execute_custom_tool_def execute_composed_tool_def execute_custom_tool_steps_def
    using single lock_neutral_raw [OF assms, of args]
    by (auto intro!: lock_neutral_bindM lock_neutral_gets lock_neutral_liftR lock_neutral_logged lock_neutral_steps)
qed

text \<open>The number of tools, plus two, is enough fuel for every tool of a validated configuration.\<close>

lemma set_compose_refs:
  "b \<in> set (compose_refs tool) \<longleftrightarrow>
     (\<exists>steps step. ct_compose tool = Some steps \<and> step \<in> set steps \<and> cs_tool step = Some b \<and> b \<noteq> [])"
proof (cases "ct_compose tool")
  case (Some steps)
  have "b \<in> set (List.map_filter (\<lambda>step. nonempty (cs_tool step)) xs) \<longleftrightarrow>
      (\<exists>step \<in> set xs. cs_tool step = Some b \<and> b \<noteq> [])" for xs
    by (induction xs) (auto simp: List.map_filter_simps nonempty_def split: option.splits if_splits)
  then show ?thesis using Some by (auto simp: compose_refs_def)
qed (simp add: compose_refs_def List.map_filter_simps)

lemma compose_edge_tool:
  "(a, refs) \<in> set (compose_edges config) \<Longrightarrow>
     \<exists>tool. (a, tool) \<in> set (config_tools config) \<and> refs = compose_refs tool"
proof -
  have "(a, refs) \<in> set (List.filter (\<lambda>(_, refs). refs \<noteq> []) (map (\<lambda>(n, t). (n, compose_refs t)) ts)) \<Longrightarrow>
      \<exists>tool. (a, tool) \<in> set ts \<and> refs = compose_refs tool" for ts
    by auto
  then show "(a, refs) \<in> set (compose_edges config) \<Longrightarrow> ?thesis" unfolding compose_edges_def .
qed

lemma nesting_tools:
  assumes "tools_ok config"
  shows "nesting (compose_edges config) a \<le> length (config_tools config)"
proof -
  have "refers_to (compose_edges config) `` UNIV \<subseteq> set (obj_keys (config_tools config))"
  proof
    fix b
    assume "b \<in> refers_to (compose_edges config) `` UNIV"
    then obtain a where "b \<in> set (neighbors (compose_edges config) a)" by (auto simp: refers_to_def)
    then have "(a, neighbors (compose_edges config) a) \<in> set (compose_edges config)"
      and b: "b \<in> set (neighbors (compose_edges config) a)" by (auto dest: neighbors_entry)
    then obtain tool where tool: "(a, tool) \<in> set (config_tools config)" "b \<in> set (compose_refs tool)"
      using compose_edge_tool by metis
    then obtain steps step where step: "ct_compose tool = Some steps" "step \<in> set steps" "cs_tool step = Some b"
      by (auto simp: set_compose_refs)
    have "body_ok config tool" using assms tool(1) by (auto simp: tools_ok_def tool_ok_def)
    then have "step_target_ok config step" using step by (auto simp: body_ok_def pipeline_ok_def)
    then show "b \<in> set (obj_keys (config_tools config))" using step(3) by (auto simp: step_target_ok_def)
  qed
  from nesting_bound [OF this] show ?thesis by simp
qed

lemma enough_fuel_tools:
  "tools_ok config \<Longrightarrow> length (config_tools config) + 2 \<le> n \<Longrightarrow> enough_fuel config n tool"
proof -
  assume ok: "tools_ok config" and n: "length (config_tools config) + 2 \<le> n"
  have "Suc (nesting (compose_edges config) ref) < n" for ref
    using nesting_tools [OF ok, of ref] n by linarith
  then show ?thesis using n by (simp add: enough_fuel_def)
qed

section \<open>Refused calls\<close>

record tool_call =
  tc_name :: string
  tc_tool :: tool_config
  tc_args :: "jsval obj"

definition handle_tool_call :: "nat \<Rightarrow> 'w tool_env \<Rightarrow> tool_call \<Rightarrow> ('w sys, formatted_result) io" where
  "handle_tool_call n env c = execute_custom_tool n env (tc_name c) (tc_tool c) (tc_args c)"

text \<open>A pipeline checks each of its statements when it gets there; the other kinds check first.\<close>

definition tool_admits :: "'w tool_env \<Rightarrow> tool_call \<Rightarrow> bool" where
  "tool_admits env c \<longleftrightarrow>
     is_composed (tc_tool c) \<or>
     (if ct_steps (tc_tool c) \<noteq> None then \<exists>cs. steps_guards env (tc_tool c) (tc_args c) = Inr cs
      else \<exists>x. single_guards env (tc_tool c) (tc_args c) = Inr x)"

lemma tool_log_world:
  "tool_log env n c q ps t rows st e s = (r, s') \<Longrightarrow> r = Ret () \<and> sys_world s' = sys_world s"
  by (auto simp: tool_log_def audit_log_def run_simps split: if_splits)

lemma refused_tool_call:
  assumes "\<not> tool_admits env c"
  shows "(\<exists>e. fst (handle_tool_call n env c s) = Throw e) \<and> sys_world (snd (handle_tool_call n env c s)) = sys_world s"
proof (cases "ct_steps (tc_tool c) = None")
  case True
  then obtain e where "single_guards env (tc_tool c) (tc_args c) = Inl e"
    using assms by (cases "single_guards env (tc_tool c) (tc_args c)") (auto simp: tool_admits_def)
  then show ?thesis
    using assms True
    by (simp add: handle_tool_call_def tool_admits_def execute_custom_tool_def execute_single_tool_def)
next
  case False
  then obtain e where refused: "steps_guards env (tc_tool c) (tc_args c) = Inl e"
    using assms by (cases "steps_guards env (tc_tool c) (tc_args c)") (auto simp: tool_admits_def)
  have log: "\<exists>s'. bindM (tool_log env n conn q ps t rows st err) (\<lambda>_. throw e) s = (Throw e, s') \<and>
      sys_world s' = sys_world s" for n conn q ps t rows st err
    using tool_log_world [of env n conn q ps t rows st err s] by (auto simp: bindM_run throw_run split: prod.split)
  show ?thesis
    using assms False refused
    by (cases "get_connection (te_config env) (ct_connection (tc_tool c))")
      (auto simp: handle_tool_call_def tool_admits_def execute_custom_tool_def execute_custom_tool_steps_def
        logged_execution_def bindM_run gets_run try_catch_run steps_raw_refused liftR_run throw_run tool_log_def
        audit_log_def modify_run)
qed

interpretation tc: guarded_handler "handle_tool_call n env" "tool_admits env" sys_world for n env
  by unfold_locales (use refused_tool_call in blast)+

end
