(* ===== verification/SqlDialect.thy ===== *)
theory SqlDialect
  imports Domain
begin

text \<open>
  SQL dialects (\<open>src/sql-dialect.ts\<close>): SQL Server limits rows with TOP, every other
  database with LIMIT.
\<close>

datatype dialect = Mssql | Standard

definition get_dialect :: "connection_config \<Rightarrow> dialect" where
  "get_dialect config =
     (let dsn = to_lower (cc_dsn config) in
      if starts_with dsn ''mssql:'' \<or> starts_with dsn ''sqlserver:'' \<or> starts_with dsn ''ms:'' \<or>
         starts_with dsn ''azuresql:'' then Mssql
      else Standard)"

text \<open>\<open>opt ? ` ${keyword} ${opt}` : ""\<close>: an empty text counts as absent.\<close>

definition clause :: "string \<Rightarrow> string option \<Rightarrow> string" where
  "clause keyword x =
     (case x of None \<Rightarrow> [] | Some s \<Rightarrow> if s = [] then [] else '' '' @ keyword @ '' '' @ s)"

definition select_with_limit ::
    "string \<Rightarrow> string \<Rightarrow> int \<Rightarrow> dialect \<Rightarrow> string option \<Rightarrow> string option \<Rightarrow> string" where
  "select_with_limit columns table limit dialect whr orderBy =
     (let wherePart = clause ''WHERE'' whr; orderPart = clause ''ORDER BY'' orderBy in
      case dialect of
        Mssql \<Rightarrow> ''SELECT TOP '' @ int_str limit @ '' '' @ columns @ '' FROM '' @ table @ wherePart @ orderPart
      | Standard \<Rightarrow> ''SELECT '' @ columns @ '' FROM '' @ table @ wherePart @ orderPart @ '' LIMIT '' @ int_str limit)"

definition subquery_with_limit :: "string \<Rightarrow> int \<Rightarrow> dialect \<Rightarrow> string" where
  "subquery_with_limit table limit dialect =
     (case dialect of
        Mssql \<Rightarrow> ''(SELECT TOP '' @ int_str limit @ '' * FROM '' @ table @ '')''
      | Standard \<Rightarrow> ''(SELECT * FROM '' @ table @ '' LIMIT '' @ int_str limit @ '')'')"

lemma clause_None [simp]: "clause k None = []"
  by (simp add: clause_def)

end
