(* ===== verification/JsNumber.thy ===== *)
theory JsNumber
  imports JsValue
begin

text \<open>
  Comparison and arithmetic on the numbers of \<open>JsValue\<close>: \<open><\<close>, \<open>>\<close>, \<open>Math.min\<close>,
  \<open>n || 0\<close> and the rounded percentage of the table statistics. Finite numbers are compared
  as integers at a common decimal exponent.
\<close>

section \<open>Definitions\<close>

definition scaled :: "int \<Rightarrow> bool \<Rightarrow> nat \<Rightarrow> int \<Rightarrow> int" where
  "scaled k neg m e = (if neg then -1 else 1) * int m * 10 ^ nat (e - k)"

text \<open>\<open>a < b\<close>: a comparison with NaN is false.\<close>

fun num_less :: "jsnum \<Rightarrow> jsnum \<Rightarrow> bool" where
  "num_less (Fin n m e) (Fin n' m' e') = (scaled (min e e') n m e < scaled (min e e') n' m' e')"
| "num_less (Fin n m e) (Inf n') = (\<not> n')"
| "num_less (Inf n) (Fin n' m' e') = n"
| "num_less (Inf n) (Inf n') = (n \<and> \<not> n')"
| "num_less _ _ = False"

text \<open>\<open>a >= b\<close> is not \<open>a < b\<close> unless one of them is NaN.\<close>

definition num_geq :: "jsnum \<Rightarrow> jsnum \<Rightarrow> bool" where
  "num_geq a b \<longleftrightarrow> a \<noteq> NaN \<and> b \<noteq> NaN \<and> \<not> num_less a b"

definition num_min :: "jsnum \<Rightarrow> jsnum \<Rightarrow> jsnum" where
  "num_min a b = (if a = NaN \<or> b = NaN then NaN else if num_less b a then b else a)"

text \<open>\<open>Number(v) || 0\<close>\<close>

definition number_or_zero :: "jsval \<Rightarrow> jsnum" where
  "number_or_zero v = (case js_number v of NaN \<Rightarrow> Fin False 0 0 | n \<Rightarrow> n)"

text \<open>\<open>Math.round((part / whole) * 10000) / 100\<close>; halves are rounded up.\<close>

fun percentage :: "jsnum \<Rightarrow> jsnum \<Rightarrow> jsnum" where
  "percentage (Fin n m e) (Fin n' m' e') =
     (let k = min e e'; part = scaled k n m e; whole = scaled k n' m' e';
          r = (20000 * part + whole) div (2 * whole) in
      mk_num (r < 0) (nat \<bar>r\<bar>) (-2))"
| "percentage (Fin n m e) (Inf n') = Fin False 0 0"
| "percentage (Inf n) (Fin n' m' e') = Inf n"
| "percentage _ _ = NaN"

section \<open>The order of numbers\<close>

lemma scaled_shift:
  assumes "j \<le> k" "k \<le> e"
  shows "scaled j n m e = scaled k n m e * 10 ^ nat (k - j)"
proof -
  have "nat (e - j) = nat (e - k) + nat (k - j)" using assms by linarith
  then show ?thesis by (simp add: scaled_def power_add)
qed

text \<open>The exponent at which two numbers are compared does not matter.\<close>

lemma num_less_at:
  assumes "k \<le> e" "k \<le> e'"
  shows "num_less (Fin n m e) (Fin n' m' e') \<longleftrightarrow> scaled k n m e < scaled k n' m' e'"
proof -
  have k: "k \<le> min e e'" using assms by simp
  show ?thesis
    using scaled_shift [OF k, of e n m] scaled_shift [OF k, of e' n' m'] by simp
qed

lemma num_less_irrefl [simp]: "\<not> num_less a a"
  by (cases a) simp_all

lemma num_less_asym: "num_less a b \<Longrightarrow> \<not> num_less b a"
  by (cases a; cases b) (auto simp: min.commute)

text \<open>Three finite numbers compare as the integers they are at one exponent.\<close>

lemma num_less_three:
  obtains k where "num_less (Fin n m e) (Fin n' m' e') \<longleftrightarrow> scaled k n m e < scaled k n' m' e'"
    and "num_less (Fin n' m' e') (Fin n'' m'' e'') \<longleftrightarrow> scaled k n' m' e' < scaled k n'' m'' e''"
    and "num_less (Fin n m e) (Fin n'' m'' e'') \<longleftrightarrow> scaled k n m e < scaled k n'' m'' e''"
proof -
  have "min e (min e' e'') \<le> e" "min e (min e' e'') \<le> e'" "min e (min e' e'') \<le> e''" by simp_all
  then show ?thesis using that num_less_at by blast
qed

lemma num_less_trans: "num_less a b \<Longrightarrow> num_less b c \<Longrightarrow> num_less a c"
proof (cases a; cases b; cases c)
  fix n m e n' m' e' n'' m'' e''
  assume abc: "a = Fin n m e" "b = Fin n' m' e'" "c = Fin n'' m'' e''" and "num_less a b" "num_less b c"
  then show "num_less a c"
    using num_less_three [of n m e n' m' e' n'' m'' e''] unfolding abc by (metis less_trans)
qed auto

lemma num_less_not_NaN: "num_less a b \<Longrightarrow> a \<noteq> NaN \<and> b \<noteq> NaN"
  by (cases a; cases b) auto

text \<open>Of three numbers none of which is NaN, the middle one is on one side of the others.\<close>

lemma num_less_split: "num_less a c \<Longrightarrow> b \<noteq> NaN \<Longrightarrow> num_less a b \<or> num_less b c"
proof (cases a; cases b; cases c)
  fix n m e n' m' e' n'' m'' e''
  assume abc: "a = Fin n m e" "b = Fin n' m' e'" "c = Fin n'' m'' e''" and "num_less a c"
  then show "num_less a b \<or> num_less b c"
    using num_less_three [of n m e n' m' e' n'' m'' e''] unfolding abc by (metis less_trans not_less_iff_gr_or_eq)
qed auto

lemma number_or_zero_not_NaN [simp]: "number_or_zero v \<noteq> NaN"
  by (simp add: number_or_zero_def split: jsnum.split)

section \<open>The size of numbers built from digits\<close>

lemma mk_num_scaled:
  assumes "k \<le> e"
  obtains n' m' e' where "mk_num neg m e = Fin n' m' e'" "k \<le> e' \<or> m' = 0" "scaled k n' m' e' = scaled k neg m e"
proof (cases "m = 0")
  case True
  then have "mk_num neg m e = Fin False 0 0" by (simp add: mk_num_def)
  then show ?thesis using that [of False 0 0] True by (simp add: scaled_def)
next
  case False
  obtain m' e' where s: "strip10 m e = (m', e')" by fastforce
  then have e: "e \<le> e'" "m = m' * 10 ^ nat (e' - e)" using strip10_value by blast+
  then have "nat (e' - k) = nat (e - k) + nat (e' - e)" using assms by linarith
  then have "scaled k neg m' e' = scaled k neg m e"
    using e(2) by (simp add: scaled_def power_add)
  then show ?thesis using that [of neg m' e'] False s e assms by (simp add: mk_num_def)
qed

lemma num_less_zero_digits:
  "num_less (Fin n 0 e) (Fin n' 0 e') = False"
  by (simp add: scaled_def)

lemma scaled_sign: "scaled k (r < 0) (nat \<bar>r\<bar>) k = r"
  by (simp add: scaled_def)

text \<open>Integers and hundredths compare as integers.\<close>

lemma mk_num_value:
  assumes "k \<le> 0"
  obtains n m e where "mk_num (r < 0) (nat \<bar>r\<bar>) k = Fin n m e" "k \<le> e" "scaled k n m e = r"
proof -
  obtain n m e where f: "mk_num (r < 0) (nat \<bar>r\<bar>) k = Fin n m e" "k \<le> e \<or> m = 0"
    and v: "scaled k n m e = scaled k (r < 0) (nat \<bar>r\<bar>) k"
    using mk_num_scaled [of k k] by blast
  show ?thesis
  proof (cases "nat \<bar>r\<bar> = 0")
    case True
    then show ?thesis using that [of False 0 0] assms by (simp add: mk_num_def scaled_def)
  next
    case False
    then have "m \<noteq> 0" using v scaled_sign [of k r] by (auto simp: scaled_def)
    then show ?thesis using that [of n m e] f v scaled_sign [of k r] by simp
  qed
qed

lemma num_less_mk_num:
  assumes "k \<le> 0"
  shows "num_less (mk_num (a < 0) (nat \<bar>a\<bar>) k) (mk_num (b < 0) (nat \<bar>b\<bar>) k) \<longleftrightarrow> a < b"
proof -
  obtain n m e where a: "mk_num (a < 0) (nat \<bar>a\<bar>) k = Fin n m e" "k \<le> e" "scaled k n m e = a"
    using mk_num_value [OF assms] by blast
  obtain n' m' e' where b: "mk_num (b < 0) (nat \<bar>b\<bar>) k = Fin n' m' e'" "k \<le> e'" "scaled k n' m' e' = b"
    using mk_num_value [OF assms] by blast
  show ?thesis unfolding a(1) b(1) num_less_at [OF a(2) b(2)] a(3) b(3) ..
qed

lemma num_less_int: "num_less (int_num a) (int_num b) \<longleftrightarrow> a < b"
  using num_less_mk_num [of 0 a b] by (simp add: int_num_def)

definition hundredths :: "int \<Rightarrow> jsnum" where
  "hundredths r = mk_num (r < 0) (nat \<bar>r\<bar>) (-2)"

lemma num_less_hundredths: "num_less (hundredths a) (hundredths b) \<longleftrightarrow> a < b"
  using num_less_mk_num [of "-2" a b] by (simp add: hundredths_def)

text \<open>A part of a positive whole is between 0 and 100 percent.\<close>

lemma percentage_bounds:
  assumes "num_less (Fin False 0 0) whole" "\<not> num_less part (Fin False 0 0)" "\<not> num_less whole part"
    and "part = Fin n m e" "whole = Fin n' m' e'"
  shows "\<exists>r. percentage part whole = hundredths r \<and> 0 \<le> r \<and> r \<le> 10000"
proof -
  let ?k = "min e e'"
  let ?p = "scaled ?k n m e" and ?w = "scaled ?k n' m' e'"
  have sign: "scaled k False 0 0 = 0" for k by (simp add: scaled_def)
  have pos: "0 < scaled j a b c \<longleftrightarrow> \<not> a \<and> b \<noteq> 0" "scaled j a b c < 0 \<longleftrightarrow> a \<and> b \<noteq> 0" for j a b c
    by (auto simp: scaled_def zero_less_mult_iff mult_less_0_iff)
  have "0 < ?w" using assms(1,5) by (simp add: sign pos)
  moreover have "0 \<le> ?p" using assms(2,4) by (simp add: sign pos not_less [symmetric])
  moreover have "?p \<le> ?w" using assms(3,4,5) by (simp add: min.commute)
  moreover have div: "(20000 * p + w) div (2 * w) \<le> 10000 \<and> 0 \<le> (20000 * p + w) div (2 * w)"
    if "0 \<le> p" "p \<le> w" "0 < w" for p w :: int
  proof -
    have "(20000 * p + w) div (2 * w) \<le> (20001 * w) div (2 * w)"
      using that by (intro zdiv_mono1) linarith+
    also have "(20001 * w) div (2 * w) = 10000" using that by (simp add: div_mult_mult2)
    finally have "(20000 * p + w) div (2 * w) \<le> 10000" .
    then show ?thesis using that by (simp add: pos_imp_zdiv_nonneg_iff)
  qed
  ultimately have "0 \<le> (20000 * ?p + ?w) div (2 * ?w) \<and> (20000 * ?p + ?w) div (2 * ?w) \<le> 10000" by blast
  moreover have "percentage part whole = hundredths ((20000 * ?p + ?w) div (2 * ?w))"
    using assms(4,5) by (simp add: Let_def hundredths_def)
  ultimately show ?thesis by blast
qed

end
