(* ===== verification/TableTools.thy ===== *)
theory TableTools
  imports SqlDialect JsNumber OutputFormatter ConfigLoader ConnectionManager
begin

text \<open>
  The tools that look at schemas and tables: \<open>src/tools/get-schema.ts\<close>, \<open>list-tables.ts\<close>,
  \<open>search-schema.ts\<close>, \<open>get-sample.ts\<close>, \<open>get-distinct-values.ts\<close>, \<open>get-table-stats.ts\<close>,
  \<open>get-indexes.ts\<close>, \<open>get-relationships.ts\<close>, \<open>list-connections.ts\<close> and \<open>test-connection.ts\<close>.
\<close>

section \<open>Looking tables and columns up\<close>

definition find_table :: "string \<Rightarrow> schema_info \<Rightarrow> table_info option" where
  "find_table name schema = List.find (\<lambda>t. to_lower (tb_name t) = to_lower name) (si_tables schema)"

definition find_column :: "string \<Rightarrow> table_info \<Rightarrow> column_info option" where
  "find_column name table = List.find (\<lambda>c. to_lower (col_name c) = to_lower name) (tb_columns table)"

definition table_not_found :: "string \<Rightarrow> string \<Rightarrow> error" where
  "table_not_found table connection =
     OmnibaseError (''Table '' @ quote_single table @ '' not found in connection '' @ quote_single connection)
       ''TABLE_NOT_FOUND'' None"

definition column_not_found :: "string \<Rightarrow> string \<Rightarrow> error" where
  "column_not_found column table =
     OmnibaseError (''Column '' @ quote_single column @ '' not found in table '' @ quote_single table)
       ''COLUMN_NOT_FOUND'' None"

definition invalid_params :: "string \<Rightarrow> error" where
  "invalid_params msg = OmnibaseError msg ''INVALID_PARAMS'' None"

definition required_table :: "string \<Rightarrow> string \<Rightarrow> schema_info \<Rightarrow> table_info result" where
  "required_table table connection schema =
     (case find_table table schema of
        None \<Rightarrow> Inl (table_not_found table connection) | Some t \<Rightarrow> Inr t)"

definition required_column :: "string \<Rightarrow> string \<Rightarrow> table_info \<Rightarrow> column_info result" where
  "required_column column table t =
     (case find_column column t of
        None \<Rightarrow> Inl (column_not_found column table) | Some c \<Rightarrow> Inr c)"

text \<open>A tool looks up its connection, then reads its schema.\<close>

definition with_schema ::
    "'w backend \<Rightarrow> omnibase_config \<Rightarrow> string \<Rightarrow> bool \<Rightarrow> bool option \<Rightarrow>
       (connection_config \<Rightarrow> schema_info \<Rightarrow> ('w sys, 'a) io) \<Rightarrow> ('w sys, 'a) io" where
  "with_schema bk config connection force exact body =
     bindM (liftR (get_connection config (Some connection))) (\<lambda>conn.
     bindM (get_schema bk conn force exact) (\<lambda>schema. body conn schema))"

section \<open>Schemas\<close>

definition missing_warnings :: "string list \<Rightarrow> table_info list \<Rightarrow> string list" where
  "missing_warnings requested found =
     map (\<lambda>r. ''Table '' @ quote_single r @ '' not found'')
       (List.filter (\<lambda>r. to_lower r \<notin> set (map (\<lambda>t. to_lower (tb_name t)) found)) requested)"

definition schema_answer :: "schema_info \<Rightarrow> string list option \<Rightarrow> jsval" where
  "schema_answer schema tables =
     (case tables of
        Some (t # ts) \<Rightarrow>
          (let found = List.filter (\<lambda>x. to_lower (tb_name x) \<in> set (map to_lower (t # ts))) (si_tables schema);
               warnings = missing_warnings (t # ts) found;
               result = format_schema_result \<lparr>si_tables = found\<rparr> True in
           case result of
             JObj kvs \<Rightarrow> JObj (if warnings = [] then kvs else kvs @ [(''warnings'', json_strs warnings)])
           | v \<Rightarrow> v)
      | _ \<Rightarrow> format_schema_result schema False)"

definition handle_get_schema ::
    "'w backend \<Rightarrow> omnibase_config \<Rightarrow> string \<Rightarrow> string list option \<Rightarrow> bool \<Rightarrow> ('w sys, jsval) io" where
  "handle_get_schema bk config connection tables forceRefresh =
     with_schema bk config connection forceRefresh None (\<lambda>conn schema. ret (schema_answer schema tables))"

definition list_entry :: "table_info \<Rightarrow> jsval" where
  "list_entry t = JObj [(''name'', JStr (tb_name t)), (''schema'', JStr (tb_schema t)), row_count_entry t]"

definition handle_list_tables ::
    "'w backend \<Rightarrow> omnibase_config \<Rightarrow> string \<Rightarrow> bool option \<Rightarrow> ('w sys, jsval list) io" where
  "handle_list_tables bk config connection exact_counts =
     with_schema bk config connection False (Some (or_else exact_counts True))
       (\<lambda>conn schema. ret (map list_entry (si_tables schema)))"

definition handle_search_schema ::
    "'w backend \<Rightarrow> omnibase_config \<Rightarrow> string \<Rightarrow> string \<Rightarrow> ('w sys, search_result list) io" where
  "handle_search_schema bk config connection query =
     bindM (liftR (get_connection config (Some connection))) (\<lambda>conn.
     bindM (liftR (guardR (query = [] \<or> trim query = [])
       (OmnibaseError ''Search query cannot be empty'' ''INVALID_QUERY'' None))) (\<lambda>_.
     bindM (get_schema bk conn False None) (\<lambda>schema.
     ret (format_search_results (si_tables schema) query))))"

section \<open>Rows of a table\<close>

definition check_limit :: "int option \<Rightarrow> unit result" where
  "check_limit limit =
     (case limit of None \<Rightarrow> Inr ()
      | Some n \<Rightarrow> guardR (n < 0) (invalid_params ''limit must be non-negative''))"

definition handle_get_sample ::
    "'w backend \<Rightarrow> omnibase_config \<Rightarrow> string \<Rightarrow> string \<Rightarrow> int option \<Rightarrow> string option \<Rightarrow> string option \<Rightarrow>
       ('w sys, formatted_result) io" where
  "handle_get_sample bk config connection table limit whr order_by =
     with_schema bk config connection False None (\<lambda>conn schema.
     bindM (liftR (required_table table connection schema)) (\<lambda>validTable.
     bindM (liftR (check_limit limit)) (\<lambda>_.
     let n = or_else limit 10;
         query = select_with_limit ''*'' (tb_name validTable) n (get_dialect conn) whr order_by in
     bindM (cm_execute bk conn query None None) (\<lambda>result.
     ret (format_query_result result n (cc_maxValueLength conn))))))"

record distinct_values =
  dv_table :: string
  dv_column :: string
  dv_column_type :: string
  dv_values :: "(jsval \<times> jsnum) list"
  dv_total_shown :: int
  dv_has_more :: bool

definition distinct_query :: "dialect \<Rightarrow> int \<Rightarrow> string \<Rightarrow> string \<Rightarrow> string" where
  "distinct_query dialect limit column table =
     (case dialect of
        Mssql \<Rightarrow> ''SELECT TOP '' @ int_str limit @ '' '' @ column @ '' AS value, COUNT(*) AS count FROM '' @ table
          @ '' GROUP BY '' @ column @ '' ORDER BY count DESC''
      | Standard \<Rightarrow> ''SELECT '' @ column @ '' AS value, COUNT(*) AS count FROM '' @ table
          @ '' GROUP BY '' @ column @ '' ORDER BY count DESC LIMIT '' @ int_str limit)"

definition handle_get_distinct_values ::
    "'w backend \<Rightarrow> omnibase_config \<Rightarrow> string \<Rightarrow> string \<Rightarrow> string \<Rightarrow> int option \<Rightarrow> ('w sys, distinct_values) io" where
  "handle_get_distinct_values bk config connection table column limit =
     with_schema bk config connection False None (\<lambda>conn schema.
     bindM (liftR (required_table table connection schema)) (\<lambda>tableInfo.
     bindM (liftR (required_column column table tableInfo)) (\<lambda>colInfo.
     bindM (liftR (check_limit limit)) (\<lambda>_.
     let n = or_else limit 50;
         query = distinct_query (get_dialect conn) n (col_name colInfo) (tb_name tableInfo) in
     bindM (cm_execute bk conn query None None) (\<lambda>result.
     let vals = map (\<lambda>row. (cell row 0, js_number (cell row 1))) (qr_rows result) in
     ret \<lparr>dv_table = tb_name tableInfo, dv_column = col_name colInfo, dv_column_type = col_type colInfo,
          dv_values = vals, dv_total_shown = int (length vals),
          dv_has_more = (qr_hasMore result \<or> int (length vals) \<ge> n)\<rparr>)))))"

section \<open>Statistics\<close>

definition quote_ident :: "string \<Rightarrow> string" where
  "quote_ident name = [CHR 0x22] @ replace_char CHR 0x22 [CHR 0x22, CHR 0x22] name @ [CHR 0x22]"

definition safe_alias :: "string \<Rightarrow> string \<Rightarrow> string" where
  "safe_alias prfx name = prfx @ map (\<lambda>c. if is_word c then c else CHR ''_'') name"

definition stat_exprs :: "column_info \<Rightarrow> string list" where
  "stat_exprs col =
     (let q = quote_ident (col_name col) in
      [''COUNT(*) AS _total'',
       ''SUM(CASE WHEN '' @ q @ '' IS NULL THEN 1 ELSE 0 END) AS '' @ safe_alias ''_null_'' (col_name col),
       ''COUNT(DISTINCT '' @ q @ '') AS '' @ safe_alias ''_distinct_'' (col_name col),
       ''MIN('' @ q @ '') AS '' @ safe_alias ''_min_'' (col_name col),
       ''MAX('' @ q @ '') AS '' @ safe_alias ''_max_'' (col_name col)])"

definition stats_query :: "table_info \<Rightarrow> int \<Rightarrow> dialect \<Rightarrow> string" where
  "stats_query table sampleSize dialect =
     ''SELECT '' @ join '', '' (js_uniq (concat (map stat_exprs (tb_columns table)))) @ '' FROM ''
       @ subquery_with_limit (tb_name table) sampleSize dialect"

text \<open>\<open>colMap\<close> keeps the last index of a repeated column name.\<close>

definition last_index :: "string \<Rightarrow> string list \<Rightarrow> nat option" where
  "last_index key columns =
     (case List.find (\<lambda>i. columns ! i = key) (rev [0..<length columns]) of None \<Rightarrow> None | Some i \<Rightarrow> Some i)"

definition get_value :: "string list \<Rightarrow> jsval list \<Rightarrow> string \<Rightarrow> jsval" where
  "get_value columns row key =
     (case last_index key columns of None \<Rightarrow> JNull | Some i \<Rightarrow> cell row i)"

record column_stats =
  cst_name :: string
  cst_type :: string
  cst_total_rows :: jsnum
  cst_null_count :: jsnum
  cst_null_percentage :: jsnum
  cst_distinct_count :: jsnum
  cst_min :: jsval
  cst_max :: jsval

record table_stats =
  tst_table :: string
  tst_sample_size :: jsnum
  tst_sampled :: "bool option"
  tst_columns :: "column_stats list"

definition column_stats_of :: "string list \<Rightarrow> jsval list \<Rightarrow> jsnum \<Rightarrow> column_info \<Rightarrow> column_stats" where
  "column_stats_of columns row totalRows col =
     (let value = (\<lambda>prfx. get_value columns row (safe_alias prfx (col_name col)));
          nullCount = number_or_zero (value ''_null_'') in
      \<lparr>cst_name = col_name col, cst_type = col_type col, cst_total_rows = totalRows,
       cst_null_count = nullCount,
       cst_null_percentage =
         (if num_less (Fin False 0 0) totalRows then percentage nullCount totalRows else Fin False 0 0),
       cst_distinct_count = number_or_zero (value ''_distinct_''),
       cst_min = value ''_min_'', cst_max = value ''_max_''\<rparr>)"

definition stats_of_result :: "table_info \<Rightarrow> int \<Rightarrow> query_result \<Rightarrow> table_stats" where
  "stats_of_result table sampleSize result =
     (case qr_rows result of
        [] \<Rightarrow> \<lparr>tst_table = tb_name table, tst_sample_size = int_num sampleSize, tst_sampled = None,
               tst_columns = []\<rparr>
      | row # _ \<Rightarrow>
          (let totalRows = number_or_zero (get_value (qr_columns result) row ''_total'') in
           \<lparr>tst_table = tb_name table, tst_sample_size = num_min (int_num sampleSize) totalRows,
            tst_sampled = Some (num_geq totalRows (int_num sampleSize)),
            tst_columns = map (column_stats_of (qr_columns result) row totalRows) (tb_columns table)\<rparr>))"

definition handle_get_table_stats ::
    "'w backend \<Rightarrow> omnibase_config \<Rightarrow> string \<Rightarrow> string \<Rightarrow> int option \<Rightarrow> ('w sys, table_stats) io" where
  "handle_get_table_stats bk config connection table sample_size =
     with_schema bk config connection False None (\<lambda>conn schema.
     bindM (liftR (required_table table connection schema)) (\<lambda>tableInfo.
     bindM (liftR (case sample_size of None \<Rightarrow> Inr ()
       | Some n \<Rightarrow> guardR (n < 1) (invalid_params ''sample_size must be at least 1''))) (\<lambda>_.
     let n = or_else sample_size 10000;
         query = stats_query tableInfo n (get_dialect conn) in
     bindM (try_catch (cm_execute bk conn (query @ '' AS _sample'') None None)
       (\<lambda>_. cm_execute bk conn query None None)) (\<lambda>result.
     ret (stats_of_result tableInfo n result)))))"

section \<open>Indexes\<close>

record index_entry =
  ie_table :: string
  ie_name :: string
  ie_columns :: "string list"
  ie_unique :: bool
  ie_type :: string
  ie_partial :: bool
  ie_filter :: "string option"

definition index_entry_of :: "table_info \<Rightarrow> index_info \<Rightarrow> index_entry" where
  "index_entry_of table idx =
     \<lparr>ie_table = tb_name table, ie_name = ix_name idx, ie_columns = ix_columns idx, ie_unique = ix_unique idx,
      ie_type = (if ix_type idx = [] then ''unknown'' else ix_type idx),
      ie_partial = (ix_filter idx \<noteq> None), ie_filter = ix_filter idx\<rparr>"

text \<open>An empty table name counts as no filter.\<close>

definition table_filter :: "string option \<Rightarrow> string option" where
  "table_filter table = (case table of None \<Rightarrow> None | Some t \<Rightarrow> if t = [] then None else Some t)"

definition check_table_filter :: "string option \<Rightarrow> string \<Rightarrow> schema_info \<Rightarrow> unit result" where
  "check_table_filter table connection schema =
     (case table_filter table of None \<Rightarrow> Inr ()
      | Some t \<Rightarrow> guardR (find_table t schema = None) (table_not_found t connection))"

definition indexes_of :: "schema_info \<Rightarrow> string option \<Rightarrow> index_entry list" where
  "indexes_of schema table =
     concat (map (\<lambda>t. map (index_entry_of t) (tb_indexes t))
       (List.filter (\<lambda>t. case table_filter table of None \<Rightarrow> True
          | Some n \<Rightarrow> to_lower (tb_name t) = to_lower n) (si_tables schema)))"

definition handle_get_indexes ::
    "'w backend \<Rightarrow> omnibase_config \<Rightarrow> string \<Rightarrow> string option \<Rightarrow> ('w sys, index_entry list) io" where
  "handle_get_indexes bk config connection table =
     with_schema bk config connection False None (\<lambda>conn schema.
     bindM (liftR (check_table_filter table connection schema)) (\<lambda>_.
     ret (indexes_of schema table)))"

section \<open>Relationships\<close>

record relationship =
  rl_from_table :: string
  rl_from_column :: string
  rl_to_table :: string
  rl_to_column :: string

record table_node =
  tn_name :: string
  tn_references :: "string list"
  tn_referenced_by :: "string list"

definition relationships_of :: "schema_info \<Rightarrow> relationship list" where
  "relationships_of schema =
     concat (map (\<lambda>t. map (\<lambda>fk. \<lparr>rl_from_table = tb_name t, rl_from_column = fk_column fk,
         rl_to_table = fk_referencesTable fk, rl_to_column = fk_referencesColumn fk\<rparr>) (tb_foreignKeys t))
       (si_tables schema))"

definition involving :: "string option \<Rightarrow> relationship list \<Rightarrow> relationship list" where
  "involving table rs =
     (case table_filter table of None \<Rightarrow> rs
      | Some t \<Rightarrow> List.filter (\<lambda>r. to_lower (rl_from_table r) = to_lower t \<or>
          to_lower (rl_to_table r) = to_lower t) rs)"

definition ref_label :: "relationship \<Rightarrow> string" where
  "ref_label r = rl_from_column r @ '' -> '' @ rl_to_table r @ ''.'' @ rl_to_column r"

definition reverse_label :: "relationship \<Rightarrow> string" where
  "reverse_label r = rl_from_table r @ ''.'' @ rl_from_column r @ '' -> '' @ rl_to_column r"

text \<open>\<open>getNode\<close>, then the pushes on the two node objects, which may be the same one.\<close>

definition ensure_node :: "string \<Rightarrow> table_node obj \<Rightarrow> table_node obj" where
  "ensure_node name nodes =
     (if obj_get nodes name = None
      then obj_set name \<lparr>tn_name = name, tn_references = [], tn_referenced_by = []\<rparr> nodes else nodes)"

definition change_node :: "string \<Rightarrow> (table_node \<Rightarrow> table_node) \<Rightarrow> table_node obj \<Rightarrow> table_node obj" where
  "change_node name f nodes =
     (case obj_get nodes name of None \<Rightarrow> nodes | Some n \<Rightarrow> obj_set name (f n) nodes)"

definition add_relationship :: "table_node obj \<Rightarrow> relationship \<Rightarrow> table_node obj" where
  "add_relationship nodes r =
     change_node (rl_to_table r) (\<lambda>n. n\<lparr>tn_referenced_by := set_add (reverse_label r) (tn_referenced_by n)\<rparr>)
       (change_node (rl_from_table r) (\<lambda>n. n\<lparr>tn_references := set_add (ref_label r) (tn_references n)\<rparr>)
          (ensure_node (rl_to_table r) (ensure_node (rl_from_table r) nodes)))"

definition relationship_graph :: "relationship list \<Rightarrow> table_node obj" where
  "relationship_graph rs = foldl add_relationship [] rs"

definition handle_get_relationships ::
    "'w backend \<Rightarrow> omnibase_config \<Rightarrow> string \<Rightarrow> string option \<Rightarrow>
       ('w sys, relationship list \<times> table_node list) io" where
  "handle_get_relationships bk config connection table =
     with_schema bk config connection False None (\<lambda>conn schema.
     bindM (liftR (check_table_filter table connection schema)) (\<lambda>_.
     let filtered = involving table (relationships_of schema) in
     ret (filtered, map snd (relationship_graph filtered))))"

section \<open>Connections\<close>

record connection_info =
  ci_name :: string
  ci_databaseType :: string
  ci_permissionLevel :: permission_level
  ci_status :: connection_status

definition handle_list_connections :: "omnibase_config \<Rightarrow> 'w sys \<Rightarrow> connection_info list" where
  "handle_list_connections config s =
     map (\<lambda>(_, conn). \<lparr>ci_name = cc_name conn,
         ci_databaseType = (let d = get_driver s (cc_name conn) in
           if d = [] then hd (split_char CHR '':'' (cc_dsn conn)) else d),
         ci_permissionLevel = cc_permission conn, ci_status = get_status s (cc_name conn)\<rparr>)
       (oc_connections config)"

record test_result =
  tr_connection :: string
  tr_ok :: bool
  tr_latency_ms :: int
  tr_error :: "string option"

definition handle_test_connection ::
    "'w backend \<Rightarrow> omnibase_config \<Rightarrow> string \<Rightarrow> ('w sys, test_result) io" where
  "handle_test_connection bk config connection =
     bindM (liftR (get_connection config (Some connection))) (\<lambda>conn.
     bindM (gets (\<lambda>s. bk_clock bk (sys_world s))) (\<lambda>start.
     try_catch
       (bindM (cm_ping bk conn) (\<lambda>_.
        bindM (gets (\<lambda>s. bk_clock bk (sys_world s))) (\<lambda>t.
        ret \<lparr>tr_connection = cc_name conn, tr_ok = True, tr_latency_ms = t - start, tr_error = None\<rparr>)))
       (\<lambda>err. bindM (gets (\<lambda>s. bk_clock bk (sys_world s))) (\<lambda>t.
        ret \<lparr>tr_connection = cc_name conn, tr_ok = False, tr_latency_ms = t - start,
             tr_error = Some (err_message err)\<rparr>))))"

end
