(* ===== verification/ExplainTool.thy ===== *)
theory ExplainTool
  imports TableTools
begin

text \<open>
  The tool \<open>explain_query\<close> (\<open>src/tools/explain-query.ts\<close>): the plan of the backend and a
  summary of it, whose form depends on the names of the columns.
\<close>

section \<open>The summary\<close>

text \<open>\<open>columns.findIndex((c) => c.toLowerCase() === name)\<close>\<close>

definition column_index :: "string \<Rightarrow> string list \<Rightarrow> nat option" where
  "column_index name columns = List.find (\<lambda>i. to_lower (columns ! i) = name) [0..<length columns]"

text \<open>\<open>String(row[i] ?? "")\<close>\<close>

definition text_or_empty :: "jsval list \<Rightarrow> nat option \<Rightarrow> string" where
  "text_or_empty row i =
     (case i of None \<Rightarrow> []
      | Some k \<Rightarrow> (case cell row k of JUndef \<Rightarrow> [] | JNull \<Rightarrow> [] | v \<Rightarrow> js_string v))"

definition join_row :: "jsval list \<Rightarrow> string" where
  "join_row row = join '' | '' (map (\<lambda>v. if v = JUndef \<or> v = JNull then [] else js_string v) row)"

text \<open>What the loop over the bytecode collects: tables, indexes, and whether it sorts or aggregates.\<close>

record bytecode_scan =
  bs_tables :: "string list"
  bs_indexes :: "string list"
  bs_sort :: bool
  bs_agg :: bool

definition bytecode_start :: bytecode_scan where
  "bytecode_start = \<lparr>bs_tables = [], bs_indexes = [], bs_sort = False, bs_agg = False\<rparr>"

definition looks_like_index :: "string \<Rightarrow> bool" where
  "looks_like_index name \<longleftrightarrow>
     starts_with name ''idx_'' \<or> str_includes name ''autoindex'' \<or> str_includes name ''index''"

definition bytecode_row :: "nat \<Rightarrow> nat option \<Rightarrow> nat option \<Rightarrow> jsval list \<Rightarrow> bytecode_scan \<Rightarrow> bytecode_scan" where
  "bytecode_row opcodeIdx commentIdx p4Idx row b =
     (let opcode = to_lower (js_string (cell row opcodeIdx));
          comment = text_or_empty row commentIdx;
          p4 = text_or_empty row p4Idx;
          name = (if p4 = [] then comment else p4);
          opens = (opcode = ''openread'' \<or> opcode = ''openwrite'');
          b1 = (if opens \<and> name \<noteq> [] then b\<lparr>bs_tables := set_add name (bs_tables b)\<rparr> else b);
          b2 = (if opcode = ''openread'' \<and> name \<noteq> [] \<and> looks_like_index name
                then b1\<lparr>bs_indexes := set_add name (bs_indexes b1)\<rparr> else b1);
          b3 = (if opcode \<in> {''sorteropen'', ''sorterinsert'', ''sort''} then b2\<lparr>bs_sort := True\<rparr> else b2) in
      if opcode \<in> {''aggregatestep'', ''aggregatefinal'', ''aggstep'', ''aggfinal''}
      then b3\<lparr>bs_agg := True\<rparr> else b3)"

definition scan_line :: "string list \<Rightarrow> string \<Rightarrow> string" where
  "scan_line indexes t =
     (if list_ex (\<lambda>idx. str_includes idx (to_lower t) \<or> str_includes idx t) indexes
      then ''INDEX LOOKUP '' @ t else ''SCAN '' @ t)"

definition bytecode_lines :: "bytecode_scan \<Rightarrow> string list" where
  "bytecode_lines b =
     (let summary = map (scan_line (bs_indexes b)) (bs_tables b) @
            (if bs_indexes b = [] then [] else [''Using indexes: '' @ join '', '' (bs_indexes b)]) @
            (if bs_sort b then [''SORT''] else []) @ (if bs_agg b then [''AGGREGATE''] else []) in
      if summary = [] then [''Simple query (no table scans detected)''] else summary)"

definition summarize_bytecode :: "string list \<Rightarrow> jsval list list \<Rightarrow> nat \<Rightarrow> string list" where
  "summarize_bytecode columns rows opcodeIdx =
     bytecode_lines (fold (bytecode_row opcodeIdx (column_index ''comment'' columns) (column_index ''p4'' columns))
       rows bytecode_start)"

definition summarize_explain :: "string list \<Rightarrow> jsval list list \<Rightarrow> string list" where
  "summarize_explain columns rows =
     (case column_index ''detail'' columns of
        Some i \<Rightarrow> map (\<lambda>r. js_string (cell r i)) rows
      | None \<Rightarrow>
     (case column_index ''opcode'' columns of
        Some i \<Rightarrow> summarize_bytecode columns rows i
      | None \<Rightarrow>
          if length columns = 1 \<and> str_includes (to_lower (hd columns)) ''query plan''
          then map (\<lambda>r. js_string (cell r 0)) rows
          else
     (case column_index ''stmttext'' columns of
        Some i \<Rightarrow> map (\<lambda>r. js_string (cell r i)) rows
      | None \<Rightarrow> if rows \<noteq> [] then map join_row rows else [''No query plan available''])))"

section \<open>The handler\<close>

record explain_result =
  ex_summary :: "string list"
  ex_plan :: "jsval list list"
  ex_columns :: "string list"

definition handle_explain_query ::
    "'w backend \<Rightarrow> omnibase_config \<Rightarrow> string \<Rightarrow> string \<Rightarrow> bool option \<Rightarrow> ('w sys, explain_result) io" where
  "handle_explain_query bk config connection query analyze =
     bindM (liftR (get_connection config (Some connection))) (\<lambda>conn.
     bindM (explain_query bk conn query analyze) (\<lambda>result.
     ret \<lparr>ex_summary = summarize_explain (qr_columns result) (qr_rows result),
          ex_plan = qr_rows result, ex_columns = qr_columns result\<rparr>))"

section \<open>Properties of the summary\<close>

text \<open>A plan with one line per row keeps the rows one for one; only bytecode is condensed.\<close>

lemma summarize_explain_rows:
  assumes "column_index ''opcode'' columns = None \<or> column_index ''detail'' columns \<noteq> None" "rows \<noteq> []"
  shows "length (summarize_explain columns rows) = length rows"
  using assms by (auto simp: summarize_explain_def split: option.split)

lemma summarize_explain_nonempty:
  assumes "rows \<noteq> []"
  shows "summarize_explain columns rows \<noteq> []"
  using assms by (auto simp: summarize_explain_def summarize_bytecode_def bytecode_lines_def Let_def split: option.split)

definition opened_name :: "nat option \<Rightarrow> nat option \<Rightarrow> jsval list \<Rightarrow> string" where
  "opened_name commentIdx p4Idx row =
     (if text_or_empty row p4Idx = [] then text_or_empty row commentIdx else text_or_empty row p4Idx)"

lemma bytecode_row_tables:
  "set (bs_tables (bytecode_row k c p row b)) = set (bs_tables b) \<union>
     (if to_lower (js_string (cell row k)) \<in> {''openread'', ''openwrite''} \<and> opened_name c p row \<noteq> []
      then {opened_name c p row} else {})"
  "distinct (bs_tables b) \<Longrightarrow> distinct (bs_tables (bytecode_row k c p row b))"
  by (auto simp: bytecode_row_def Let_def opened_name_def)

text \<open>The tables of the summary are exactly the names that an open instruction mentions.\<close>

lemma bytecode_tables:
  "set (bs_tables (fold (bytecode_row k c p) rows b)) = set (bs_tables b) \<union>
     {opened_name c p row | row. row \<in> set rows \<and> opened_name c p row \<noteq> [] \<and>
        to_lower (js_string (cell row k)) \<in> {''openread'', ''openwrite''}}"
proof (induction rows arbitrary: b)
  case Nil
  then show ?case by simp
next
  case (Cons row rows)
  show ?case unfolding fold_simps(2) o_apply Cons.IH bytecode_row_tables(1) by auto
qed

lemma keeps_handle_explain_query [keeps_intros]: "keeps cm_inv (handle_explain_query bk config c query analyze)"
  unfolding handle_explain_query_def by (intro keeps_intros)

text \<open>The statement goes to the backend as it is, whatever it is and whatever the permission.\<close>

lemma explain_sends:
  assumes "get_connection config (Some connection) = Inr conn" and "cc_name conn \<in> cm_connectedIds s"
  shows "sys_world (snd (handle_explain_query bk config connection query analyze s)) =
     snd (bk_explainQuery bk (cc_name conn) query analyze (sys_world s))"
  using assms
  by (simp add: handle_explain_query_def explain_query_def bindM_run liftR_run ensure_connected_run call_backend_run
      ret_run split: prod.split sum.split)

end
