(* ===== verification/ValidateTool.thy ===== *)
theory ValidateTool
  imports QueryAnalyzer TableTools
begin

text \<open>
  The tool \<open>validate_query\<close> (\<open>src/tools/validate-query.ts\<close>): syntax by the parser package
  (the parameter \<open>astify\<close>) or by the database, category and permission, the references of
  the syntax tree against the schema, and an estimate of the affected rows. A syntax tree is
  an arbitrary value; its parts are read property by property, as the code does. The em
  dash of the messages is written as a hyphen.
\<close>

section \<open>Reading a syntax tree\<close>

definition js_str_opt :: "jsval \<Rightarrow> string option" where
  "js_str_opt v = (case v of JStr s \<Rightarrow> Some s | _ \<Rightarrow> None)"

fun js_elems :: "jsval \<Rightarrow> jsval list" where
  "js_elems (JArr vs) = vs"
| "js_elems _ = []"

text \<open>The nodes that \<open>walkAst\<close> visits, in order; \<open>null\<close> and \<open>undefined\<close> are not visited.\<close>

fun walk_ast :: "jsval \<Rightarrow> jsval list" where
  "walk_ast JUndef = []"
| "walk_ast JNull = []"
| "walk_ast (JArr vs) = JArr vs # concat (map walk_ast vs)"
| "walk_ast (JObj kvs) = JObj kvs # concat (map (\<lambda>kv. walk_ast (snd kv)) kvs)"
| "walk_ast v = [v]"

definition from_items :: "jsval \<Rightarrow> jsval list" where
  "from_items node = js_elems (js_prop node ''from'')"

definition node_tables :: "jsval \<Rightarrow> string list" where
  "node_tables node =
     (case js_prop node ''table'' of
        JStr t \<Rightarrow> if t \<noteq> [] \<and> js_prop node ''type'' \<noteq> JStr ''column_ref'' then [t] else []
      | _ \<Rightarrow> []) @
     List.map_filter (\<lambda>item. js_str_opt (js_prop item ''table'')) (from_items node)"

definition extract_table_refs :: "jsval \<Rightarrow> string list" where
  "extract_table_refs ast = js_uniq (concat (map node_tables (walk_ast ast)))"

definition cte_name :: "jsval \<Rightarrow> string option" where
  "cte_name cte =
     (case js_prop cte ''name'' of
        JStr n \<Rightarrow> Some (to_lower n)
      | v \<Rightarrow> map_option to_lower (js_str_opt (js_prop v ''value'')))"

definition extract_cte_names :: "jsval \<Rightarrow> string set" where
  "extract_cte_names ast =
     set (concat (map (\<lambda>stmt. List.map_filter cte_name (js_elems (js_prop stmt ''with''))) (statements ast)))"

definition first_statement :: "jsval \<Rightarrow> jsval" where
  "first_statement ast = (case statements ast of [] \<Rightarrow> JUndef | s # _ \<Rightarrow> s)"

text \<open>Reading \<open>c.value\<close> of a column that is \<open>null\<close> or \<open>undefined\<close> throws.\<close>

definition insert_column :: "jsval \<Rightarrow> string option result" where
  "insert_column c =
     (if c = JNull \<or> c = JUndef then Inl (JsError ''Cannot read properties'')
      else case js_prop c ''value'' of JStr s \<Rightarrow> Inr (Some s) | _ \<Rightarrow> Inr (js_str_opt c))"

definition extract_insert_columns :: "jsval \<Rightarrow> string list result" where
  "extract_insert_columns ast =
     (let stmt = first_statement ast in
      if js_prop stmt ''type'' \<noteq> JStr ''insert'' then Inr []
      else bindR (mapR insert_column (js_elems (js_prop stmt ''columns'')))
        (\<lambda>cs. Inr (List.map_filter id cs)))"

definition extract_insert_table :: "jsval \<Rightarrow> string option" where
  "extract_insert_table ast =
     (let stmt = first_statement ast in
      if js_prop stmt ''type'' \<noteq> JStr ''insert'' then None
      else case js_elems (js_prop stmt ''table'') of
        [] \<Rightarrow> None | first # _ \<Rightarrow> js_str_opt (js_prop first ''table''))"

definition node_aliases :: "jsval \<Rightarrow> (string \<times> string) list" where
  "node_aliases node =
     List.map_filter (\<lambda>item.
       case (js_prop item ''table'', js_prop item ''as'') of
         (JStr t, JStr a) \<Rightarrow> Some (to_lower a, t) | _ \<Rightarrow> None) (from_items node)"

definition extract_alias_map :: "jsval \<Rightarrow> string \<rightharpoonup> string" where
  "extract_alias_map ast = map_of (rev (concat (map node_aliases (walk_ast ast))))"

definition column_name :: "jsval \<Rightarrow> string option" where
  "column_name node =
     (case js_prop node ''column'' of
        JStr c \<Rightarrow> Some c
      | v \<Rightarrow> js_str_opt (js_prop (js_prop v ''expr'') ''value''))"

definition node_columns :: "jsval \<Rightarrow> (string option \<times> string) list" where
  "node_columns node =
     (if js_prop node ''type'' = JStr ''column_ref'' then
        (case column_name node of
           Some c \<Rightarrow> if c \<noteq> [] \<and> c \<noteq> ''*'' then [(js_str_opt (js_prop node ''table''), c)] else []
         | None \<Rightarrow> [])
      else [])"

definition extract_column_refs :: "jsval \<Rightarrow> (string option \<times> string) list" where
  "extract_column_refs ast = concat (map node_columns (walk_ast ast))"

section \<open>References against the schema\<close>

text \<open>\<open>knownTables\<close>: a later table of the same lower-case name replaces an earlier one.\<close>

definition known_tables :: "schema_info \<Rightarrow> string \<rightharpoonup> string set" where
  "known_tables schema =
     map_of (rev (map (\<lambda>t. (to_lower (tb_name t), set (map (\<lambda>c. to_lower (col_name c)) (tb_columns t))))
       (si_tables schema)))"

definition table_warnings :: "(string \<rightharpoonup> string set) \<Rightarrow> string set \<Rightarrow> string list \<Rightarrow> string list" where
  "table_warnings known ctes refs =
     map (\<lambda>t. ''Table '' @ quote_single t @ '' does not exist'')
       (List.filter (\<lambda>t. to_lower t \<notin> ctes \<and> known (to_lower t) = None) refs)"

definition insert_warnings :: "(string \<rightharpoonup> string set) \<Rightarrow> string option \<Rightarrow> string list \<Rightarrow> string list" where
  "insert_warnings known target cols =
     (case target of
        None \<Rightarrow> []
      | Some t \<Rightarrow>
          if t = [] then []
          else case known (to_lower t) of
            None \<Rightarrow> []
          | Some names \<Rightarrow>
              map (\<lambda>c. ''Column '' @ quote_single c @ '' does not exist in table '' @ quote_single t)
                (List.filter (\<lambda>c. to_lower c \<notin> names) cols))"

text \<open>The table of a reference, aliases resolved; an empty name counts as none.\<close>

definition resolve_table :: "(string \<rightharpoonup> string) \<Rightarrow> string option \<Rightarrow> string option" where
  "resolve_table aliases table =
     (case table of
        None \<Rightarrow> None
      | Some t \<Rightarrow>
          if t = [] then None
          else let r = or_else (aliases (to_lower t)) t in if r = [] then None else Some r)"

definition column_warning ::
    "(string \<rightharpoonup> string set) \<Rightarrow> string set \<Rightarrow> (string \<rightharpoonup> string) \<Rightarrow> string list \<Rightarrow>
       string option \<times> string \<Rightarrow> string list" where
  "column_warning known ctes aliases resolvedTables ref =
     (case resolve_table aliases (fst ref) of
        Some t \<Rightarrow>
          if to_lower t \<in> ctes then []
          else (case known (to_lower t) of
              Some cols \<Rightarrow>
                if to_lower (snd ref) \<notin> cols
                then [''Column '' @ quote_single (or_else (fst ref) [] @ ''.'' @ snd ref)
                       @ '' does not exist on table '' @ quote_single t]
                else []
            | None \<Rightarrow> [])
      | None \<Rightarrow>
          (case resolvedTables of
             [t] \<Rightarrow>
               if to_lower t \<in> ctes then []
               else (case known (to_lower t) of
                   Some cols \<Rightarrow>
                     if to_lower (snd ref) \<notin> cols
                     then [''Column '' @ quote_single (snd ref) @ '' does not exist in table '' @ quote_single t]
                     else []
                 | None \<Rightarrow> [])
           | _ \<Rightarrow> []))"

text \<open>All warnings, in the order in which the code pushes them; a throw leaves none.\<close>

definition schema_warnings :: "schema_info \<Rightarrow> jsval \<Rightarrow> string list result" where
  "schema_warnings schema ast =
     (let known = known_tables schema;
          refs = extract_table_refs ast;
          aliases = extract_alias_map ast;
          ctes = extract_cte_names ast in
      bindR (extract_insert_columns ast) (\<lambda>insertColumns.
      let resolved = List.filter (\<lambda>t. known (to_lower t) \<noteq> None \<or> to_lower t \<in> ctes) refs in
      Inr (table_warnings known ctes refs @
           (if insertColumns = [] then [] else insert_warnings known (extract_insert_table ast) insertColumns) @
           concat (map (column_warning known ctes aliases resolved) (extract_column_refs ast)))))"

section \<open>The count query\<close>

abbreviation spaces_rx :: rx where
  "spaces_rx \<equiv> plus_rx True (Cls is_space)"

text \<open>\<open>(?:"([^"]+)"|(\w+))\<close>, a quoted or plain table name as group 1 or 2.\<close>

definition target_rx :: rx where
  "target_rx = Alt (seq_rx [lit [CHR 0x22], Grp 1 (plus_rx True (Cls (\<lambda>c. c \<noteq> CHR 0x22))), lit [CHR 0x22]])
     (Grp 2 (plus_rx True (Cls is_word)))"

text \<open>\<open>^\s*UPDATE\s+(?:...)\s+SET\s+\<close> and \<open>^\s*DELETE\s+FROM\s+(?:...)\<close>\<close>

definition update_head :: "rx list" where
  "update_head = [Bol, Star True (Cls is_space), lit_i ''UPDATE'', spaces_rx, target_rx, spaces_rx,
     lit_i ''SET'', spaces_rx]"

definition delete_head :: "rx list" where
  "delete_head = [Bol, Star True (Cls is_space), lit_i ''DELETE'', spaces_rx, lit_i ''FROM'', spaces_rx, target_rx]"

text \<open>\<open>.+?\s+WHERE\s+(.+)$\<close> and \<open>\s+WHERE\s+(.+)$\<close>, with the flag \<open>s\<close>\<close>

definition where_tail :: "rx list" where
  "where_tail = [spaces_rx, lit_i ''WHERE'', spaces_rx, Grp 3 (plus_rx True (Cls (\<lambda>_. True))), Eol]"

definition update_where_rx :: rx where
  "update_where_rx = seq_rx (update_head @ [plus_rx False (Cls (\<lambda>_. True))] @ where_tail)"

definition update_rx :: rx where
  "update_rx = seq_rx update_head"

definition delete_where_rx :: rx where
  "delete_where_rx = seq_rx (delete_head @ where_tail)"

definition delete_rx :: rx where
  "delete_rx = seq_rx (delete_head @ [Star True (Cls is_space), Eol])"

text \<open>\<open>m[1] || m[2]\<close>\<close>

definition target_of :: "rx_st \<Rightarrow> string" where
  "target_of m = (case group_of 1 m of Some t \<Rightarrow> t | None \<Rightarrow> or_else (group_of 2 m) [])"

definition count_where :: "rx_st \<Rightarrow> string" where
  "count_where m = ''SELECT COUNT(*) FROM '' @ target_of m @ '' WHERE '' @ or_else (group_of 3 m) []"

definition count_all :: "rx_st \<Rightarrow> string" where
  "count_all m = ''SELECT COUNT(*) FROM '' @ target_of m"

definition count_query_from_regex :: "string \<Rightarrow> string option" where
  "count_query_from_regex sql =
     (case rx_groups update_where_rx sql of Some m \<Rightarrow> Some (count_where m)
      | None \<Rightarrow>
     (case rx_groups update_rx sql of Some m \<Rightarrow> Some (count_all m)
      | None \<Rightarrow>
     (case rx_groups delete_where_rx sql of Some m \<Rightarrow> Some (count_where m)
      | None \<Rightarrow>
     (case rx_groups delete_rx sql of Some m \<Rightarrow> Some (count_all m)
      | None \<Rightarrow> None))))"

text \<open>\<open>/\bINSERT\b.*?\bSELECT\b(.+)/is\<close>\<close>

definition insert_select_rx :: rx where
  "insert_select_rx = seq_rx [Bnd, lit_i ''INSERT'', Bnd, Star False (Cls (\<lambda>_. True)), Bnd, lit_i ''SELECT'', Bnd,
     Grp 1 (plus_rx True (Cls (\<lambda>_. True)))]"

definition build_count_query :: "string \<Rightarrow> jsval option \<Rightarrow> string option" where
  "build_count_query query ast =
     (case js_prop (case ast of None \<Rightarrow> JNull | Some a \<Rightarrow> first_statement a) ''type'' of
        JStr t \<Rightarrow>
          (let type = to_lower t in
           if type = ''update'' \<or> type = ''delete'' then count_query_from_regex query
           else if type = ''insert'' then
             map_option (\<lambda>m. ''SELECT COUNT(*) FROM (SELECT '' @ or_else (group_of 1 m) [] @ '')'')
               (rx_groups insert_select_rx query)
           else None)
      | _ \<Rightarrow> count_query_from_regex query)"

definition estimate_affected_rows ::
    "'w backend \<Rightarrow> connection_config \<Rightarrow> string \<Rightarrow> jsval option \<Rightarrow> ('w sys, jsnum option) io" where
  "estimate_affected_rows bk conn query ast =
     (case build_count_query query ast of
        None \<Rightarrow> ret None
      | Some countQuery \<Rightarrow>
          try_catch
            (bindM (cm_execute bk conn countQuery None None) (\<lambda>result.
             ret (case qr_rows result of
                 (v # _) # _ \<Rightarrow> Some (number_or_zero v) | _ \<Rightarrow> None)))
            (\<lambda>_. ret None))"

section \<open>The handler\<close>

record validation =
  vd_syntax_valid :: bool
  vd_schema_valid :: "bool option"
  vd_category :: "query_category option"
  vd_multi_statement :: bool
  vd_would_be_allowed :: bool
  vd_estimated_rows :: "jsnum option"
  vd_errors :: "string list"
  vd_warnings :: "string list"

text \<open>\<open>query.replace(/\?/g, () => `$${++paramIdx}`)\<close>\<close>

fun number_marks :: "nat \<Rightarrow> string \<Rightarrow> string" where
  "number_marks n [] = []"
| "number_marks n (c # cs) =
     (if c = CHR ''?'' then (CHR ''$'' # nat_str (n + 1)) @ number_marks (n + 1) cs
      else c # number_marks n cs)"

definition start_validation :: "sql_parser \<Rightarrow> string \<Rightarrow> validation" where
  "start_validation astify query =
     (let multi = is_multi_statement astify query in
      \<lparr>vd_syntax_valid = True, vd_schema_valid = None, vd_category = None, vd_multi_statement = multi,
       vd_would_be_allowed = (\<not> multi), vd_estimated_rows = None,
       vd_errors = (if multi then [''Multi-statement queries are not allowed''] else []), vd_warnings = []\<rparr>)"

text \<open>The database decides when the parser package rejects the text.\<close>

definition ask_database ::
    "'w backend \<Rightarrow> connection_config \<Rightarrow> string \<Rightarrow> validation \<Rightarrow> ('w sys, validation) io" where
  "ask_database bk conn query v =
     try_catch
       (bindM (validate_query bk conn query) (\<lambda>(valid, err).
          ret (if valid then v\<lparr>vd_schema_valid := Some True\<rparr>
               else v\<lparr>vd_syntax_valid := False,
                      vd_errors := vd_errors v @ [''Syntax error: '' @ or_else err ''undefined'']\<rparr>)))
       (\<lambda>_. ret (v\<lparr>vd_syntax_valid := False, vd_errors := vd_errors v @
          [''Query could not be validated - parser rejected it and database is unavailable'']\<rparr>))"

definition check_permission :: "sql_parser \<Rightarrow> connection_config \<Rightarrow> string \<Rightarrow> validation \<Rightarrow> validation" where
  "check_permission astify conn query v =
     (if vd_syntax_valid v then
        (let category = classify_query astify query;
             v1 = v\<lparr>vd_category := Some category\<rparr> in
         if category \<notin> permission_hierarchy (cc_permission conn)
         then v1\<lparr>vd_would_be_allowed := False, vd_errors := vd_errors v1 @
                [''Connection '' @ quote_single (cc_name conn) @ '' is '' @ permission_str (cc_permission conn)
                  @ '', '' @ category_str category @ '' queries are not allowed'']\<rparr>
         else v1)
      else v\<lparr>vd_would_be_allowed := False\<rparr>)"

definition validate_schema_references ::
    "'w backend \<Rightarrow> connection_config \<Rightarrow> jsval \<Rightarrow> validation \<Rightarrow> ('w sys, validation) io" where
  "validate_schema_references bk conn ast v =
     try_catch
       (bindM (get_schema bk conn False None) (\<lambda>schema.
        bindM (liftR (schema_warnings schema ast)) (\<lambda>ws.
        ret (v\<lparr>vd_schema_valid := Some (ws = []), vd_warnings := vd_warnings v @ ws\<rparr>))))
       (\<lambda>_. ret (v\<lparr>vd_schema_valid := None\<rparr>))"

definition no_where_warning :: "string \<Rightarrow> string list" where
  "no_where_warning query =
     (let upper = to_upper (trim query) in
      if (starts_with upper ''DELETE'' \<or> starts_with upper ''UPDATE'') \<and> \<not> str_includes upper ''WHERE''
      then [''No WHERE clause - this affects ALL rows in the table''] else [])"

definition add_estimate ::
    "'w backend \<Rightarrow> connection_config \<Rightarrow> string \<Rightarrow> jsval option \<Rightarrow> validation \<Rightarrow> ('w sys, validation) io" where
  "add_estimate bk conn query ast v =
     (if vd_syntax_valid v \<and> \<not> vd_multi_statement v \<and> vd_category v \<in> {Some Write, Some Ddl}
      then bindM (estimate_affected_rows bk conn query ast) (\<lambda>estimate.
        ret (v\<lparr>vd_estimated_rows := estimate, vd_warnings := vd_warnings v @ no_where_warning query\<rparr>))
      else ret v)"

definition handle_validate_query ::
    "sql_parser \<Rightarrow> 'w backend \<Rightarrow> omnibase_config \<Rightarrow> string \<Rightarrow> string \<Rightarrow> ('w sys, validation) io" where
  "handle_validate_query astify bk config connection query =
     bindM (liftR (get_connection config (Some connection))) (\<lambda>conn.
     bindM (liftR (guardR (query = [] \<or> trim query = [])
       (OmnibaseError ''Query cannot be empty'' ''INVALID_QUERY'' None))) (\<lambda>_.
     let v0 = start_validation astify query; ast = astify (number_marks 0 query) in
     bindM (if ast = None then ask_database bk conn query v0 else ret v0) (\<lambda>v1.
     let v2 = check_permission astify conn query v1 in
     bindM (case ast of
         Some a \<Rightarrow> if vd_syntax_valid v2 \<and> truthy a then validate_schema_references bk conn a v2 else ret v2
       | None \<Rightarrow> ret v2) (\<lambda>v3.
     add_estimate bk conn query ast v3))))"

end
