(* ===== verification/QueryValidation.thy ===== *)
theory QueryValidation
  imports ValidateTool ExecuteSql TableLookup
begin

text \<open>
  Correctness of \<open>validate_query\<close>: its verdict against the guards of \<open>execute_sql\<close>, what a
  clean answer says about the references of the query, and what it sends to the database.
\<close>

section \<open>The verdict\<close>

text \<open>What no later part of the handler changes.\<close>

definition verdict_ok :: "sql_parser \<Rightarrow> connection_config \<Rightarrow> string \<Rightarrow> validation \<Rightarrow> bool" where
  "verdict_ok astify conn query v \<longleftrightarrow>
     vd_multi_statement v = is_multi_statement astify query \<and>
     vd_category v = (if vd_syntax_valid v then Some (classify_query astify query) else None) \<and>
     (vd_would_be_allowed v \<longleftrightarrow> vd_syntax_valid v \<and> \<not> is_multi_statement astify query \<and>
        classify_query astify query \<in> permission_hierarchy (cc_permission conn))"

lemma start_validation_simps [simp]:
  "vd_syntax_valid (start_validation astify query)" "vd_category (start_validation astify query) = None"
  "vd_multi_statement (start_validation astify query) = is_multi_statement astify query"
  "vd_would_be_allowed (start_validation astify query) = (\<not> is_multi_statement astify query)"
  "vd_warnings (start_validation astify query) = []" "vd_schema_valid (start_validation astify query) = None"
  by (simp_all add: start_validation_def Let_def)

lemma check_permission_verdict:
  assumes "vd_category v = None" "vd_multi_statement v = is_multi_statement astify query"
    "vd_would_be_allowed v = (\<not> is_multi_statement astify query)"
  shows "verdict_ok astify conn query (check_permission astify conn query v)"
  using assms by (simp add: check_permission_def verdict_ok_def Let_def)

text \<open>Two answers with the same verdict; later parts only add references and estimates.\<close>

definition same_verdict :: "validation \<Rightarrow> validation \<Rightarrow> bool" where
  "same_verdict v v' \<longleftrightarrow> vd_syntax_valid v' = vd_syntax_valid v \<and> vd_category v' = vd_category v \<and>
     vd_multi_statement v' = vd_multi_statement v \<and> vd_would_be_allowed v' = vd_would_be_allowed v"

lemma same_verdict_ok: "verdict_ok astify conn query v \<Longrightarrow> same_verdict v v' \<Longrightarrow> verdict_ok astify conn query v'"
  by (simp add: verdict_ok_def same_verdict_def)

lemma ask_database_Ret:
  "ask_database bk conn query v s = (r, s') \<Longrightarrow> \<exists>v'. r = Ret v' \<and> vd_category v' = vd_category v \<and>
     vd_multi_statement v' = vd_multi_statement v \<and> vd_would_be_allowed v' = vd_would_be_allowed v"
  unfolding ask_database_def validate_query_def try_catch_run bindM_run ensure_connected_run call_backend_run
  by (auto simp: run_simps split: prod.splits sum.splits if_splits)

lemma get_schema_no_hang: "get_schema bk conn force exact s = (r, s') \<Longrightarrow> r \<noteq> Hang"
  by (auto simp: get_schema_run ensure_connected_run call_backend_run
      split: option.splits prod.splits sum.splits if_splits)

lemma validate_references_Ret:
  assumes "validate_schema_references bk conn ast v s = (r, s')"
  shows "\<exists>v'. r = Ret v' \<and> same_verdict v v'"
proof -
  obtain r1 s1 where schema: "get_schema bk conn False None s = (r1, s1)" by fastforce
  show ?thesis
  proof (cases r1)
    case (Ret x)
    then show ?thesis
      using assms schema
      by (cases "schema_warnings x ast") (auto simp: validate_schema_references_def run_simps same_verdict_def)
  next
    case (Throw e)
    then show ?thesis
      using assms schema by (auto simp: validate_schema_references_def run_simps same_verdict_def)
  next
    case Hang
    then show ?thesis using get_schema_no_hang schema by blast
  qed
qed

lemma estimate_Ret:
  "estimate_affected_rows bk conn query ast s = (r, s') \<Longrightarrow> \<exists>n. r = Ret n"
  unfolding estimate_affected_rows_def cm_execute_def
  by (auto simp: run_simps ensure_connected_run split: option.splits prod.splits sum.splits if_splits)

lemma add_estimate_Ret:
  assumes "add_estimate bk conn query ast v s = (r, s')"
  shows "\<exists>v'. r = Ret v' \<and> same_verdict v v' \<and> vd_schema_valid v' = vd_schema_valid v"
proof (cases "vd_syntax_valid v \<and> \<not> vd_multi_statement v \<and> vd_category v \<in> {Some Write, Some Ddl}")
  case True
  obtain r1 s1 where est: "estimate_affected_rows bk conn query ast s = (r1, s1)" by fastforce
  then obtain n where "r1 = Ret n" using estimate_Ret by blast
  then show ?thesis using assms True est by (auto simp: add_estimate_def run_simps same_verdict_def)
next
  case False
  then have "r = Ret v" using assms by (simp only: add_estimate_def if_False ret_run prod.inject)
  then show ?thesis by (simp add: same_verdict_def)
qed

text \<open>
  The handler, for a known connection and a query that is not blank: it always answers,
  and the verdict is the one of \<open>verdict_ok\<close>.
\<close>

lemma handle_validate_query_answers:
  assumes conn: "get_connection config (Some connection) = Inr conn" and "trim query \<noteq> []"
  shows "\<exists>v s'. handle_validate_query astify bk config connection query s = (Ret v, s') \<and>
     verdict_ok astify conn query v"
proof -
  have nonblank: "query \<noteq> []" using assms(2) by (auto simp: trim_def trim_start_def trim_end_def)
  let ?ast = "astify (number_marks 0 query)" and ?v0 = "start_validation astify query"
  obtain r1 s1 where run1: "(if ?ast = None then ask_database bk conn query ?v0 else ret ?v0) s = (r1, s1)"
    by fastforce
  then obtain v1 where v1: "r1 = Ret v1" "vd_category v1 = None"
      "vd_multi_statement v1 = is_multi_statement astify query"
      "vd_would_be_allowed v1 = (\<not> is_multi_statement astify query)"
    using ask_database_Ret [of bk conn query ?v0 s r1 s1] by (auto simp: run_simps split: if_splits)
  define v2 where "v2 = check_permission astify conn query v1"
  have v2: "verdict_ok astify conn query v2" unfolding v2_def using v1 by (intro check_permission_verdict)
  obtain r3 s3 where run3: "(case ?ast of
         Some a \<Rightarrow> if vd_syntax_valid v2 \<and> truthy a then validate_schema_references bk conn a v2 else ret v2
       | None \<Rightarrow> ret v2) s1 = (r3, s3)"
    by fastforce
  have "\<exists>v3. r3 = Ret v3 \<and> verdict_ok astify conn query v3"
  proof (cases "\<exists>a. ?ast = Some a \<and> vd_syntax_valid v2 \<and> truthy a")
    case True
    then obtain a where "validate_schema_references bk conn a v2 s1 = (r3, s3)" using run3 by auto
    then show ?thesis using validate_references_Ret same_verdict_ok [OF v2] by blast
  next
    case False
    then have "r3 = Ret v2" using run3 by (auto simp: run_simps split: option.splits if_splits)
    then show ?thesis using v2 by blast
  qed
  then obtain v3 where v3: "r3 = Ret v3" "verdict_ok astify conn query v3" by blast
  obtain r s' where run: "add_estimate bk conn query ?ast v3 s3 = (r, s')" by fastforce
  then obtain v where r: "r = Ret v" "same_verdict v3 v" using add_estimate_Ret by blast
  have "handle_validate_query astify bk config connection query s = (r, s')"
    unfolding handle_validate_query_def Let_def
    by (simp only: bindM_run liftR_run conn sum.case prod.case outcome.case nonblank assms(2) guardR_False
        simp_thms run1 v1(1) v2_def [symmetric] run3 v3(1) run)
  then show ?thesis using r same_verdict_ok [OF v3(2)] by blast
qed

text \<open>
  \<open>execute_sql\<close> admits what is reported as allowed, up to the rules that \<open>validate_query\<close>
  does not know: the content rules and the read-only tables.
\<close>

lemma admitted_iff_allowed:
  assumes "verdict_ok astify conn query v" and "vd_syntax_valid v" and "trim query \<noteq> []"
  shows "(\<exists>category. execute_guards astify conn query = Inr category) \<longleftrightarrow>
     vd_would_be_allowed v \<and> check_sql_security query (cc_allowAllPragmas conn) = Inr () \<and>
     check_read_only_tables query (classify_query astify query) (cc_readOnlyTables conn) = Inr ()"
  using assms by (auto simp: execute_guards_Inr verdict_ok_def)

section \<open>References\<close>

text \<open>A clean answer: every table is known or defined by the query, and so is every column
  whose table is known.\<close>

definition column_known ::
    "(string \<rightharpoonup> string set) \<Rightarrow> string set \<Rightarrow> (string \<rightharpoonup> string) \<Rightarrow> string option \<times> string \<Rightarrow> bool" where
  "column_known known ctes aliases ref \<longleftrightarrow>
     (\<forall>t cols. resolve_table aliases (fst ref) = Some t \<longrightarrow> to_lower t \<notin> ctes \<longrightarrow>
        known (to_lower t) = Some cols \<longrightarrow> to_lower (snd ref) \<in> cols)"

lemma column_warning_Nil:
  "column_warning known ctes aliases resolved ref = [] \<Longrightarrow> column_known known ctes aliases ref"
  by (auto simp: column_warning_def column_known_def split: if_splits)

lemma table_warnings_Nil:
  "table_warnings known ctes refs = [] \<longleftrightarrow>
     (\<forall>t \<in> set refs. to_lower t \<in> ctes \<or> known (to_lower t) \<noteq> None)"
  by (auto simp: table_warnings_def filter_empty_conv)

lemma schema_warnings_Nil:
  assumes "schema_warnings schema ast = Inr []"
  shows "(\<forall>t \<in> set (extract_table_refs ast).
       to_lower t \<in> extract_cte_names ast \<or> known_tables schema (to_lower t) \<noteq> None) \<and>
     (\<forall>ref \<in> set (extract_column_refs ast).
       column_known (known_tables schema) (extract_cte_names ast) (extract_alias_map ast) ref)"
  using assms column_warning_Nil
  by (fastforce simp: schema_warnings_def Let_def bindR_eq_Inr table_warnings_Nil)

lemma known_tables_Some:
  "known_tables schema n = Some cols \<Longrightarrow>
     \<exists>t \<in> set (si_tables schema). to_lower (tb_name t) = n \<and> cols = (\<lambda>c. to_lower (col_name c)) ` set (tb_columns t)"
proof -
  assume "known_tables schema n = Some cols"
  from map_of_SomeD [OF this [unfolded known_tables_def]] show ?thesis by auto
qed

text \<open>With a cached schema the references are checked against it.\<close>

lemma references_ready:
  assumes "schema_ready conn schema s"
  shows "validate_schema_references bk conn ast v s =
     (Ret (case schema_warnings schema ast of
         Inl _ \<Rightarrow> v\<lparr>vd_schema_valid := None\<rparr>
       | Inr ws \<Rightarrow> v\<lparr>vd_schema_valid := Some (ws = []), vd_warnings := vd_warnings v @ ws\<rparr>), s)"
proof -
  have "get_schema bk conn False None s = (Ret schema, s)"
    using assms by (simp add: get_schema_run ensure_connected_run schema_ready_def)
  then show ?thesis by (simp add: validate_schema_references_def run_simps split: sum.split)
qed

lemma schema_valid_no_warnings:
  assumes conn: "get_connection config (Some connection) = Inr conn" and "trim query \<noteq> []"
    and ready: "schema_ready conn schema s" and ast: "astify (number_marks 0 query) = Some ast"
    and result: "handle_validate_query astify bk config connection query s = (Ret v, s')"
      "vd_schema_valid v = Some True"
  shows "schema_warnings schema ast = Inr []"
proof -
  have nonblank: "query \<noteq> []" using assms(2) by (auto simp: trim_def trim_start_def trim_end_def)
  define v2 where "v2 = check_permission astify conn query (start_validation astify query)"
  have start: "vd_schema_valid v2 = None" by (simp add: v2_def check_permission_def Let_def)
  define v3 where "v3 = (if vd_syntax_valid v2 \<and> truthy ast
    then (case schema_warnings schema ast of
         Inl _ \<Rightarrow> v2\<lparr>vd_schema_valid := None\<rparr>
       | Inr ws \<Rightarrow> v2\<lparr>vd_schema_valid := Some (ws = []), vd_warnings := vd_warnings v2 @ ws\<rparr>) else v2)"
  have run3: "(if vd_syntax_valid v2 \<and> truthy ast then validate_schema_references bk conn ast v2 else ret v2) s
      = (Ret v3, s)"
    by (simp add: v3_def references_ready [OF ready] ret_run)
  have "handle_validate_query astify bk config connection query s = add_estimate bk conn query (Some ast) v3 s"
    unfolding handle_validate_query_def Let_def ast
    by (simp only: bindM_run liftR_run conn sum.case prod.case outcome.case option.case option.distinct if_False
        nonblank assms(2) guardR_False simp_thms ret_run v2_def [symmetric] run3)
  then have "add_estimate bk conn query (Some ast) v3 s = (Ret v, s')" using result(1) by simp
  from add_estimate_Ret [OF this] have "vd_schema_valid v3 = Some True" using result(2) by simp
  then show ?thesis using start by (auto simp: v3_def split: if_splits sum.splits)
qed

lemma known_tables_dom: "known_tables schema (to_lower n) \<noteq> None \<longleftrightarrow> find_table n schema \<noteq> None"
proof -
  have "known_tables schema (to_lower n) \<noteq> None \<longleftrightarrow> to_lower n \<in> (\<lambda>t. to_lower (tb_name t)) ` set (si_tables schema)"
    by (force simp: known_tables_def map_of_eq_None_iff)
  also have "\<dots> \<longleftrightarrow> find_table n schema \<noteq> None"
    unfolding tables.known_name by (auto simp: image_iff intro: sym)
  finally show ?thesis .
qed

section \<open>What is sent\<close>

text \<open>Validating a read on a live connection with a cached schema leaves the whole state as it was.\<close>

lemma validate_read_silent:
  assumes conn: "get_connection config (Some connection) = Inr conn" and "trim query \<noteq> []"
    and ready: "schema_ready conn schema s" and ast: "astify (number_marks 0 query) = Some ast"
    and harmless: "is_multi_statement astify query \<or> classify_query astify query = Read"
  shows "snd (handle_validate_query astify bk config connection query s) = s"
proof -
  have nonblank: "query \<noteq> []" using assms(2) by (auto simp: trim_def trim_start_def trim_end_def)
  define v2 where "v2 = check_permission astify conn query (start_validation astify query)"
  have schema: "get_schema bk conn False None s = (Ret schema, s)"
    using ready by (simp add: get_schema_run ensure_connected_run schema_ready_def)
  have v2: "verdict_ok astify conn query v2" unfolding v2_def by (intro check_permission_verdict) simp_all
  have "\<exists>v3. (if vd_syntax_valid v2 \<and> truthy ast then validate_schema_references bk conn ast v2 else ret v2) s =
      (Ret v3, s) \<and> same_verdict v2 v3"
    by (cases "schema_warnings schema ast")
      (auto simp: validate_schema_references_def run_simps schema same_verdict_def)
  then obtain v3 where run3: "(if vd_syntax_valid v2 \<and> truthy ast then validate_schema_references bk conn ast v2
      else ret v2) s = (Ret v3, s)" and "same_verdict v2 v3" by blast
  then have "verdict_ok astify conn query v3" using same_verdict_ok v2 by blast
  then have skip: "\<not> (vd_syntax_valid v3 \<and> \<not> vd_multi_statement v3 \<and> vd_category v3 \<in> {Some Write, Some Ddl})"
    using harmless by (auto simp: verdict_ok_def)
  have estimate: "add_estimate bk conn query (Some ast) v3 s = (Ret v3, s)"
    unfolding add_estimate_def if_not_P [OF skip] ret_run ..
  show ?thesis
    unfolding handle_validate_query_def Let_def ast
    by (simp only: bindM_run liftR_run conn sum.case prod.case outcome.case option.case option.distinct if_False
        nonblank assms(2) guardR_False simp_thms ret_run v2_def [symmetric] run3 estimate snd_conv)
qed

lemma keeps_handle_validate_query [keeps_intros]:
  "keeps cm_inv (handle_validate_query astify bk config connection query)"
proof -
  have ask: "keeps cm_inv (ask_database bk conn query v)" for conn v
    unfolding ask_database_def by (intro keeps_intros) (auto intro!: keeps_intros split: prod.split)
  have refs: "keeps cm_inv (validate_schema_references bk conn ast v)" for conn ast v
    unfolding validate_schema_references_def by (intro keeps_intros)
  have est: "keeps cm_inv (add_estimate bk conn query ast v)" for conn ast v
    unfolding add_estimate_def estimate_affected_rows_def
    by (auto intro!: keeps_intros split: option.split)
  show ?thesis
    unfolding handle_validate_query_def Let_def
    by (auto intro!: keeps_intros ask refs est split: option.split)
qed

end
