(* ===== verification/NumberText.thy ===== *)
theory NumberText
  imports JsValue
begin

text \<open>
  Numbers and their text: \<open>String(n)\<close> is read back by \<open>Number\<close> as the same number. The text
  of a finite number is an integer part without superfluous zeros, an optional fraction and
  an optional exponent; \<open>num_text\<close> describes it, and both readers of the development (this
  one and the one of JSON) are proved against it.
\<close>

section \<open>Canonical numbers\<close>

fun canonical :: "jsnum \<Rightarrow> bool" where
  "canonical (Fin neg m e) \<longleftrightarrow> (if m = 0 then \<not> neg \<and> e = 0 else m mod 10 \<noteq> 0)"
| "canonical _ \<longleftrightarrow> True"

lemma strip10_stop: "m mod 10 \<noteq> 0 \<Longrightarrow> strip10 m e = (m, e)"
  by (simp add: strip10.simps)

lemma strip10_pow: "m mod 10 \<noteq> 0 \<Longrightarrow> strip10 (m * 10 ^ k) e = (m, e + int k)"
proof (induction k arbitrary: e)
  case 0
  then show ?case by (simp add: strip10_stop)
next
  case (Suc k)
  have "m * 10 ^ Suc k \<noteq> 0" "m * 10 ^ Suc k mod 10 = 0" "m * 10 ^ Suc k div 10 = m * 10 ^ k"
    using Suc.prems by auto
  then have "strip10 (m * 10 ^ Suc k) e = strip10 (m * 10 ^ k) (e + 1)"
    unfolding strip10.simps [of "m * 10 ^ Suc k" e] by (simp only: simp_thms if_True)
  with Suc.IH [OF Suc.prems, of "e + 1"] show ?case by simp
qed

lemma mk_num_canonical: "m mod 10 \<noteq> 0 \<Longrightarrow> mk_num neg (m * 10 ^ k) (e - int k) = Fin neg m e"
  by (auto simp: mk_num_def strip10_pow)

lemma canonical_strip10: "m \<noteq> 0 \<Longrightarrow> fst (strip10 m e) mod 10 \<noteq> 0 \<and> fst (strip10 m e) \<noteq> 0"
proof (induction m e rule: strip10.induct)
  case (1 m e)
  show ?case
  proof (cases "m mod 10 = 0")
    case True
    then have "m div 10 \<noteq> 0" using "1.prems" by auto
    then have "fst (strip10 (m div 10) (e + 1)) mod 10 \<noteq> 0 \<and> fst (strip10 (m div 10) (e + 1)) \<noteq> 0"
      using "1.IH" "1.prems" True by simp
    then show ?thesis using True "1.prems" by (simp add: strip10.simps [of m])
  next
    case False
    then show ?thesis using "1.prems" by (simp add: strip10.simps [of m])
  qed
qed

lemma canonical_mk_num: "canonical (mk_num neg m e)"
  using canonical_strip10 [of m e] by (auto simp: mk_num_def split: prod.split)

lemma canonical_int_num: "canonical (int_num i)"
  by (simp add: int_num_def canonical_mk_num)

section \<open>The shape of a printed number\<close>

text \<open>
  \<open>num_text w m e\<close>: the text \<open>w\<close> is an integer part, a fraction and an exponent, and
  denotes \<open>m * 10^e\<close>.
\<close>

definition int_text :: "string \<Rightarrow> bool" where
  "int_text ip \<longleftrightarrow> ip = ''0'' \<or> (ip \<noteq> [] \<and> list_all is_digit ip \<and> hd ip \<noteq> CHR ''0'')"

definition frac_text :: "string \<Rightarrow> string \<Rightarrow> bool" where
  "frac_text w fp \<longleftrightarrow> list_all is_digit fp \<and> (if fp = [] then w = [] else w = CHR ''.'' # fp)"

definition exp_text :: "string \<Rightarrow> int \<Rightarrow> bool" where
  "exp_text w x \<longleftrightarrow> (w = [] \<and> x = 0) \<or>
     (\<exists>ds. ds \<noteq> [] \<and> list_all is_digit ds \<and>
        (w = ''e+'' @ ds \<and> x = int (radix_val 10 ds) \<or> w = ''e-'' @ ds \<and> x = - int (radix_val 10 ds)))"

definition num_text :: "string \<Rightarrow> nat \<Rightarrow> int \<Rightarrow> bool" where
  "num_text w m e \<longleftrightarrow>
     (\<exists>ip fw fp xw x. w = ip @ fw @ xw \<and> int_text ip \<and> frac_text fw fp \<and> exp_text xw x \<and>
        m = radix_val 10 (ip @ fp) \<and> e = x - int (length fp))"

lemma nat_str_nonempty [simp]: "nat_str n \<noteq> []"
  by (subst nat_str.simps) simp

lemma list_all_nat_str: "list_all is_digit (nat_str n)"
  by (auto simp: list_all_iff dest: nat_str_digits)

lemma hd_nat_str: "0 < n \<Longrightarrow> hd (nat_str n) \<noteq> CHR ''0''"
proof (induction n rule: nat_str.induct)
  case (1 n)
  show ?case
  proof (cases "n < 10")
    case True
    have "digit_val (digit_char n) \<noteq> digit_val CHR ''0''"
      using digit_val_digit_char [OF True] "1.prems" by (simp add: digit_val_def)
    then show ?thesis using True by (auto simp: nat_str.simps [of n])
  next
    case False
    then have "hd (nat_str (n div 10)) \<noteq> CHR ''0''" using "1.IH" by simp
    then show ?thesis using False by (simp add: nat_str.simps [of n] hd_append)
  qed
qed

lemma int_text_nat_str: "int_text (nat_str n)"
proof (cases n)
  case 0
  moreover have "nat_str 0 = ''0''" by code_simp
  ultimately show ?thesis by (simp add: int_text_def)
next
  case (Suc k)
  then show ?thesis using hd_nat_str [of n] by (simp add: int_text_def list_all_nat_str)
qed

lemma radix_val_append: "radix_val b (s @ t) = radix_val b s * b ^ length t + radix_val b t"
  by (induction t rule: rev_induct) (simp_all add: radix_val_snoc radix_val_def [of b "[]"] append_assoc [symmetric]
      algebra_simps del: append_assoc)

lemma radix_val_zeros: "radix_val 10 (replicate n CHR ''0'') = 0"
  by (induction n) (simp_all add: radix_val_def digit_val_def)

lemma list_all_zeros: "list_all is_digit (replicate n CHR ''0'')"
  by (simp add: list_all_iff is_digit_def)

lemma exp_text_sign:
  "exp_text (''e'' @ (if n - 1 < 0 then ''-'' else ''+'') @ nat_str (nat \<bar>n - 1\<bar>)) (n - 1)" for n :: int
  using list_all_nat_str [of "nat \<bar>n - 1\<bar>"] radix_val_nat_str [of "nat \<bar>n - 1\<bar>"]
  by (auto simp: exp_text_def intro!: exI [of _ "nat_str (nat \<bar>n - 1\<bar>)"])

lemma num_textI:
  "w = ip @ fw @ xw \<Longrightarrow> int_text ip \<Longrightarrow> frac_text fw fp \<Longrightarrow> exp_text xw x \<Longrightarrow>
     m = radix_val 10 (ip @ fp) \<Longrightarrow> e = x - int (length fp) \<Longrightarrow> num_text w m e"
  unfolding num_text_def by blast

lemma frac_text_some: "list_all is_digit fp \<Longrightarrow> fp \<noteq> [] \<Longrightarrow> frac_text (''.'' @ fp) fp"
  by (simp add: frac_text_def)

lemma no_frac: "frac_text [] []" and no_exp: "exp_text [] 0"
  by (simp_all add: frac_text_def exp_text_def)

text \<open>A prefix of a number's digits is again an integer part.\<close>

lemma int_text_prefix: "0 < m \<Longrightarrow> 0 < k \<Longrightarrow> int_text (take k (nat_str m) @ replicate j CHR ''0'')"
proof -
  assume "0 < m" "0 < k"
  then have "take k (nat_str m) \<noteq> []" "hd (take k (nat_str m)) \<noteq> CHR ''0''"
    using hd_nat_str [of m] by simp_all
  then show ?thesis
    by (simp add: int_text_def list_all_take_drop list_all_nat_str list_all_zeros hd_append)
qed

lemma unsigned_text:
  assumes m: "0 < m"
  shows "\<exists>m' e'. num_text (unsigned_str m e) m' e' \<and> (\<exists>j. m' = m * 10 ^ j \<and> e' = e - int j)"
proof -
  let ?ds = "nat_str m" and ?k = "int (length (nat_str m))"
  let ?n = "?k + e"
  consider (whole) "?k \<le> ?n" "?n \<le> 21" | (point) "\<not> (?k \<le> ?n \<and> ?n \<le> 21)" "0 < ?n" "?n \<le> 21"
    | (small) "\<not> (?k \<le> ?n \<and> ?n \<le> 21)" "\<not> (0 < ?n \<and> ?n \<le> 21)" "-6 < ?n" "?n \<le> 0"
    | (exp) "\<not> (?k \<le> ?n \<and> ?n \<le> 21)" "\<not> (0 < ?n \<and> ?n \<le> 21)" "\<not> (-6 < ?n \<and> ?n \<le> 0)"
    by blast
  then show ?thesis
  proof cases
    case whole
    let ?z = "replicate (nat e) CHR ''0''"
    have "unsigned_str m e = (?ds @ ?z) @ [] @ []" using whole by (simp add: unsigned_str_def Let_def)
    moreover have "int_text (?ds @ ?z)" using int_text_prefix [OF m, of "length ?ds" "nat e"] by simp
    moreover have "m * 10 ^ nat e = radix_val 10 ((?ds @ ?z) @ [])"
      by (simp add: radix_val_append radix_val_zeros radix_val_nat_str)
    ultimately have "num_text (unsigned_str m e) (m * 10 ^ nat e) 0"
      using num_textI [OF _ _ no_frac no_exp] by simp
    then show ?thesis using whole by (intro exI [of _ "m * 10 ^ nat e"] exI [of _ 0]) auto
  next
    case point
    let ?i = "nat ?n"
    have "unsigned_str m e = take ?i ?ds @ (''.'' @ drop ?i ?ds) @ []"
      using point by (auto simp: unsigned_str_def Let_def)
    moreover have "int_text (take ?i ?ds)" using int_text_prefix [OF m, of ?i 0] point by simp
    moreover have len: "length (drop ?i ?ds) = nat (- e)" using point by simp
    moreover have "frac_text (''.'' @ drop ?i ?ds) (drop ?i ?ds)"
      using point len by (intro frac_text_some) (auto simp: list_all_take_drop list_all_nat_str)
    ultimately have "num_text (unsigned_str m e) m e"
      using point
      by (intro num_textI [where ip = "take ?i ?ds" and fp = "drop ?i ?ds" and xw = "[]" and x = 0])
        (simp_all add: radix_val_nat_str no_exp)
    then show ?thesis by (intro exI [of _ m] exI [of _ e] conjI exI [of _ 0]) simp_all
  next
    case small
    let ?fp = "replicate (nat (- ?n)) CHR ''0'' @ ?ds"
    have "unsigned_str m e = ''0'' @ (''.'' @ ?fp) @ []" using small by (auto simp: unsigned_str_def Let_def)
    moreover have "frac_text (''.'' @ ?fp) ?fp"
      by (intro frac_text_some) (simp_all add: list_all_zeros list_all_nat_str)
    moreover have "int_text ''0''" by (simp add: int_text_def)
    moreover have "radix_val 10 (''0'' @ ?fp) = m"
      using radix_val_append [of 10 "''0''" ?fp] by (simp add: radix_val_append radix_val_zeros radix_val_nat_str
        radix_val_def [of 10 "''0''"] digit_val_def)
    ultimately have "num_text (unsigned_str m e) m e"
      using small
      by (intro num_textI [where ip = "''0''" and fp = ?fp and xw = "[]" and x = 0]) (simp_all add: no_exp)
    then show ?thesis by (intro exI [of _ m] exI [of _ e] conjI exI [of _ 0]) simp_all
  next
    case exp
    let ?x = "''e'' @ (if ?n - 1 < 0 then ''-'' else ''+'') @ nat_str (nat \<bar>?n - 1\<bar>)"
    have x: "exp_text ?x (?n - 1)" by (rule exp_text_sign)
    have one: "int_text (take 1 ?ds)" using int_text_prefix [OF m, of 1 0] by simp
    have "num_text (unsigned_str m e) m e"
    proof (cases "?k = 1")
      case True
      then have "unsigned_str m e = ?ds @ [] @ ?x" using exp by (auto simp: unsigned_str_def Let_def)
      then show ?thesis
        using True x
        by (intro num_textI [where ip = ?ds and fw = "[]" and fp = "[]" and x = "?n - 1"])
          (simp_all add: radix_val_nat_str int_text_nat_str no_frac)
    next
      case False
      then have "unsigned_str m e = take 1 ?ds @ (''.'' @ drop 1 ?ds) @ ?x"
        using exp by (auto simp: unsigned_str_def Let_def)
      moreover have "drop 1 ?ds \<noteq> []" using False nat_str_nonempty [of m] by (cases ?ds) auto
      then have "frac_text (''.'' @ drop 1 ?ds) (drop 1 ?ds)"
        by (intro frac_text_some) (simp_all add: list_all_take_drop list_all_nat_str)
      moreover have "int (length (drop 1 ?ds)) = ?k - 1" using nat_str_nonempty [of m] by (cases ?ds) auto
      ultimately show ?thesis
        using one x
        by (intro num_textI [where ip = "take 1 ?ds" and fp = "drop 1 ?ds" and x = "?n - 1"])
          (simp_all add: radix_val_nat_str)
    qed
    then show ?thesis by (intro exI [of _ m] exI [of _ e] conjI exI [of _ 0]) simp_all
  qed
qed

section \<open>Reading it back\<close>

lemma span_digits:
  assumes "list_all is_digit ds" and "r = [] \<or> \<not> is_digit (hd r)"
  shows "takeWhile is_digit (ds @ r) = ds" "dropWhile is_digit (ds @ r) = r"
proof -
  have "\<forall>c \<in> set ds. is_digit c" using assms(1) by (simp add: list_all_iff)
  moreover have "takeWhile is_digit r = []" "dropWhile is_digit r = r" using assms(2) by (cases r; simp)+
  ultimately show "takeWhile is_digit (ds @ r) = ds" "dropWhile is_digit (ds @ r) = r"
    by (simp_all add: takeWhile_append2 dropWhile_append2)
qed

lemma span_digits_all:
  "list_all is_digit ds \<Longrightarrow> takeWhile is_digit ds = ds" "list_all is_digit ds \<Longrightarrow> dropWhile is_digit ds = []"
  using span_digits [of ds "[]"] by simp_all

lemma not_digits [simp]:
  "\<not> is_digit CHR ''.''" "\<not> is_digit CHR ''e''" "\<not> is_digit CHR ''-''" "\<not> is_digit CHR ''+''"
  "\<not> is_digit CHR ''I''" "\<not> is_digit CHR ''N''"
  by (simp_all add: is_digit_def)

lemma exp_text_start: "exp_text w x \<Longrightarrow> w = [] \<or> hd w = CHR ''e''"
  by (auto simp: exp_text_def)

lemma frac_exp_start: "frac_text fw fp \<Longrightarrow> exp_text xw x \<Longrightarrow> fw @ xw = [] \<or> \<not> is_digit (hd (fw @ xw))"
  using exp_text_start [of xw x] by (auto simp: frac_text_def hd_append split: if_splits)

lemma int_text_digits: "int_text ip \<Longrightarrow> list_all is_digit ip \<and> ip \<noteq> []"
  by (auto simp: int_text_def is_digit_def)

lemma radix_digits_10: "ds \<noteq> [] \<Longrightarrow> list_all is_digit ds \<Longrightarrow> radix_digits 10 ds"
  by (auto simp: radix_digits_def list_all_iff is_digit_def digit_val_def Let_def)

lemma parse_unsigned_text:
  assumes "num_text w m e"
  shows "parse_unsigned neg w = mk_num neg m e"
proof -
  obtain ip fw fp xw x where w: "w = ip @ fw @ xw" "int_text ip" "frac_text fw fp" "exp_text xw x"
    and v: "m = radix_val 10 (ip @ fp)" "e = x - int (length fp)"
    using assms unfolding num_text_def by blast
  have ip: "takeWhile is_digit w = ip" "dropWhile is_digit w = fw @ xw" "ip \<noteq> []"
    unfolding w(1) using int_text_digits [OF w(2)] frac_exp_start [OF w(3,4)] by (simp_all add: span_digits)
  have frac: "(case fw @ xw of [] \<Rightarrow> ([], []) | c # r \<Rightarrow>
      if c = CHR ''.'' then (takeWhile is_digit r, dropWhile is_digit r) else ([], fw @ xw)) = (fp, xw)"
  proof (cases "fp = []")
    case True
    then have "fw = []" using w(3) by (simp add: frac_text_def)
    then show ?thesis using True exp_text_start [OF w(4)] by (cases xw) auto
  next
    case False
    then have "fw = CHR ''.'' # fp" "list_all is_digit fp" using w(3) by (auto simp: frac_text_def)
    moreover have "xw = [] \<or> \<not> is_digit (hd xw)" using exp_text_start [OF w(4)] by auto
    ultimately show ?thesis by (simp add: span_digits)
  qed
  from w(4) consider "xw = []" "x = 0"
    | ds where "ds \<noteq> []" "list_all is_digit ds" "xw = ''e+'' @ ds" "x = int (radix_val 10 ds)"
    | ds where "ds \<noteq> []" "list_all is_digit ds" "xw = ''e-'' @ ds" "x = - int (radix_val 10 ds)"
    unfolding exp_text_def by blast
  then show ?thesis
    unfolding parse_unsigned_def Let_def ip(1,2) frac
    by cases (simp_all add: ip(3) v parse_sign_def radix_digits_10 minus_diff_commute)
qed

lemma num_text_chars: "num_text w m e \<Longrightarrow> w \<noteq> [] \<and> is_digit (hd w)"
  using int_text_digits by (fastforce simp: num_text_def neq_Nil_conv)

lemma num_char_not_space: "num_char c \<Longrightarrow> \<not> is_space c"
proof
  assume "num_char c" "is_space c"
  then show False
    unfolding num_char_def is_space_def is_digit_def Let_def
    by (elim disjE) auto
qed

lemma trim_num_chars: "list_all num_char s \<Longrightarrow> trim s = s"
proof -
  assume s: "list_all num_char s"
  have same: "dropWhile is_space t = t" if "list_all num_char t" for t
    using that num_char_not_space by (cases t) auto
  have "list_all num_char (rev s)" using s by (simp add: list_all_iff)
  from same [OF this] same [OF s] show ?thesis by (simp add: trim_def trim_start_def trim_end_def)
qed

lemma unsigned_canonical:
  assumes "m mod 10 \<noteq> 0"
  shows "parse_unsigned neg (unsigned_str m e) = Fin neg m e" "unsigned_str m e \<noteq> []"
    "is_digit (hd (unsigned_str m e))"
proof -
  have "0 < m" using assms by (cases m) auto
  then obtain m' e' j where t: "num_text (unsigned_str m e) m' e'" "m' = m * 10 ^ j" "e' = e - int j"
    using unsigned_text by blast
  then show "parse_unsigned neg (unsigned_str m e) = Fin neg m e"
    using parse_unsigned_text [OF t(1)] mk_num_canonical [OF assms] by simp
  show "unsigned_str m e \<noteq> []" "is_digit (hd (unsigned_str m e))" using num_text_chars [OF t(1)] by blast+
qed

text \<open>\<open>Number(String(n))\<close> is \<open>n\<close>.\<close>

lemma parse_sign_digit: "s \<noteq> [] \<Longrightarrow> is_digit (hd s) \<Longrightarrow> parse_sign s = (False, s)"
  by (cases s) (auto simp: parse_sign_def)

lemma num_char_lower: "num_char c \<Longrightarrow> to_lower_char c \<notin> {CHR ''x'', CHR ''o'', CHR ''b''}"
proof (cases "is_digit c")
  case True
  then have "to_lower_char c = c" by (auto simp: is_digit_def to_lower_char_def Let_def)
  then show ?thesis using True by (auto simp: is_digit_def)
next
  case False
  have "\<forall>d \<in> set ''-+.eInfinityNaN''. to_lower_char d \<notin> {CHR ''x'', CHR ''o'', CHR ''b''}" by code_simp
  moreover assume "num_char c"
  ultimately show ?thesis using False unfolding num_char_def by blast
qed

lemma no_radix_prefix:
  assumes "list_all num_char s"
  shows "to_lower (take 2 s) \<notin> {''0x'', ''0o'', ''0b''}"
proof
  assume "to_lower (take 2 s) \<in> {''0x'', ''0o'', ''0b''}"
  then obtain a b r where "s = a # b # r" "to_lower_char b \<in> {CHR ''x'', CHR ''o'', CHR ''b''}"
    by (cases s; cases "tl s") (auto simp: to_lower_def)
  then show False using assms num_char_lower by auto
qed

lemma number_of_unsigned:
  assumes "m mod 10 \<noteq> 0"
  shows "number_of_string (unsigned_str m e) = Fin False m e"
    "number_of_string (CHR ''-'' # unsigned_str m e) = Fin True m e"
proof -
  let ?u = "unsigned_str m e"
  have trim: "trim ?u = ?u" "trim (CHR ''-'' # ?u) = CHR ''-'' # ?u"
    using unsigned_str_chars [of m e] num_char_marks by (simp_all add: trim_num_chars)
  have u: "?u \<noteq> []" "is_digit (hd ?u)" using unsigned_canonical [OF assms] by blast+
  have no: "to_lower (take 2 ?u) \<notin> {''0x'', ''0o'', ''0b''}"
    using no_radix_prefix unsigned_str_chars by blast
  have no': "to_lower (take 2 (CHR ''-'' # ?u)) \<notin> {''0x'', ''0o'', ''0b''}"
    by (cases ?u) (simp_all add: to_lower_def to_lower_char_def)
  have inf: "?u \<noteq> ''Infinity''" using u by auto
  show "number_of_string ?u = Fin False m e"
    using no u inf by (simp add: number_of_string_def trim Let_def parse_sign_digit unsigned_canonical [OF assms])
  show "number_of_string (CHR ''-'' # ?u) = Fin True m e"
    using no' inf by (simp add: number_of_string_def trim Let_def parse_sign_def unsigned_canonical [OF assms])
qed

theorem number_of_num_str: "canonical n \<Longrightarrow> number_of_string (num_str n) = n"
proof (cases n)
  case NaN
  have "number_of_string ''NaN'' = NaN" by code_simp
  then show ?thesis using NaN by simp
next
  case (Inf neg)
  have "number_of_string ''Infinity'' = Inf False" "number_of_string ''-Infinity'' = Inf True" by code_simp+
  then show ?thesis using Inf by simp
next
  case (Fin neg m e)
  assume c: "canonical n"
  show ?thesis
  proof (cases "m = 0")
    case True
    have "number_of_string ''0'' = Fin False 0 0" by code_simp
    then show ?thesis using True Fin c by simp
  next
    case False
    then show ?thesis using Fin c number_of_unsigned [of m e] by simp
  qed
qed

end
