(* ===== verification/Json.thy ===== *)
theory Json
  imports NumberText
begin

text \<open>
  \<open>JSON.stringify(v)\<close> without indentation and \<open>JSON.parse(s)\<close>, with which the program
  writes and reads the audit log and talks to the sidecar. As everywhere, strings have code
  units below 256: an escape \<open>\uXXXX\<close> of a larger unit is not read. The fuel of the parser
  bounds the nesting of its calls; two units per character are enough, since a call that does
  not consume a character makes one that does.
\<close>

section \<open>Writing\<close>

definition hex_digit :: "nat \<Rightarrow> char" where
  "hex_digit n = (if n < 10 then char_of (48 + n) else char_of (87 + n))"

definition json_char :: "char \<Rightarrow> string" where
  "json_char c =
     (if c = CHR 0x22 then [CHR 0x5C, CHR 0x22]
      else if c = CHR 0x5C then [CHR 0x5C, CHR 0x5C]
      else if c = CHR 0x08 then [CHR 0x5C, CHR ''b'']
      else if c = CHR 0x0C then [CHR 0x5C, CHR ''f'']
      else if c = CHR 0x0A then [CHR 0x5C, CHR ''n'']
      else if c = CHR 0x0D then [CHR 0x5C, CHR ''r'']
      else if c = CHR 0x09 then [CHR 0x5C, CHR ''t'']
      else let n = of_char c :: nat in
        if n < 32 then [CHR 0x5C, CHR ''u'', CHR ''0'', CHR ''0'', hex_digit (n div 16), hex_digit (n mod 16)]
        else [c])"

definition json_string :: "string \<Rightarrow> string" where
  "json_string s = [CHR 0x22] @ concat (map json_char s) @ [CHR 0x22]"

text \<open>An element that is \<open>undefined\<close> is written as \<open>null\<close>, a property that is \<open>undefined\<close> is left out.\<close>

fun json :: "jsval \<Rightarrow> string" where
  "json JUndef = ''null''"
| "json JNull = ''null''"
| "json (JBool b) = (if b then ''true'' else ''false'')"
| "json (JNum n) = (case n of Fin neg m e \<Rightarrow> num_str n | _ \<Rightarrow> ''null'')"
| "json (JStr s) = json_string s"
| "json (JArr vs) = ''['' @ join '','' (map json vs) @ '']''"
| "json (JObj kvs) = ''{'' @ join '',''
     (concat (map (\<lambda>kv. if snd kv = JUndef then [] else [json_string (fst kv) @ '':'' @ json (snd kv)]) kvs)) @ ''}''"

section \<open>Reading\<close>

definition is_json_space :: "char \<Rightarrow> bool" where
  "is_json_space c \<longleftrightarrow> c = CHR 0x20 \<or> c = CHR 0x0A \<or> c = CHR 0x0D \<or> c = CHR 0x09"

definition skip_ws :: "string \<Rightarrow> string" where
  "skip_ws = dropWhile is_json_space"

definition unescape :: "char \<Rightarrow> char option" where
  "unescape d =
     (if d = CHR 0x22 \<or> d = CHR 0x5C \<or> d = CHR ''/'' then Some d
      else if d = CHR ''b'' then Some CHR 0x08 else if d = CHR ''f'' then Some CHR 0x0C
      else if d = CHR ''n'' then Some CHR 0x0A else if d = CHR ''r'' then Some CHR 0x0D
      else if d = CHR ''t'' then Some CHR 0x09 else None)"

definition hex_unit :: "string \<Rightarrow> char option" where
  "hex_unit w = (if length w = 4 \<and> radix_digits 16 w \<and> radix_val 16 w < 256 then Some (char_of (radix_val 16 w)) else None)"

definition cons_fst :: "char \<Rightarrow> (string \<times> string) option \<Rightarrow> (string \<times> string) option" where
  "cons_fst c r = map_option (\<lambda>(s, t). (c # s, t)) r"

text \<open>The rest of a string literal, after the opening quote.\<close>

fun scan_string :: "string \<Rightarrow> (string \<times> string) option" where
  "scan_string [] = None"
| "scan_string (c # cs) =
     (if c = CHR 0x22 then Some ([], cs)
      else if c = CHR 0x5C then
        (case cs of
           [] \<Rightarrow> None
         | d # ds \<Rightarrow>
             if d = CHR ''u'' then
               (case hex_unit (take 4 ds) of None \<Rightarrow> None | Some x \<Rightarrow> cons_fst x (scan_string (drop 4 ds)))
             else (case unescape d of None \<Rightarrow> None | Some x \<Rightarrow> cons_fst x (scan_string ds)))
      else if (of_char c :: nat) < 32 then None
      else cons_fst c (scan_string cs))"

text \<open>
  A number: minus, integer part without superfluous zeros, fraction, exponent. What follows
  the number is left to the caller.
\<close>

definition scan_int :: "string \<Rightarrow> (string \<times> string) option" where
  "scan_int s =
     (case s of
        [] \<Rightarrow> None
      | c # cs \<Rightarrow>
          if c = CHR ''0'' then Some (''0'', cs)
          else if is_digit c then Some (takeWhile is_digit s, dropWhile is_digit s) else None)"

definition scan_frac :: "string \<Rightarrow> (string \<times> string) option" where
  "scan_frac s =
     (case s of
        [] \<Rightarrow> Some ([], [])
      | c # cs \<Rightarrow>
          if c = CHR ''.'' then
            (if takeWhile is_digit cs = [] then None
             else Some (CHR ''.'' # takeWhile is_digit cs, dropWhile is_digit cs))
          else Some ([], s))"

definition scan_exp :: "string \<Rightarrow> (string \<times> string) option" where
  "scan_exp s =
     (case s of
        [] \<Rightarrow> Some ([], [])
      | c # cs \<Rightarrow>
          if c = CHR ''e'' \<or> c = CHR ''E'' then
            (let sg = takeWhile (\<lambda>d. d = CHR ''+'' \<or> d = CHR ''-'') (take 1 cs); r = drop (length sg) cs in
             if takeWhile is_digit r = [] then None
             else Some (c # sg @ takeWhile is_digit r, dropWhile is_digit r))
          else Some ([], s))"

definition scan_number :: "string \<Rightarrow> (jsval \<times> string) option" where
  "scan_number s =
     (let sg = takeWhile (\<lambda>d. d = CHR ''-'') (take 1 s) in
      case scan_int (drop (length sg) s) of
        None \<Rightarrow> None
      | Some (ip, s1) \<Rightarrow>
          (case scan_frac s1 of
             None \<Rightarrow> None
           | Some (fp, s2) \<Rightarrow>
               (case scan_exp s2 of
                  None \<Rightarrow> None
                | Some (xp, s3) \<Rightarrow> Some (JNum (number_of_string (sg @ ip @ fp @ xp)), s3))))"

definition keyword :: "string \<Rightarrow> jsval \<Rightarrow> string \<Rightarrow> (jsval \<times> string) option" where
  "keyword w v s = (if prefix w s then Some (v, drop (length w) s) else None)"

text \<open>A later entry with the same key replaces the value of an earlier one.\<close>

definition obj_of :: "(string \<times> jsval) list \<Rightarrow> jsval" where
  "obj_of kvs = JObj (foldl (\<lambda>acc (k, v). obj_set k v acc) [] kvs)"

fun parse_value :: "nat \<Rightarrow> string \<Rightarrow> (jsval \<times> string) option"
and parse_elems :: "nat \<Rightarrow> string \<Rightarrow> (jsval list \<times> string) option"
and parse_members :: "nat \<Rightarrow> string \<Rightarrow> ((string \<times> jsval) list \<times> string) option" where
  "parse_value 0 s = None"
| "parse_value (Suc n) s =
     (case skip_ws s of
        [] \<Rightarrow> None
      | c # r \<Rightarrow>
          if c = CHR ''{'' then
            (if prefix ''}'' (skip_ws r) then Some (JObj [], tl (skip_ws r))
             else map_option (\<lambda>(kvs, t). (obj_of kvs, t)) (parse_members n r))
          else if c = CHR ''['' then
            (if prefix '']'' (skip_ws r) then Some (JArr [], tl (skip_ws r))
             else map_option (\<lambda>(vs, t). (JArr vs, t)) (parse_elems n r))
          else if c = CHR 0x22 then map_option (\<lambda>(w, t). (JStr w, t)) (scan_string r)
          else if c = CHR ''n'' then keyword ''null'' JNull (c # r)
          else if c = CHR ''t'' then keyword ''true'' (JBool True) (c # r)
          else if c = CHR ''f'' then keyword ''false'' (JBool False) (c # r)
          else scan_number (c # r))"
| "parse_elems 0 s = None"
| "parse_elems (Suc n) s =
     (case parse_value n s of
        None \<Rightarrow> None
      | Some (v, r) \<Rightarrow>
          (case skip_ws r of
             [] \<Rightarrow> None
           | c # t \<Rightarrow>
               if c = CHR '','' then map_option (\<lambda>(vs, u). (v # vs, u)) (parse_elems n t)
               else if c = CHR '']'' then Some ([v], t) else None))"
| "parse_members 0 s = None"
| "parse_members (Suc n) s =
     (case skip_ws s of
        [] \<Rightarrow> None
      | q # r \<Rightarrow>
          if q \<noteq> CHR 0x22 then None
          else case scan_string r of
            None \<Rightarrow> None
          | Some (k, r1) \<Rightarrow>
              (case skip_ws r1 of
                 [] \<Rightarrow> None
               | d # r2 \<Rightarrow>
                   if d \<noteq> CHR '':'' then None
                   else case parse_value n r2 of
                     None \<Rightarrow> None
                   | Some (v, r3) \<Rightarrow>
                       (case skip_ws r3 of
                          [] \<Rightarrow> None
                        | c # t \<Rightarrow>
                            if c = CHR '','' then map_option (\<lambda>(kvs, u). ((k, v) # kvs, u)) (parse_members n t)
                            else if c = CHR ''}'' then Some ([(k, v)], t) else None)))"

definition json_parse :: "string \<Rightarrow> jsval option" where
  "json_parse s =
     (case parse_value (2 * length s + 2) s of
        None \<Rightarrow> None
      | Some (v, r) \<Rightarrow> if skip_ws r = [] then Some v else None)"

section \<open>Strings round trip\<close>

lemma hex_digit_val: "n < 16 \<Longrightarrow> digit_val (hex_digit n) = n"
  by (auto simp: hex_digit_def digit_val_def Let_def)

lemma hex_unit_of:
  assumes "(of_char c :: nat) < 32"
  shows "hex_unit [CHR ''0'', CHR ''0'', hex_digit (of_char c div 16), hex_digit (of_char c mod 16)] = Some c"
proof -
  let ?n = "of_char c :: nat"
  let ?w = "[CHR ''0'', CHR ''0'', hex_digit (?n div 16), hex_digit (?n mod 16)]"
  have v: "digit_val (hex_digit (?n div 16)) = ?n div 16" "digit_val (hex_digit (?n mod 16)) = ?n mod 16"
    using assms by (intro hex_digit_val; simp)+
  have "radix_val 16 ?w = ?n" by (simp add: radix_val_def v digit_val_def [of "CHR ''0''"])
  moreover have "radix_digits 16 ?w"
    using assms by (simp add: radix_digits_def v digit_val_def [of "CHR ''0''"])
  ultimately show ?thesis using assms by (simp add: hex_unit_def)
qed

lemma scan_json_char: "scan_string (json_char c @ t) = cons_fst c (scan_string t)"
proof -
  consider "c \<in> {CHR 0x22, CHR 0x5C, CHR 0x08, CHR 0x0C, CHR 0x0A, CHR 0x0D, CHR 0x09}"
    | (ctl) "c \<notin> {CHR 0x22, CHR 0x5C, CHR 0x08, CHR 0x0C, CHR 0x0A, CHR 0x0D, CHR 0x09}" "(of_char c :: nat) < 32"
    | (plain) "c \<notin> {CHR 0x22, CHR 0x5C, CHR 0x08, CHR 0x0C, CHR 0x0A, CHR 0x0D, CHR 0x09}" "\<not> (of_char c :: nat) < 32"
    by blast
  then show ?thesis
  proof cases
    case 1
    then show ?thesis by (auto simp: json_char_def unescape_def)
  next
    case ctl
    then have "json_char c =
        [CHR 0x5C, CHR ''u'', CHR ''0'', CHR ''0'', hex_digit (of_char c div 16), hex_digit (of_char c mod 16)]"
      by (simp add: json_char_def Let_def)
    then show ?thesis using hex_unit_of [OF ctl(2)] by simp
  next
    case plain
    then show ?thesis by (simp add: json_char_def Let_def)
  qed
qed

lemma scan_string_json: "scan_string (concat (map json_char s) @ CHR 0x22 # rest) = Some (s, rest)"
  by (induction s) (simp_all add: scan_json_char cons_fst_def)

section \<open>Numbers round trip\<close>

text \<open>What may follow a number.\<close>

definition num_end :: "string \<Rightarrow> bool" where
  "num_end r \<longleftrightarrow> r = [] \<or> \<not> (is_digit (hd r) \<or> hd r \<in> {CHR ''.'', CHR ''e'', CHR ''E''})"

lemma scan_int_text:
  assumes "int_text ip" "r = [] \<or> \<not> is_digit (hd r)"
  shows "scan_int (ip @ r) = Some (ip, r)"
proof (cases "ip = ''0''")
  case True
  then show ?thesis by (simp add: scan_int_def)
next
  case False
  then obtain c cs where c: "ip = c # cs" "c \<noteq> CHR ''0''" "is_digit c" "list_all is_digit ip"
    using assms(1) by (cases ip) (auto simp: int_text_def)
  then show ?thesis using span_digits [OF c(4) assms(2)] by (simp add: scan_int_def)
qed

lemma scan_frac_text:
  "frac_text fw fp \<Longrightarrow> r = [] \<or> \<not> (is_digit (hd r) \<or> hd r = CHR ''.'') \<Longrightarrow> scan_frac (fw @ r) = Some (fw, r)"
  by (cases r) (auto simp: scan_frac_def frac_text_def span_digits span_digits_all split: if_splits)

lemma scan_exp_text:
  assumes "exp_text xw x" "num_end r"
  shows "scan_exp (xw @ r) = Some (xw, r)"
proof -
  have digits: "scan_exp (''e'' @ [sg] @ ds @ r) = Some (''e'' @ [sg] @ ds, r)"
    if "ds \<noteq> []" "list_all is_digit ds" "sg = CHR ''+'' \<or> sg = CHR ''-''" for ds sg
    using that assms(2) by (auto simp: scan_exp_def num_end_def Let_def span_digits span_digits_all)
  from assms(1) consider "xw = []" | ds where "ds \<noteq> []" "list_all is_digit ds" "xw = ''e+'' @ ds \<or> xw = ''e-'' @ ds"
    by (auto simp: exp_text_def)
  then show ?thesis
  proof cases
    case 1
    then show ?thesis using assms(2) by (cases r) (auto simp: scan_exp_def num_end_def)
  next
    case 2
    then show ?thesis using digits [of ds "CHR ''+''"] digits [of ds "CHR ''-''"] by auto
  qed
qed

lemma scan_num_text:
  assumes "num_text w m e" "num_end r"
  shows "scan_number (w @ r) = Some (JNum (number_of_string w), r)"
    "scan_number (CHR ''-'' # w @ r) = Some (JNum (number_of_string (CHR ''-'' # w)), r)"
proof -
  obtain ip fw fp xw x where w: "w = ip @ fw @ xw" and ip: "int_text ip" and fw: "frac_text fw fp" and xw: "exp_text xw x"
    using assms(1) unfolding num_text_def by blast
  have "xw @ r = [] \<or> \<not> (is_digit (hd (xw @ r)) \<or> hd (xw @ r) = CHR ''.'')"
    using exp_text_start [OF xw] assms(2) by (auto simp: num_end_def hd_append)
  then have 2: "scan_frac (fw @ xw @ r) = Some (fw, xw @ r)" by (rule scan_frac_text [OF fw])
  have "fw @ xw @ r = [] \<or> \<not> is_digit (hd (fw @ xw @ r))"
    using exp_text_start [OF xw] assms(2) fw by (auto simp: num_end_def hd_append frac_text_def split: if_splits)
  then have 1: "scan_int (ip @ fw @ xw @ r) = Some (ip, fw @ xw @ r)" by (rule scan_int_text [OF ip])
  obtain c cs where c: "ip = c # cs" "is_digit c" using int_text_digits [OF ip] by (cases ip) auto
  then have "c \<noteq> CHR ''-''" by auto
  show "scan_number (w @ r) = Some (JNum (number_of_string w), r)"
    using 1 c(1) \<open>c \<noteq> CHR ''-''\<close> by (simp add: scan_number_def w 2 scan_exp_text [OF xw assms(2)])
  show "scan_number (CHR ''-'' # w @ r) = Some (JNum (number_of_string (CHR ''-'' # w)), r)"
    using 1 by (simp add: scan_number_def w 2 scan_exp_text [OF xw assms(2)])
qed

lemma scan_num_str:
  assumes "canonical n" "n = Fin neg m e" "num_end r"
  shows "scan_number (num_str n @ r) = Some (JNum n, r)"
proof -
  have number: "number_of_string (num_str n) = n" using assms(1) by (rule number_of_num_str)
  have "\<exists>w m' e'. num_text w m' e' \<and> num_str n = (if neg then ''-'' else []) @ w"
  proof (cases "m = 0")
    case True
    have "num_text ''0'' 0 0"
      by (intro num_textI [where ip = "''0''" and fw = "[]" and fp = "[]" and xw = "[]" and x = 0])
        (simp_all add: int_text_def frac_text_def exp_text_def radix_val_def digit_val_def)
    then show ?thesis using True assms(1,2) by auto
  next
    case False
    then show ?thesis using unsigned_text [of m e] assms(2) by auto
  qed
  then obtain w m' e' where "num_text w m' e'" "num_str n = (if neg then ''-'' else []) @ w" by blast
  then show ?thesis using scan_num_text [OF _ assms(3)] number by (cases neg) (force simp del: num_str.simps)+
qed

section \<open>Values round trip\<close>

text \<open>What a value becomes when it is written and read: numbers without a JSON form are \<open>null\<close>.\<close>

fun json_norm :: "jsval \<Rightarrow> jsval" where
  "json_norm JUndef = JNull"
| "json_norm (JNum n) = (case n of Fin neg m e \<Rightarrow> JNum n | _ \<Rightarrow> JNull)"
| "json_norm (JArr vs) = JArr (map json_norm vs)"
| "json_norm (JObj kvs) = JObj (concat (map (\<lambda>kv. if snd kv = JUndef then [] else [(fst kv, json_norm (snd kv))]) kvs))"
| "json_norm v = v"

text \<open>Values as programs have them: printable digits, and one value per key.\<close>

fun json_ok :: "jsval \<Rightarrow> bool" where
  "json_ok (JNum n) \<longleftrightarrow> canonical n"
| "json_ok (JArr vs) \<longleftrightarrow> list_all json_ok vs"
| "json_ok (JObj kvs) \<longleftrightarrow> distinct (map fst kvs) \<and> list_all (\<lambda>kv. json_ok (snd kv)) kvs"
| "json_ok v \<longleftrightarrow> True"

lemma skip_ws_Cons [simp]: "\<not> is_json_space c \<Longrightarrow> skip_ws (c # r) = c # r"
  by (simp add: skip_ws_def)

lemma skip_ws_Nil [simp]: "skip_ws [] = []"
  by (simp add: skip_ws_def)

lemma not_spaces [simp]:
  "\<not> is_json_space CHR '',''" "\<not> is_json_space CHR '']''" "\<not> is_json_space CHR ''}''" "\<not> is_json_space CHR '':''"
  "\<not> is_json_space CHR ''{''" "\<not> is_json_space CHR ''[''" "\<not> is_json_space CHR 0x22"
  "\<not> is_json_space CHR ''n''" "\<not> is_json_space CHR ''t''" "\<not> is_json_space CHR ''f''"
  by (simp_all add: is_json_space_def)

lemma num_end_seps [simp]: "num_end []" "num_end (CHR '','' # r)" "num_end (CHR '']'' # r)" "num_end (CHR ''}'' # r)"
  by (simp_all add: num_end_def is_digit_def)

lemma num_str_start:
  assumes "n = Fin neg m e"
  obtains c cs where "num_str n = c # cs" "is_digit c \<or> c = CHR ''-''"
proof -
  have "unsigned_str m e \<noteq> [] \<and> is_digit (hd (unsigned_str m e))" if "m \<noteq> 0"
    using unsigned_text [of m e] num_text_chars that by blast
  then have "num_str n \<noteq> [] \<and> (is_digit (hd (num_str n)) \<or> hd (num_str n) = CHR ''-'')"
    using assms by (auto simp: hd_append is_digit_def)
  then show thesis using that by (metis list.collapse)
qed

lemma parse_number_value:
  assumes "canonical n" "n = Fin neg m e" "num_end r"
  shows "parse_value (Suc k) (num_str n @ r) = Some (JNum n, r)"
proof -
  obtain c cs where c: "num_str n = c # cs" "is_digit c \<or> c = CHR ''-''" using num_str_start assms(2) by blast
  then have "\<not> is_json_space c" "c \<notin> {CHR ''{'', CHR ''['', CHR 0x22, CHR ''n'', CHR ''t'', CHR ''f''}"
    by (auto simp: is_json_space_def is_digit_def)
  then show ?thesis using scan_num_str [OF assms] c(1) by simp
qed

lemma obj_of_distinct:
  assumes "distinct (map fst kvs)"
  shows "obj_of kvs = JObj kvs"
proof -
  have "distinct (map fst (acc @ kvs)) \<Longrightarrow> foldl (\<lambda>acc (k, v). obj_set k v acc) acc kvs = acc @ kvs" for acc
  proof (induction kvs arbitrary: acc)
    case (Cons kv kvs)
    have "obj_set (fst kv) (snd kv) acc = acc @ [kv]"
    proof -
      have "fst kv \<notin> fst ` set acc" using Cons.prems by auto
      then show ?thesis by (induction acc) auto
    qed
    then show ?case using Cons.IH [of "acc @ [kv]"] Cons.prems by (simp add: case_prod_beta)
  qed simp
  from this [of "[]"] assms show ?thesis by (simp add: obj_of_def)
qed

lemma json_start: "json_ok v \<Longrightarrow> \<exists>c cs. json v = c # cs \<and> \<not> is_json_space c \<and> c \<notin> {CHR '']'', CHR ''}''}"
proof (cases v)
  case (JNum n)
  show ?thesis
  proof (cases n)
    case (Fin neg m e)
    then obtain c cs where c: "num_str n = c # cs" "is_digit c \<or> c = CHR ''-''" using num_str_start by blast
    then have "\<not> is_json_space c" "c \<notin> {CHR '']'', CHR ''}''}" by (auto simp: is_json_space_def is_digit_def)
    then show ?thesis using c(1) JNum Fin by simp
  qed (simp_all add: JNum)
qed (auto simp: json_string_def)

lemma json_nonempty: "json_ok v \<Longrightarrow> 1 \<le> length (json v)"
  using json_start by fastforce

definition reads_back :: "jsval \<Rightarrow> bool" where
  "reads_back v \<longleftrightarrow> (\<forall>n r. 2 * length (json v) \<le> n \<longrightarrow> num_end r \<longrightarrow>
     parse_value n (json v @ r) = Some (json_norm v, r))"

lemma reads_backD:
  "reads_back v \<Longrightarrow> 2 * length (json v) \<le> n \<Longrightarrow> num_end r \<Longrightarrow> parse_value n (json v @ r) = Some (json_norm v, r)"
  by (simp add: reads_back_def)

lemma parse_elems_json:
  "vs \<noteq> [] \<Longrightarrow> list_all reads_back vs \<Longrightarrow> 2 * length (join '','' (map json vs)) + 1 \<le> n \<Longrightarrow>
     parse_elems n (join '','' (map json vs) @ CHR '']'' # r) = Some (map json_norm vs, r)"
proof (induction vs arbitrary: n)
  case (Cons v vs)
  obtain k where n: "n = Suc k" using Cons.prems(3) by (cases n) auto
  show ?case
  proof (cases "vs = []")
    case True
    then have "parse_value k (json v @ CHR '']'' # r) = Some (json_norm v, CHR '']'' # r)"
      using Cons.prems n by (intro reads_backD) simp_all
    then show ?thesis using True n by simp
  next
    case False
    then have j: "join '','' (map json (v # vs)) = json v @ '','' @ join '','' (map json vs)" by (cases vs) auto
    have "parse_value k (json v @ CHR '','' # join '','' (map json vs) @ CHR '']'' # r) =
        Some (json_norm v, CHR '','' # join '','' (map json vs) @ CHR '']'' # r)"
      using Cons.prems n j by (intro reads_backD) simp_all
    moreover have "parse_elems k (join '','' (map json vs) @ CHR '']'' # r) = Some (map json_norm vs, r)"
      using Cons.prems n j False by (intro Cons.IH) simp_all
    ultimately show ?thesis unfolding j n by simp
  qed
qed simp

abbreviation member_text :: "string \<times> jsval \<Rightarrow> string" where
  "member_text kv \<equiv> json_string (fst kv) @ '':'' @ json (snd kv)"

abbreviation member_norm :: "string \<times> jsval \<Rightarrow> string \<times> jsval" where
  "member_norm kv \<equiv> (fst kv, json_norm (snd kv))"

lemma member_scan:
  "member_text kv @ r = CHR 0x22 # (concat (map json_char (fst kv)) @ CHR 0x22 # CHR '':'' # json (snd kv) @ r)"
  by (simp add: json_string_def)

lemma parse_members_json:
  "kvs \<noteq> [] \<Longrightarrow> list_all (\<lambda>kv. reads_back (snd kv)) kvs \<Longrightarrow>
     2 * length (join '','' (map member_text kvs)) + 1 \<le> n \<Longrightarrow>
     parse_members n (join '','' (map member_text kvs) @ CHR ''}'' # r) = Some (map member_norm kvs, r)"
proof (induction kvs arbitrary: n)
  case (Cons kv kvs)
  obtain k where n: "n = Suc k" using Cons.prems(3) by (cases n) auto
  have len: "2 * length (json (snd kv)) \<le> k"
    using Cons.prems(3) n by (cases kvs) simp_all
  show ?case
  proof (cases "kvs = []")
    case True
    have "parse_value k (json (snd kv) @ CHR ''}'' # r) = Some (json_norm (snd kv), CHR ''}'' # r)"
      using Cons.prems len by (intro reads_backD) simp_all
    then show ?thesis
      using True unfolding n True list.map join.simps member_scan by (simp add: scan_string_json)
  next
    case False
    then have j: "join '','' (map member_text (kv # kvs)) = member_text kv @ '','' @ join '','' (map member_text kvs)"
      by (cases kvs) auto
    let ?t = "CHR '','' # join '','' (map member_text kvs) @ CHR ''}'' # r"
    have "parse_value k (json (snd kv) @ ?t) = Some (json_norm (snd kv), ?t)"
      using Cons.prems len by (intro reads_backD) simp_all
    moreover have "2 * length (join '','' (map member_text kvs)) + 1 \<le> k"
      using Cons.prems(3) n unfolding j by simp
    then have "parse_members k (join '','' (map member_text kvs) @ CHR ''}'' # r) = Some (map member_norm kvs, r)"
      using Cons.prems False by (intro Cons.IH) simp_all
    moreover have "(member_text kv @ '','' @ join '','' (map member_text kvs)) @ CHR ''}'' # r = member_text kv @ ?t"
      by simp
    ultimately show ?thesis
      unfolding j n by (simp only: member_scan) (simp add: scan_string_json)
  qed
qed simp

lemma concat_filter:
  "concat (map (\<lambda>kv. if P kv then [] else [f kv]) kvs) = map f (List.filter (\<lambda>kv. \<not> P kv) kvs)"
  by (induction kvs) auto

lemma join_nonempty: "ws \<noteq> [] \<Longrightarrow> hd ws \<noteq> [] \<Longrightarrow> join sep ws \<noteq> [] \<and> hd (join sep ws) = hd (hd ws)"
  by (cases ws; cases "tl ws") (auto simp: hd_append)

text \<open>Words that need no fuel beyond the first unit.\<close>

lemma parse_keywords:
  assumes "8 \<le> n"
  shows "parse_value n (CHR ''n'' # CHR ''u'' # CHR ''l'' # CHR ''l'' # r) = Some (JNull, r)"
    "parse_value n (CHR ''t'' # CHR ''r'' # CHR ''u'' # CHR ''e'' # r) = Some (JBool True, r)"
    "parse_value n (CHR ''f'' # CHR ''a'' # CHR ''l'' # CHR ''s'' # CHR ''e'' # r) = Some (JBool False, r)"
  using assms by (cases n; simp add: keyword_def)+

lemma json_reads_back: "json_ok v \<Longrightarrow> reads_back v"
proof (induction v)
  case (JArr vs)
  show ?case unfolding reads_back_def
  proof (intro allI impI)
    fix n r
    assume n: "2 * length (json (JArr vs)) \<le> n" and r: "num_end r"
    then obtain k where k: "n = Suc k" by (cases n) auto
    show "parse_value n (json (JArr vs) @ r) = Some (json_norm (JArr vs), r)"
    proof (cases "vs = []")
      case True
      then show ?thesis using k by simp
    next
      case False
      have all: "list_all reads_back vs" using JArr by (auto simp: list_all_iff)
      obtain c cs where c: "json (hd vs) = c # cs" "\<not> is_json_space c" "c \<noteq> CHR '']''"
        using json_start [of "hd vs"] JArr.prems False by (auto simp: list_all_iff)
      let ?j = "join '','' (map json vs)"
      have "hd (map json vs) = c # cs" using c(1) False by (simp add: hd_map)
      then have "?j \<noteq> [] \<and> hd ?j = c" using join_nonempty [of "map json vs" "'',''"] False by simp
      then obtain ds where ds: "?j = c # ds" by (cases ?j) auto
      have "2 * length ?j + 1 \<le> k" using n k by simp
      from parse_elems_json [OF False all this, of r] show ?thesis
        using k c ds by simp
    qed
  qed
next
  case (JObj kvs)
  let ?kept = "List.filter (\<lambda>kv. snd kv \<noteq> JUndef) kvs"
  let ?j = "join '','' (map member_text ?kept)"
  have shape: "json (JObj kvs) = ''{'' @ ?j @ ''}''" by (simp add: concat_filter)
  have norm: "json_norm (JObj kvs) = JObj (map member_norm ?kept)" by (simp add: concat_filter)
  have "distinct (map fst kvs)" using JObj.prems by simp
  then have "distinct (map fst ?kept)" by (rule distinct_map_filter)
  then have obj: "obj_of (map member_norm ?kept) = JObj (map member_norm ?kept)"
    by (intro obj_of_distinct) (simp add: comp_def)
  have all: "list_all (\<lambda>kv. reads_back (snd kv)) ?kept"
    using JObj by (auto simp: list_all_iff)
  show ?case unfolding reads_back_def shape norm
  proof (intro allI impI)
    fix n r
    assume n: "2 * length (''{'' @ ?j @ ''}'') \<le> n" and r: "num_end r"
    then obtain k where k: "n = Suc k" by (cases n) auto
    show "parse_value n ((''{'' @ ?j @ ''}'') @ r) = Some (JObj (map member_norm ?kept), r)"
    proof (cases "?kept = []")
      case True
      then show ?thesis using k by (simp del: filter_empty_conv)
    next
      case False
      have "hd (map member_text ?kept) = member_text (hd ?kept)" using False by (rule hd_map)
      then have "?j \<noteq> [] \<and> hd ?j = CHR 0x22"
        using join_nonempty [of "map member_text ?kept" "'',''"] False by (simp add: json_string_def)
      then obtain ds where ds: "?j = CHR 0x22 # ds" by (cases ?j) auto
      have "2 * length ?j + 1 \<le> k" using n k by simp
      from parse_members_json [OF False all this, of r] show ?thesis
        using k ds obj by simp
    qed
  qed
next
  case (JNum n)
  show ?case unfolding reads_back_def
  proof (intro allI impI)
    fix k r
    assume k: "2 * length (json (JNum n)) \<le> k" and r: "num_end r"
    show "parse_value k (json (JNum n) @ r) = Some (json_norm (JNum n), r)"
    proof (cases n)
      case (Fin neg m e)
      have "1 \<le> length (json (JNum n))" using json_nonempty JNum by blast
      then obtain j where "k = Suc j" using k by (cases k) auto
      then show ?thesis using parse_number_value [OF _ Fin r] JNum Fin by simp
    qed (use k in \<open>cases k; simp add: keyword_def\<close>)+
  qed
next
  case (JStr s)
  show ?case unfolding reads_back_def
  proof (intro allI impI)
    fix k r
    assume "2 * length (json (JStr s)) \<le> k"
    then obtain j where "k = Suc j" by (cases k) (auto simp: json_string_def)
    then show "parse_value k (json (JStr s) @ r) = Some (json_norm (JStr s), r)"
      by (simp add: json_string_def scan_string_json)
  qed
qed (auto simp: reads_back_def parse_keywords)

theorem json_round_trip: "json_ok v \<Longrightarrow> json_parse (json v) = Some (json_norm v)"
  using reads_backD [OF json_reads_back, of v "2 * length (json v) + 2" "[]"] by (simp add: json_parse_def)

end
