(* ===== verification/AuditLogger.thy ===== *)
theory AuditLogger
  imports Json ConfigLoader ConnectionManager
begin

text \<open>
  The audit logger (\<open>src/audit-logger.ts\<close>): one line per entry at the end of a file, the
  oldest lines removed every hundred writes, and the reader behind the tool
  \<open>query_history\<close>. The file system and the clock are parameters: functions on the world
  \<open>'w\<close> outside the process that return or fail.
\<close>

record 'w audit_fs =
  fs_mkdir :: "('w, unit) effect"
  fs_append :: "string \<Rightarrow> ('w, unit) effect"
  fs_read :: "('w, string) effect"
  fs_write :: "string \<Rightarrow> ('w, unit) effect"
  fs_now :: "'w \<Rightarrow> string"

record 'w logger =
  lg_writesSincePrune :: nat
  lg_world :: 'w

definition prune_interval :: nat where
  "prune_interval = 100"

definition call_fs :: "('w, 'a) effect \<Rightarrow> ('w logger, 'a) io" where
  "call_fs f = (\<lambda>l. case f (lg_world l) of
       (Inr a, w) \<Rightarrow> (Ret a, l\<lparr>lg_world := w\<rparr>)
     | (Inl e, w) \<Rightarrow> (Throw e, l\<lparr>lg_world := w\<rparr>))"

section \<open>One line per entry\<close>

abbreviation newline :: char where
  "newline \<equiv> CHR 0x0A"

fun audit_status_str :: "audit_status \<Rightarrow> string" where
  "audit_status_str AuditOk = ''ok''"
| "audit_status_str AuditError = ''error''"

definition text_line :: "string \<Rightarrow> audit_entry \<Rightarrow> string" where
  "text_line ts entry =
     (let errorPart = (case ae_error entry of None \<Rightarrow> []
        | Some e \<Rightarrow> if e = [] then [] else '' error='' @ [CHR 0x22] @ e @ [CHR 0x22]) in
      ''['' @ ts @ ''] '' @ to_upper (audit_status_str (ae_status entry)) @ '' tool='' @ ae_tool entry @
      '' connection='' @ ae_connection entry @ '' duration='' @ int_str (ae_durationMs entry) @ ''ms '' @
      ''rows='' @ int_str (ae_rows entry) @ errorPart @ '' sql='' @ ae_sql entry)"

definition audit_record :: "string \<Rightarrow> audit_entry \<Rightarrow> jsval" where
  "audit_record ts entry = JObj
     ([(''ts'', JStr ts), (''tool'', JStr (ae_tool entry)), (''connection'', JStr (ae_connection entry)),
       (''sql'', JStr (ae_sql entry)), (''params'', JArr (ae_params entry)),
       (''duration_ms'', JNum (int_num (ae_durationMs entry))), (''rows'', JNum (int_num (ae_rows entry))),
       (''status'', JStr (audit_status_str (ae_status entry)))] @
      (case ae_error entry of None \<Rightarrow> [] | Some e \<Rightarrow> [(''error'', JStr e)]))"

definition audit_line :: "audit_format \<Rightarrow> string \<Rightarrow> audit_entry \<Rightarrow> string" where
  "audit_line fmt ts entry =
     (case fmt of TextFormat \<Rightarrow> text_line ts entry | Jsonl \<Rightarrow> json (audit_record ts entry)) @ [newline]"

section \<open>Writing and pruning\<close>

definition nonblank_lines :: "string \<Rightarrow> string list" where
  "nonblank_lines content = List.filter (\<lambda>l. trim l \<noteq> []) (split_char newline content)"

definition prune_if_needed :: "'w audit_fs \<Rightarrow> audit_config \<Rightarrow> ('w logger, unit) io" where
  "prune_if_needed fs config =
     try_catch
       (bindM (call_fs (fs_read fs)) (\<lambda>content.
        let lines = nonblank_lines content in
        if int (length lines) > ac_maxEntries config then
          let pruned = js_slice (int (length lines) - ac_maxEntries config) (int (length lines)) lines in
          call_fs (fs_write fs (join [newline] pruned @ [newline]))
        else ret ()))
       (\<lambda>_. ret ())"

definition count_write :: "'w audit_fs \<Rightarrow> audit_config \<Rightarrow> ('w logger, unit) io" where
  "count_write fs config =
     (if ac_maxEntries config > 0 then
        bindM (modify (\<lambda>l. l\<lparr>lg_writesSincePrune := lg_writesSincePrune l + 1\<rparr>)) (\<lambda>_.
        bindM (gets lg_writesSincePrune) (\<lambda>n.
        if n \<ge> prune_interval then
          bindM (modify (\<lambda>l. l\<lparr>lg_writesSincePrune := 0\<rparr>)) (\<lambda>_. prune_if_needed fs config)
        else ret ()))
      else ret ())"

definition log_entry :: "'w audit_fs \<Rightarrow> audit_config \<Rightarrow> audit_entry \<Rightarrow> ('w logger, unit) io" where
  "log_entry fs config entry =
     (if \<not> ac_enabled config then ret ()
      else bindM (gets (\<lambda>l. fs_now fs (lg_world l))) (\<lambda>ts.
        try_catch
          (bindM (call_fs (fs_mkdir fs)) (\<lambda>_.
           bindM (call_fs (fs_append fs (audit_line (ac_format config) ts entry))) (\<lambda>_.
           count_write fs config)))
          (\<lambda>_. ret ())))"

section \<open>Reading\<close>

record read_options =
  ro_limit :: "int option"
  ro_offset :: "int option"
  ro_connection :: "string option"
  ro_status :: "audit_status option"

definition parsed_lines :: "string \<Rightarrow> jsval list" where
  "parsed_lines content =
     List.filter (\<lambda>v. v \<noteq> JNull)
       (map (\<lambda>l. case json_parse l of None \<Rightarrow> JNull | Some v \<Rightarrow> v) (nonblank_lines content))"

definition matching :: "read_options \<Rightarrow> jsval \<Rightarrow> bool" where
  "matching opts e \<longleftrightarrow>
     (case ro_connection opts of None \<Rightarrow> True
      | Some c \<Rightarrow> c = [] \<or> js_prop e ''connection'' = JStr c) \<and>
     (case ro_status opts of None \<Rightarrow> True
      | Some st \<Rightarrow> js_prop e ''status'' = JStr (audit_status_str st))"

definition select_entries :: "read_options \<Rightarrow> string \<Rightarrow> jsval list" where
  "select_entries opts content =
     (let entries = List.filter (matching opts) (rev (parsed_lines content));
          offset = or_else (ro_offset opts) 0; limit = or_else (ro_limit opts) 50 in
      js_slice offset (offset + limit) entries)"

definition read_entries :: "'w audit_fs \<Rightarrow> audit_config \<Rightarrow> read_options \<Rightarrow> ('w logger, jsval list) io" where
  "read_entries fs config opts =
     (if \<not> ac_enabled config \<or> ac_format config \<noteq> Jsonl then ret []
      else try_catch (bindM (call_fs (fs_read fs)) (\<lambda>content. ret (select_entries opts content))) (\<lambda>_. ret []))"

end
