(* ===== verification/Server.thy ===== *)
theory Server
  imports ToolCalls TableLookup ExplainTool QueryValidation AuditLogger
begin

text \<open>
  The server (\<open>src/index.ts\<close>): the registered tools, what each call runs, the audit entries
  that the registration adds to three of the table tools, and the error responses. The MCP
  package and the text encoding of an answer are left out; the descriptions and argument
  schemas of the built-in tools are in \<open>ToolRegistry\<close>. A call of an unknown tool is answered by
  the package.
\<close>

section \<open>Requests and answers\<close>

datatype request =
    ListConnections
  | TestConnection string
  | GetSchema string "string list option" "bool option"
  | ExecuteSql execute_args
  | ExplainQuery string string "bool option"
  | GetSample string string "int option" "string option" "string option"
  | SearchSchema string string
  | ListTables string "bool option"
  | GetRelationships string "string option"
  | GetIndexes string "string option"
  | ValidateQuery string string
  | GetTableStats string string "int option"
  | GetDistinctValues string string string "int option"
  | CustomTool string "jsval obj"

datatype answer =
    AConnections "connection_info list"
  | ATest test_result
  | AJson jsval
  | ARows formatted_result
  | AExplain explain_result
  | ASearch "search_result list"
  | ATables "jsval list"
  | ARelations "relationship list" "table_node list"
  | AIndexes "index_entry list"
  | AValidation validation
  | AStats table_stats
  | ADistinct distinct_values

datatype response = Answer answer | ErrorResponse string

text \<open>\<open>try { return ... } catch (err) { return errorResponse(err) }\<close>\<close>

definition error_response :: "error \<Rightarrow> response" where
  "error_response err = ErrorResponse (error_message err)"

definition answering :: "('a \<Rightarrow> answer) \<Rightarrow> ('s, 'a) io \<Rightarrow> ('s, response) io" where
  "answering f m = try_catch (bindM m (\<lambda>a. ret (Answer (f a)))) (\<lambda>err. ret (error_response err))"

section \<open>Audit entries of the table tools\<close>

definition lookup_log ::
    "'w tool_env \<Rightarrow> string \<Rightarrow> string \<Rightarrow> string \<Rightarrow> int \<Rightarrow> int \<Rightarrow> audit_status \<Rightarrow> string option \<Rightarrow>
       ('w sys, unit) io" where
  "lookup_log env tool connection sql startMs rows status err =
     bindM (clock_now env) (\<lambda>t.
       audit_log (te_auditLogger env)
         \<lparr>ae_tool = tool, ae_connection = connection, ae_sql = sql, ae_params = [],
          ae_durationMs = t - startMs, ae_rows = rows, ae_status = status, ae_error = err\<rparr>)"

definition audited ::
    "'w tool_env \<Rightarrow> string \<Rightarrow> string \<Rightarrow> string \<Rightarrow> string \<Rightarrow> ('a \<Rightarrow> int) \<Rightarrow> ('w sys, 'a) io \<Rightarrow> ('w sys, 'a) io" where
  "audited env tool connection okSql errSql rows m =
     bindM (clock_now env) (\<lambda>startMs.
     try_catch
       (bindM m (\<lambda>result.
        bindM (lookup_log env tool connection okSql startMs (rows result) AuditOk None) (\<lambda>_.
        ret result)))
       (\<lambda>err. bindM (lookup_log env tool connection errSql startMs 0 AuditError (Some (err_message err)))
          (\<lambda>_. throw err)))"

definition sample_sql :: "string \<Rightarrow> string option \<Rightarrow> string option \<Rightarrow> int option \<Rightarrow> string" where
  "sample_sql table whr order_by limit =
     ''SELECT * FROM '' @ table @ clause ''WHERE'' whr @ clause ''ORDER BY'' order_by @
     '' LIMIT '' @ int_str (or_else limit 10)"

definition sample_error_sql :: "string \<Rightarrow> int option \<Rightarrow> string" where
  "sample_error_sql table limit = ''SELECT * FROM '' @ table @ '' LIMIT '' @ int_str (or_else limit 10)"

definition stats_sql :: "string \<Rightarrow> int option \<Rightarrow> string" where
  "stats_sql table sample_size =
     ''[stats query on '' @ table @ '', sample='' @ int_str (or_else sample_size 10000) @ '']''"

definition distinct_sql :: "string \<Rightarrow> string \<Rightarrow> string" where
  "distinct_sql column table = ''SELECT '' @ column @ '', COUNT(*) FROM '' @ table @ '' GROUP BY '' @ column"

section \<open>Custom tools\<close>

text \<open>
  The argument schemas that the zod package is given: a constructor per parameter type with
  the description, made optional when the parameter is not required. The validation refuses
  an enumeration without values, so the list of \<open>ZEnum\<close> is never missing.
\<close>

datatype zod =
    ZString string | ZNumber string | ZBoolean string | ZEnum "string list" string | ZOptional zod
  | ZUnknown | ZArray zod string

definition parameter_schema :: "tool_parameter \<Rightarrow> zod" where
  "parameter_schema param =
     (let description = tp_description param;
          schema = (case tp_type param of
              PString \<Rightarrow> ZString description
            | PNumber \<Rightarrow> ZNumber description
            | PBoolean \<Rightarrow> ZBoolean description
            | PEnum \<Rightarrow> ZEnum (or_else (tp_values param) []) description
            | POther t \<Rightarrow> ZString description) in
      if tp_required param = Some False then ZOptional schema else schema)"

definition build_zod_schema :: "tool_parameter obj option \<Rightarrow> zod obj" where
  "build_zod_schema parameters =
     map (\<lambda>(name, param). (name, parameter_schema param)) (or_else parameters [])"

text \<open>A registered tool: its description, its argument schema, and what its handler runs.\<close>

record registration =
  rg_description :: string
  rg_schema :: "zod obj"
  rg_name :: string
  rg_tool :: tool_config

definition register_custom_tools :: "omnibase_config \<Rightarrow> registration obj" where
  "register_custom_tools config =
     map (\<lambda>(name, tool).
       (''custom_'' @ name,
        \<lparr>rg_description = or_else (ct_description tool) [], rg_schema = build_zod_schema (ct_parameters tool),
         rg_name = name, rg_tool = tool\<rparr>)) (config_tools config)"

text \<open>The tools of the server after the handles of the previous custom tools are removed.\<close>

definition reload_custom_tools ::
    "omnibase_config \<Rightarrow> string list \<Rightarrow> registration obj \<Rightarrow> registration obj" where
  "reload_custom_tools config previousHandles registered =
     List.filter (\<lambda>(name, _). name \<notin> set previousHandles) registered @ register_custom_tools config"

lemma reload_replaces:
  "reload_custom_tools new (obj_keys (register_custom_tools old)) (register_custom_tools old) = register_custom_tools new"
  by (force simp: reload_custom_tools_def filter_empty_conv)

definition call_custom :: "nat \<Rightarrow> 'w tool_env \<Rightarrow> string \<Rightarrow> jsval obj \<Rightarrow> ('w sys, response) io" where
  "call_custom n env mcpName args =
     (case obj_get (register_custom_tools (te_config env)) mcpName of
        None \<Rightarrow> ret (ErrorResponse ''Tool not found'')
      | Some r \<Rightarrow> answering ARows (execute_custom_tool n env (rg_name r) (rg_tool r) args))"

section \<open>Calls\<close>

definition serve_list_connections :: "'w tool_env \<Rightarrow> ('w sys, response) io" where
  "serve_list_connections env = answering AConnections (gets (handle_list_connections (te_config env)))"

definition serve_test_connection :: "'w tool_env \<Rightarrow> string \<Rightarrow> ('w sys, response) io" where
  "serve_test_connection env c = answering ATest (handle_test_connection (te_backend env) (te_config env) c)"

definition serve_get_schema ::
    "'w tool_env \<Rightarrow> string \<Rightarrow> string list option \<Rightarrow> bool option \<Rightarrow> ('w sys, response) io" where
  "serve_get_schema env c tables force =
     answering AJson (handle_get_schema (te_backend env) (te_config env) c tables (force = Some True))"

definition serve_execute_sql :: "'w tool_env \<Rightarrow> execute_args \<Rightarrow> ('w sys, response) io" where
  "serve_execute_sql env args =
     answering ARows (handle_execute_sql (te_astify env) (te_backend env) (te_config env) (te_auditLogger env) args)"

definition serve_explain_query ::
    "'w tool_env \<Rightarrow> string \<Rightarrow> string \<Rightarrow> bool option \<Rightarrow> ('w sys, response) io" where
  "serve_explain_query env c query analyze =
     answering AExplain (handle_explain_query (te_backend env) (te_config env) c query analyze)"

definition serve_get_sample ::
    "'w tool_env \<Rightarrow> string \<Rightarrow> string \<Rightarrow> int option \<Rightarrow> string option \<Rightarrow> string option \<Rightarrow> ('w sys, response) io" where
  "serve_get_sample env c table limit whr order_by =
     answering ARows (audited env ''get_sample'' c (sample_sql table whr order_by limit) (sample_error_sql table limit)
       fr_row_count (handle_get_sample (te_backend env) (te_config env) c table limit whr order_by))"

definition serve_search_schema :: "'w tool_env \<Rightarrow> string \<Rightarrow> string \<Rightarrow> ('w sys, response) io" where
  "serve_search_schema env c query =
     answering ASearch (handle_search_schema (te_backend env) (te_config env) c query)"

definition serve_list_tables :: "'w tool_env \<Rightarrow> string \<Rightarrow> bool option \<Rightarrow> ('w sys, response) io" where
  "serve_list_tables env c exact = answering ATables (handle_list_tables (te_backend env) (te_config env) c exact)"

definition serve_get_relationships :: "'w tool_env \<Rightarrow> string \<Rightarrow> string option \<Rightarrow> ('w sys, response) io" where
  "serve_get_relationships env c table =
     answering (\<lambda>(rs, g). ARelations rs g) (handle_get_relationships (te_backend env) (te_config env) c table)"

definition serve_get_indexes :: "'w tool_env \<Rightarrow> string \<Rightarrow> string option \<Rightarrow> ('w sys, response) io" where
  "serve_get_indexes env c table = answering AIndexes (handle_get_indexes (te_backend env) (te_config env) c table)"

definition serve_validate_query :: "'w tool_env \<Rightarrow> string \<Rightarrow> string \<Rightarrow> ('w sys, response) io" where
  "serve_validate_query env c query =
     answering AValidation (handle_validate_query (te_astify env) (te_backend env) (te_config env) c query)"

definition serve_get_table_stats :: "'w tool_env \<Rightarrow> string \<Rightarrow> string \<Rightarrow> int option \<Rightarrow> ('w sys, response) io" where
  "serve_get_table_stats env c table sample =
     answering AStats (audited env ''get_table_stats'' c (stats_sql table sample) (''[stats query on '' @ table @ '']'')
       (\<lambda>r. int (length (tst_columns r))) (handle_get_table_stats (te_backend env) (te_config env) c table sample))"

definition serve_get_distinct_values ::
    "'w tool_env \<Rightarrow> string \<Rightarrow> string \<Rightarrow> string \<Rightarrow> int option \<Rightarrow> ('w sys, response) io" where
  "serve_get_distinct_values env c table column limit =
     answering ADistinct (audited env ''get_distinct_values'' c (distinct_sql column table) (distinct_sql column table)
       dv_total_shown (handle_get_distinct_values (te_backend env) (te_config env) c table column limit))"

lemmas serve_defs = serve_list_connections_def serve_test_connection_def serve_get_schema_def serve_execute_sql_def
  serve_explain_query_def serve_get_sample_def serve_search_schema_def serve_list_tables_def
  serve_get_relationships_def serve_get_indexes_def serve_validate_query_def serve_get_table_stats_def
  serve_get_distinct_values_def

text \<open>\<open>n\<close> is the fuel of nested pipelines.\<close>

fun respond :: "nat \<Rightarrow> 'w tool_env \<Rightarrow> request \<Rightarrow> ('w sys, response) io" where
  "respond n env ListConnections = serve_list_connections env"
| "respond n env (TestConnection c) = serve_test_connection env c"
| "respond n env (GetSchema c tables force) = serve_get_schema env c tables force"
| "respond n env (ExecuteSql args) = serve_execute_sql env args"
| "respond n env (ExplainQuery c query analyze) = serve_explain_query env c query analyze"
| "respond n env (GetSample c table limit whr order_by) = serve_get_sample env c table limit whr order_by"
| "respond n env (SearchSchema c query) = serve_search_schema env c query"
| "respond n env (ListTables c exact) = serve_list_tables env c exact"
| "respond n env (GetRelationships c table) = serve_get_relationships env c table"
| "respond n env (GetIndexes c table) = serve_get_indexes env c table"
| "respond n env (ValidateQuery c query) = serve_validate_query env c query"
| "respond n env (GetTableStats c table sample) = serve_get_table_stats env c table sample"
| "respond n env (GetDistinctValues c table column limit) = serve_get_distinct_values env c table column limit"
| "respond n env (CustomTool name args) = call_custom n env name args"

section \<open>The query history\<close>

text \<open>What \<open>query_history\<close> answers: the entries that the audit logger reads, or why there are none.\<close>

datatype history = Entries "jsval list" | NoEntries string

definition query_history :: "omnibase_config \<Rightarrow> string option \<Rightarrow> audit_status option \<Rightarrow> jsval list \<Rightarrow> history" where
  "query_history config connection status entries =
     (if entries = [] then
        NoEntries
          (if (case oc_audit config of None \<Rightarrow> True | Some a \<Rightarrow> \<not> ac_enabled a)
           then ''No query history found. Audit logging is disabled -- add `audit: { enabled: true }` to your config.''
           else if nonempty connection \<noteq> None \<or> status \<noteq> None then ''No matching entries found.''
           else ''No query history found. No queries have been executed yet.'')
      else Entries entries)"

text \<open>The configuration of the logger when there is none: it does nothing.\<close>

definition server_audit :: "omnibase_config \<Rightarrow> audit_config" where
  "server_audit config =
     (case oc_audit config of
        Some a \<Rightarrow> a
      | None \<Rightarrow> \<lparr>ac_enabled = False, ac_path = [], ac_format = Jsonl, ac_maxEntries = 0\<rparr>)"

definition handle_query_history ::
    "'f audit_fs \<Rightarrow> omnibase_config \<Rightarrow> string option \<Rightarrow> audit_status option \<Rightarrow> int option \<Rightarrow> int option \<Rightarrow>
       ('f logger, history) io" where
  "handle_query_history fs config connection status limit offset =
     bindM (read_entries fs (server_audit config)
       \<lparr>ro_limit = limit, ro_offset = offset, ro_connection = connection, ro_status = status\<rparr>)
       (\<lambda>entries. ret (query_history config connection status entries))"

section \<open>Every request is answered\<close>

lemma settles_cm [simp]:
  "settles (get_schema bk config force exact)" "settles (cm_execute bk config query params options)"
  "settles (explain_query bk config query analyze)" "settles (validate_query bk config query)"
  "settles (cm_ping bk config)" "settles (invalidate_schema_cache n)" "settles (audit_log b entry)"
  unfolding get_schema_def cm_execute_def explain_query_def validate_query_def cm_ping_def
    invalidate_schema_cache_def audit_log_def
  by (auto intro!: settles_bindM)

lemma settles_with_schema:
  "(\<And>conn schema. settles (body conn schema)) \<Longrightarrow> settles (with_schema bk config c force exact body)"
  unfolding with_schema_def by (auto intro!: settles_bindM)

lemma settles_table_tools:
  "settles (handle_get_schema bk config c tables force)"
  "settles (handle_list_tables bk config c exact)"
  "settles (handle_search_schema bk config c query)"
  "settles (handle_get_sample bk config c table limit whr order_by)"
  "settles (handle_get_distinct_values bk config c table column limit)"
  "settles (handle_get_table_stats bk config c table sample)"
  "settles (handle_get_indexes bk config c tbl)"
  "settles (handle_get_relationships bk config c tbl)"
  "settles (handle_test_connection bk config c)"
  "settles (handle_explain_query bk config c query analyze)"
  unfolding handle_get_schema_def handle_list_tables_def handle_search_schema_def handle_get_sample_def
    handle_get_distinct_values_def handle_get_table_stats_def handle_get_indexes_def
    handle_get_relationships_def handle_test_connection_def handle_explain_query_def Let_def
  by (auto intro!: settles_with_schema settles_bindM settles_try_catch)

lemma settles_execute_sql: "settles (handle_execute_sql astify bk config auditLogger args)"
  unfolding handle_execute_sql_def execute_body_def execute_log_def Let_def
  by (auto intro!: settles_bindM settles_try_catch)

lemma settles_validate: "settles (handle_validate_query astify bk config c query)"
proof -
  have ask: "settles (ask_database bk conn q v)" for conn q v
    unfolding ask_database_def by (auto intro!: settles_try_catch settles_bindM split: prod.split)
  have refs: "settles (validate_schema_references bk conn ast v)" for conn ast v
    unfolding validate_schema_references_def by (auto intro!: settles_try_catch settles_bindM)
  have est: "settles (add_estimate bk conn q ast v)" for conn q ast v
    unfolding add_estimate_def estimate_affected_rows_def
    by (auto intro!: settles_try_catch settles_bindM split: option.split)
  show ?thesis
    unfolding handle_validate_query_def Let_def
    by (auto intro!: settles_bindM ask refs est split: option.split)
qed

lemma settles_audited: "settles m \<Longrightarrow> settles (audited env tool c okSql errSql rows m)"
  unfolding audited_def lookup_log_def by (auto intro!: settles_bindM settles_try_catch)

lemma answering_answers: "settles m \<Longrightarrow> \<exists>r s'. answering f m s = (Ret r, s')"
  unfolding settles_def answering_def try_catch_run bindM_run
  by (auto simp: ret_run split: prod.split outcome.split) (metis fst_conv)

text \<open>An error becomes an error response with the text of the error; nothing is thrown.\<close>

lemma answering_error: "m s = (Throw e, s') \<Longrightarrow> answering f m s = (Ret (ErrorResponse (error_message e)), s')"
  by (simp add: answering_def try_catch_run bindM_run ret_run error_response_def)

lemma builtin_answers:
  assumes "\<And>name args. req \<noteq> CustomTool name args"
  shows "\<exists>r s'. respond n env req s = (Ret r, s')"
  using assms
  by (cases req) (auto simp: serve_defs
      intro!: answering_answers settles_table_tools settles_execute_sql settles_validate settles_audited)

lemma custom_answers:
  assumes "validate_custom_tools (te_config env) = Some (Inr ())"
    and "length (config_tools (te_config env)) + 2 \<le> n" and "cm_transactionLocks s = {}"
  shows "\<exists>r s'. respond n env (CustomTool name args) s = (Ret r, s')"
proof (cases "obj_get (register_custom_tools (te_config env)) name")
  case None
  then show ?thesis by (simp add: call_custom_def ret_run)
next
  case (Some r)
  have ok: "tools_ok (te_config env)" using assms(1) by (simp add: validate_custom_tools_accepts)
  then have "acyclic (refers_to (compose_edges (te_config env)))" by (simp add: tools_ok_def)
  then have "lock_neutral (execute_custom_tool n env (rg_name r) (rg_tool r) args)"
    using enough_fuel_tools [OF ok assms(2)] by (rule lock_neutral_custom_tool)
  then have "fst (execute_custom_tool n env (rg_name r) (rg_tool r) args s) \<noteq> Hang"
    using assms(3) by (simp add: lock_neutral_def)
  then show ?thesis
    using Some
    by (auto simp: call_custom_def answering_def try_catch_run bindM_run ret_run split: prod.split outcome.split)
qed

section \<open>The server as a state machine\<close>

lemma keeps_audited [keeps_intros]: "keeps cm_inv m \<Longrightarrow> keeps cm_inv (audited env tool c okSql errSql rows m)"
  unfolding audited_def lookup_log_def by (intro keeps_intros)

lemma keeps_answering [keeps_intros]: "keeps cm_inv m \<Longrightarrow> keeps cm_inv (answering f m)"
  unfolding answering_def by (intro keeps_intros)

lemma keeps_respond: "keeps cm_inv (respond n env req)"
  by (cases req) (auto simp: call_custom_def serve_defs intro!: keeps_intros keeps_handle_execute_sql keeps_inv_custom_tool
      split: option.split)

text \<open>
  Requests under any configuration (the custom tools are reloaded when the file changes),
  and events of the connection manager, in any order, each run to completion.
\<close>

inductive server_step :: "'w backend \<Rightarrow> 'w sys \<Rightarrow> 'w sys \<Rightarrow> bool" for bk where
  server_manager: "cm_step bk s t \<Longrightarrow> server_step bk s t"
| server_request: "te_backend env = bk \<Longrightarrow> server_step bk s (snd (respond n env req s))"

lemma server_step_inv: "server_step bk s t \<Longrightarrow> cm_inv s \<Longrightarrow> cm_inv t"
proof (induction rule: server_step.induct)
  case (server_manager s t)
  then show ?case by (rule cm_step_inv)
next
  case server_request
  show ?case by (rule keepsD [OF keeps_respond server_request(2)])
qed

interpretation sv: invariant_machine "\<lambda>s. \<exists>w. s = initial_sys w" "server_step bk" cm_inv for bk
  by unfold_locales (erule cm.inv_start, erule (1) server_step_inv [rotated])

end
