(* ===== verification/TransactionLock.thy ===== *)
theory TransactionLock
  imports ConnectionManager
begin

text \<open>
  The transaction lock (\<open>acquireTransactionLock\<close> in \<open>src/connection-manager.ts\<close>) under
  interleaving. Tasks run until their next \<open>await\<close>. A task that asks for the lock of a
  connection either registers a new promise, identified by a number, and holds the lock,
  or suspends on the registered promise; when that promise is resolved it checks again.
  A holder calls the release function that it was given, once.
\<close>

datatype task =
    Idle
  | Waiting string nat     \<comment> \<open>suspended on a promise\<close>
  | Holding string nat     \<comment> \<open>owns the lock under its promise\<close>

record lock_state =
  lk_locks :: "string \<rightharpoonup> nat"
  lk_next :: nat
  lk_resolved :: "nat set"
  lk_tasks :: "nat \<Rightarrow> task"

definition lock_start :: lock_state where
  "lock_start = \<lparr>lk_locks = Map.empty, lk_next = 0, lk_resolved = {}, lk_tasks = (\<lambda>_. Idle)\<rparr>"

text \<open>One pass of the \<open>while\<close> test, with what follows it up to the next suspension.\<close>

definition try_acquire :: "nat \<Rightarrow> string \<Rightarrow> lock_state \<Rightarrow> lock_state" where
  "try_acquire p c s =
     (case lk_locks s c of
        Some t \<Rightarrow> s\<lparr>lk_tasks := (lk_tasks s)(p := Waiting c t)\<rparr>
      | None \<Rightarrow> s\<lparr>lk_locks := (lk_locks s)(c \<mapsto> lk_next s), lk_next := Suc (lk_next s),
                  lk_tasks := (lk_tasks s)(p := Holding c (lk_next s))\<rparr>)"

definition release :: "nat \<Rightarrow> string \<Rightarrow> nat \<Rightarrow> lock_state \<Rightarrow> lock_state" where
  "release p c t s =
     s\<lparr>lk_locks := (lk_locks s)(c := None), lk_resolved := insert t (lk_resolved s),
       lk_tasks := (lk_tasks s)(p := Idle)\<rparr>"

inductive lock_step :: "lock_state \<Rightarrow> lock_state \<Rightarrow> bool" where
  lock_request: "lk_tasks s p = Idle \<Longrightarrow> lock_step s (try_acquire p c s)"
| lock_wake: "lk_tasks s p = Waiting c t \<Longrightarrow> t \<in> lk_resolved s \<Longrightarrow> lock_step s (try_acquire p c s)"
| lock_release: "lk_tasks s p = Holding c t \<Longrightarrow> lock_step s (release p c t s)"

inductive_cases lock_stepE: "lock_step s s'"

section \<open>The invariant\<close>

text \<open>
  The registered promise of a connection belongs to exactly one task, which holds the
  lock; a suspended task waits for a promise that is resolved or registered.
\<close>

definition lock_inv :: "lock_state \<Rightarrow> bool" where
  "lock_inv s \<longleftrightarrow>
     (\<forall>c t. lk_locks s c = Some t \<longrightarrow>
        t < lk_next s \<and> t \<notin> lk_resolved s \<and> (\<exists>p. lk_tasks s p = Holding c t)) \<and>
     (\<forall>p c t. lk_tasks s p = Holding c t \<longrightarrow> lk_locks s c = Some t) \<and>
     (\<forall>p q c c' t. lk_tasks s p = Holding c t \<longrightarrow> lk_tasks s q = Holding c' t \<longrightarrow> p = q) \<and>
     (\<forall>p c t. lk_tasks s p = Waiting c t \<longrightarrow> t \<in> lk_resolved s \<or> lk_locks s c = Some t) \<and>
     (\<forall>t \<in> lk_resolved s. t < lk_next s)"

lemma lock_inv_start: "lock_inv lock_start"
  by (simp add: lock_inv_def lock_start_def)

lemma lock_invI:
  assumes "\<And>c t. lk_locks s c = Some t \<Longrightarrow>
      t < lk_next s \<and> t \<notin> lk_resolved s \<and> (\<exists>p. lk_tasks s p = Holding c t)"
    and "\<And>p c t. lk_tasks s p = Holding c t \<Longrightarrow> lk_locks s c = Some t"
    and "\<And>p q c c' t. lk_tasks s p = Holding c t \<Longrightarrow> lk_tasks s q = Holding c' t \<Longrightarrow> p = q"
    and "\<And>p c t. lk_tasks s p = Waiting c t \<Longrightarrow> t \<in> lk_resolved s \<or> lk_locks s c = Some t"
    and "\<And>t. t \<in> lk_resolved s \<Longrightarrow> t < lk_next s"
  shows "lock_inv s"
  using assms unfolding lock_inv_def by (intro conjI allI impI ballI) blast+

lemma lock_invD:
  assumes "lock_inv s"
  shows lock_registered: "lk_locks s c = Some t \<Longrightarrow>
      t < lk_next s \<and> t \<notin> lk_resolved s \<and> (\<exists>p. lk_tasks s p = Holding c t)"
    and lock_holder: "lk_tasks s p = Holding c t \<Longrightarrow> lk_locks s c = Some t"
    and lock_unique: "lk_tasks s p = Holding c t \<Longrightarrow> lk_tasks s q = Holding c' t \<Longrightarrow> p = q"
    and lock_waiting: "lk_tasks s p = Waiting c t \<Longrightarrow> t \<in> lk_resolved s \<or> lk_locks s c = Some t"
    and lock_resolved: "t \<in> lk_resolved s \<Longrightarrow> t < lk_next s"
  using assms unfolding lock_inv_def by blast+

lemma lock_inv_acquire_free:
  assumes inv: "lock_inv s" and task: "\<And>d t. lk_tasks s p \<noteq> Holding d t" and free: "lk_locks s c = None"
  shows "lock_inv (try_acquire p c s)"
proof -
  let ?s = "try_acquire p c s"
  have new: "lk_locks ?s = (lk_locks s)(c \<mapsto> lk_next s)" "lk_next ?s = Suc (lk_next s)"
    "lk_resolved ?s = lk_resolved s" "lk_tasks ?s = (lk_tasks s)(p := Holding c (lk_next s))"
    using free by (simp_all add: try_acquire_def)
  have old: "t < lk_next s" if "lk_tasks s q = Holding d t" for q d t
    using lock_registered [OF inv lock_holder [OF inv that]] by blast
  show ?thesis
  proof (rule lock_invI, unfold new)
    fix d t
    assume "((lk_locks s)(c \<mapsto> lk_next s)) d = Some t"
    then show "t < Suc (lk_next s) \<and> t \<notin> lk_resolved s \<and>
        (\<exists>q. ((lk_tasks s)(p := Holding c (lk_next s))) q = Holding d t)"
      using lock_registered [OF inv, of d t] lock_resolved [OF inv, of t] task
      by (cases "d = c") (auto simp: less_Suc_eq, metis)
  next
    fix q d t
    assume "((lk_tasks s)(p := Holding c (lk_next s))) q = Holding d t"
    then show "((lk_locks s)(c \<mapsto> lk_next s)) d = Some t"
      using lock_holder [OF inv, of q d t] free by (cases "q = p") auto
  next
    fix q r d d' t
    assume "((lk_tasks s)(p := Holding c (lk_next s))) q = Holding d t"
      "((lk_tasks s)(p := Holding c (lk_next s))) r = Holding d' t"
    then show "q = r"
      using lock_unique [OF inv, of q d t r d'] old [of q d t] old [of r d' t]
      by (cases "q = p"; cases "r = p") auto
  next
    fix q d t
    assume "((lk_tasks s)(p := Holding c (lk_next s))) q = Waiting d t"
    then show "t \<in> lk_resolved s \<or> ((lk_locks s)(c \<mapsto> lk_next s)) d = Some t"
      using lock_waiting [OF inv, of q d t] free by (cases "q = p") auto
  next
    fix t
    assume "t \<in> lk_resolved s"
    then show "t < Suc (lk_next s)" using lock_resolved [OF inv] by (simp add: less_SucI)
  qed
qed

lemma lock_inv_acquire_taken:
  assumes inv: "lock_inv s" and task: "\<And>d t. lk_tasks s p \<noteq> Holding d t" and taken: "lk_locks s c = Some u"
  shows "lock_inv (try_acquire p c s)"
proof -
  let ?s = "try_acquire p c s"
  have new: "lk_locks ?s = lk_locks s" "lk_next ?s = lk_next s"
    "lk_resolved ?s = lk_resolved s" "lk_tasks ?s = (lk_tasks s)(p := Waiting c u)"
    using taken by (simp_all add: try_acquire_def)
  have holding: "((lk_tasks s)(p := Waiting c u)) q = Holding d t \<longleftrightarrow> lk_tasks s q = Holding d t" for q d t
    using task by simp
  show ?thesis
    by (rule lock_invI, unfold new holding)
      (use lock_registered [OF inv] lock_holder [OF inv] lock_unique [OF inv] lock_resolved [OF inv]
        lock_waiting [OF inv] taken in \<open>auto split: if_splits\<close>)
qed

lemma lock_inv_acquire:
  "lock_inv s \<Longrightarrow> (\<And>d t. lk_tasks s p \<noteq> Holding d t) \<Longrightarrow> lock_inv (try_acquire p c s)"
  by (cases "lk_locks s c") (simp_all add: lock_inv_acquire_free lock_inv_acquire_taken)

lemma lock_inv_release:
  assumes inv: "lock_inv s" and task: "lk_tasks s p = Holding c t"
  shows "lock_inv (release p c t s)"
proof -
  let ?s = "release p c t s"
  have new: "lk_locks ?s = (lk_locks s)(c := None)" "lk_next ?s = lk_next s"
    "lk_resolved ?s = insert t (lk_resolved s)" "lk_tasks ?s = (lk_tasks s)(p := Idle)"
    by (simp_all add: release_def)
  have held: "lk_locks s c = Some t" by (rule lock_holder [OF inv task])
  have only: "q = p" if "lk_tasks s q = Holding c u" for q u
    using lock_holder [OF inv that] held lock_unique [OF inv task, of q c] that by simp
  show ?thesis
  proof (rule lock_invI, unfold new)
    fix d u
    assume "((lk_locks s)(c := None)) d = Some u"
    then have d: "d \<noteq> c" "lk_locks s d = Some u" by (auto split: if_splits)
    then obtain q where q: "lk_tasks s q = Holding d u" using lock_registered [OF inv] by blast
    then have "q \<noteq> p" "u \<noteq> t" using task d(1) lock_unique [OF inv task, of q d] by auto
    then show "u < lk_next s \<and> u \<notin> insert t (lk_resolved s) \<and> (\<exists>q. ((lk_tasks s)(p := Idle)) q = Holding d u)"
      using q lock_registered [OF inv d(2)] by auto
  next
    fix q d u
    assume "((lk_tasks s)(p := Idle)) q = Holding d u"
    then show "((lk_locks s)(c := None)) d = Some u"
      using lock_holder [OF inv, of q d u] only [of q u] by (auto split: if_splits)
  next
    fix q r d d' u
    assume "((lk_tasks s)(p := Idle)) q = Holding d u" "((lk_tasks s)(p := Idle)) r = Holding d' u"
    then show "q = r" using lock_unique [OF inv, of q d u r d'] by (auto split: if_splits)
  next
    fix q d u
    assume "((lk_tasks s)(p := Idle)) q = Waiting d u"
    then show "u \<in> insert t (lk_resolved s) \<or> ((lk_locks s)(c := None)) d = Some u"
      using lock_waiting [OF inv, of q d u] held by (auto split: if_splits)
  next
    fix u
    assume "u \<in> insert t (lk_resolved s)"
    then show "u < lk_next s" using lock_resolved [OF inv] lock_registered [OF inv held] by auto
  qed
qed

lemma lock_inv_step: "lock_inv s \<Longrightarrow> lock_step s s' \<Longrightarrow> lock_inv s'"
  by (erule lock_stepE) (auto intro!: lock_inv_acquire lock_inv_release)

interpretation lk: invariant_machine "\<lambda>s. s = lock_start" lock_step lock_inv
  by unfold_locales (auto simp: lock_inv_start lock_inv_step)


section \<open>Mutual exclusion and progress\<close>

lemma lock_exclusive:
  "lock_inv s \<Longrightarrow> lk_tasks s p = Holding c t \<Longrightarrow> lk_tasks s q = Holding c u \<Longrightarrow> p = q"
  using lock_holder lock_unique by (metis option.inject)

text \<open>A suspended task can always be served: by its own wake-up, after the holder's release if need be.\<close>

lemma wake_free:
  "lk_tasks s p = Waiting c t \<Longrightarrow> t \<in> lk_resolved s \<Longrightarrow> lk_locks s c = None \<Longrightarrow>
     \<exists>s'. lock_step s s' \<and> (\<exists>u. lk_tasks s' p = Holding c u)"
  by (rule exI [of _ "try_acquire p c s"], rule conjI, erule (1) lock_wake) (simp add: try_acquire_def)

lemma waiting_served:
  assumes inv: "lock_inv s" and wait: "lk_tasks s p = Waiting c t"
  shows "\<exists>s' u. lock_step\<^sup>*\<^sup>* s s' \<and> lk_tasks s' p = Holding c u"
proof (cases "lk_locks s c")
  case None
  then have "t \<in> lk_resolved s" using lock_waiting [OF inv wait] by simp
  then show ?thesis using wake_free [OF wait _ None] by blast
next
  case (Some u)
  then obtain q where q: "lk_tasks s q = Holding c u" using lock_registered [OF inv] by blast
  let ?s = "release q c u s"
  have step: "lock_step s ?s" by (rule lock_release [OF q])
  have "lk_tasks ?s p = Waiting c t" "lk_locks ?s c = None" "t \<in> lk_resolved ?s"
    using wait q Some lock_waiting [OF inv wait] by (auto simp: release_def)
  then obtain s' v where "lock_step ?s s'" "lk_tasks s' p = Holding c v" using wake_free by blast
  then show ?thesis using step by (meson converse_rtranclp_into_rtranclp r_into_rtranclp)
qed

end
