(* ===== verification/AuditTrail.thy ===== *)
theory AuditTrail
  imports AuditLogger
begin

text \<open>
  Correctness of the audit logger: it never throws; on a store that does what it is asked,
  the file always holds a suffix of everything logged, at least the newest \<open>maxEntries\<close>
  lines of it, and at most 99 lines more than that once a hundred entries are written; and
  an entry reads back as what was logged.
\<close>

section \<open>Lines\<close>

definition file_text :: "string list \<Rightarrow> string" where
  "file_text ls = concat (map (\<lambda>l. l @ [newline]) ls)"

definition clean_line :: "string \<Rightarrow> bool" where
  "clean_line l \<longleftrightarrow> newline \<notin> set l \<and> trim l \<noteq> []"

lemma file_text_append [simp]: "file_text (ls @ ms) = file_text ls @ file_text ms"
  by (simp add: file_text_def)

lemma file_text_single [simp]: "file_text [l] = l @ [newline]"
  by (simp add: file_text_def)

lemma split_char_line: "c \<notin> set l \<Longrightarrow> split_char c (l @ c # s) = l # split_char c s"
  by (induction l) auto

lemma nonblank_file_text: "list_all clean_line ls \<Longrightarrow> nonblank_lines (file_text ls) = ls"
proof (induction ls)
  case Nil
  then show ?case by (simp add: nonblank_lines_def file_text_def trim_def trim_start_def trim_end_def)
next
  case (Cons l ls)
  have "file_text (l # ls) = l @ newline # file_text ls" by (simp add: file_text_def)
  then show ?case
    using Cons by (simp add: nonblank_lines_def clean_line_def split_char_line)
qed

lemma join_file_text: "ls \<noteq> [] \<Longrightarrow> join [newline] ls @ [newline] = file_text ls"
proof (induction ls)
  case (Cons l ls)
  then show ?case by (cases ls) (simp_all add: file_text_def)
qed simp

section \<open>A JSON line is a line\<close>

lemma json_char_no_newline: "newline \<notin> set (json_char c)"
proof (cases "(of_char c :: nat) < 32")
  case True
  have "hex_digit n \<noteq> newline" if "n < 16" for n
    using hex_digit_val [OF that] that by (auto simp: digit_val_def)
  moreover have "(of_char c :: nat) div 16 < 16" "(of_char c :: nat) mod 16 < 16"
    using True by (simp_all add: div_less_iff_less_mult)
  ultimately have "hex_digit (of_char c div 16) \<noteq> newline" "hex_digit (of_char c mod 16) \<noteq> newline"
    by blast+
  then show ?thesis by (auto simp: json_char_def Let_def)
next
  case False
  then show ?thesis by (auto simp: json_char_def Let_def)
qed

lemma join_set: "set (join sep ws) \<subseteq> set sep \<union> (\<Union>w \<in> set ws. set w)"
proof (induction ws)
  case (Cons w ws)
  then show ?case by (cases ws) auto
qed simp

lemma json_string_no_newline: "newline \<notin> set (json_string s)"
  using json_char_no_newline by (auto simp: json_string_def)

lemma num_str_no_newline: "newline \<notin> set (num_str n)"
proof
  assume "newline \<in> set (num_str n)"
  with num_str_chars have "num_char newline" by (auto simp: list_all_iff)
  then show False by (simp add: num_char_def is_digit_def)
qed

lemma json_no_newline: "newline \<notin> set (json v)"
proof (induction v)
  case (JNum n)
  then show ?case using num_str_no_newline [of n] by (cases n) auto
next
  case (JArr vs)
  then show ?case using join_set [of "'',''" "map json vs"] by auto
next
  case (JObj kvs)
  then have "newline \<notin> set (json (snd kv))" if "kv \<in> set kvs" for kv using that by (cases kv) auto
  then show ?case
    using join_set [of "'',''"] json_string_no_newline by (fastforce split: if_splits)
qed (simp_all add: json_string_no_newline)

lemma audit_record_line: "clean_line (json (audit_record ts entry))"
proof -
  obtain s where s: "json (audit_record ts entry) = CHR ''{'' # s" by (simp add: audit_record_def)
  have "trim (CHR ''{'' # s) \<noteq> []"
  proof -
    have "trim_start (CHR ''{'' # s) = CHR ''{'' # s" by (simp add: trim_start_def is_space_def)
    moreover have "CHR ''{'' \<in> set (trim_end (CHR ''{'' # s))"
      by (induction s rule: rev_induct) (simp_all add: trim_end_def is_space_def)
    ultimately show ?thesis by (auto simp: trim_def)
  qed
  then show ?thesis using json_no_newline [of "audit_record ts entry"] by (simp add: clean_line_def s)
qed

section \<open>Never a failure\<close>

lemma call_fs_run [run_simps]:
  "call_fs f l = (case f (lg_world l) of
       (Inr a, w) \<Rightarrow> (Ret a, l\<lparr>lg_world := w\<rparr>)
     | (Inl e, w) \<Rightarrow> (Throw e, l\<lparr>lg_world := w\<rparr>))"
  by (simp add: call_fs_def)

lemma prune_returns: "fst (prune_if_needed fs config l) = Ret ()"
  by (auto simp: prune_if_needed_def run_simps Let_def split: prod.split sum.split)

lemma count_write_returns: "fst (count_write fs config l) = Ret ()"
  using prune_returns [of fs config]
  by (auto simp: count_write_def run_simps prod_eq_iff split: prod.split)

lemma log_entry_returns: "fst (log_entry fs config entry l) = Ret ()"
  using count_write_returns [of fs config]
  by (auto simp: log_entry_def bindM_run gets_run try_catch_run ret_run call_fs_run prod_eq_iff
      split: prod.split sum.split outcome.split)

lemma read_entries_returns: "\<exists>es. fst (read_entries fs config opts l) = Ret es"
  by (auto simp: read_entries_def run_simps split: prod.split sum.split)

section \<open>A store that does what it is asked\<close>

text \<open>\<open>content w\<close> is the text of the log file, empty when there is none.\<close>

definition reliable :: "'w audit_fs \<Rightarrow> ('w \<Rightarrow> string) \<Rightarrow> bool" where
  "reliable fs content \<longleftrightarrow>
     (\<forall>w. fst (fs_mkdir fs w) = Inr () \<and> content (snd (fs_mkdir fs w)) = content w) \<and>
     (\<forall>t w. fst (fs_append fs t w) = Inr () \<and> content (snd (fs_append fs t w)) = content w @ t) \<and>
     (\<forall>w. fst (fs_read fs w) = Inr (content w) \<and> content (snd (fs_read fs w)) = content w) \<and>
     (\<forall>t w. fst (fs_write fs t w) = Inr () \<and> content (snd (fs_write fs t w)) = t)"

definition jsonl_audit :: "audit_config \<Rightarrow> bool" where
  "jsonl_audit config \<longleftrightarrow> ac_enabled config \<and> ac_format config = Jsonl"

text \<open>The line that an entry becomes, and a sequence of entries.\<close>

definition line_at :: "'w audit_fs \<Rightarrow> audit_entry \<Rightarrow> 'w logger \<Rightarrow> string" where
  "line_at fs entry l = json (audit_record (fs_now fs (lg_world l)) entry)"

fun log_all :: "'w audit_fs \<Rightarrow> audit_config \<Rightarrow> audit_entry list \<Rightarrow> 'w logger \<Rightarrow> 'w logger" where
  "log_all fs config [] l = l"
| "log_all fs config (e # es) l = log_all fs config es (snd (log_entry fs config e l))"

fun log_lines :: "'w audit_fs \<Rightarrow> audit_config \<Rightarrow> audit_entry list \<Rightarrow> 'w logger \<Rightarrow> string list" where
  "log_lines fs config [] l = []"
| "log_lines fs config (e # es) l = line_at fs e l # log_lines fs config es (snd (log_entry fs config e l))"

lemma length_log_lines [simp]: "length (log_lines fs config es l) = length es"
  by (induction es arbitrary: l) simp_all

lemma clean_log_lines: "list_all clean_line (log_lines fs config es l)"
  by (induction es arbitrary: l) (simp_all add: line_at_def audit_record_line)

text \<open>One write: the line is appended, and every hundredth write prunes.\<close>

lemma prune_reliable:
  assumes fs: "reliable fs content" and max: "0 < ac_maxEntries config"
    and held: "content (lg_world l) = file_text ls" "list_all clean_line ls"
  shows "content (lg_world (snd (prune_if_needed fs config l))) =
      file_text (drop (length ls - nat (ac_maxEntries config)) ls) \<and>
    lg_writesSincePrune (snd (prune_if_needed fs config l)) = lg_writesSincePrune l"
proof -
  let ?m = "nat (ac_maxEntries config)"
  obtain w where r: "fs_read fs (lg_world l) = (Inr (file_text ls), w)" "content w = file_text ls"
    using fs held(1) unfolding reliable_def by (metis prod.collapse)
  show ?thesis
  proof (cases "int (length ls) > ac_maxEntries config")
    case True
    have pruned: "js_slice (int (length ls) - ac_maxEntries config) (int (length ls)) ls = drop (length ls - ?m) ls"
      using True max by (simp add: js_slice_nonneg nat_diff_distrib)
    have "drop (length ls - ?m) ls \<noteq> []" using True max by auto
    then have t: "join [newline] (drop (length ls - ?m) ls) @ [newline] = file_text (drop (length ls - ?m) ls)"
      by (rule join_file_text)
    obtain w' where "fs_write fs (file_text (drop (length ls - ?m) ls)) w = (Inr (), w')"
      "content w' = file_text (drop (length ls - ?m) ls)"
      using fs unfolding reliable_def by (metis prod.collapse)
    then show ?thesis
      using True by (simp add: prune_if_needed_def run_simps r nonblank_file_text [OF held(2)] Let_def pruned t)
  next
    case False
    then have "length ls - ?m = 0" by simp
    then show ?thesis
      using False r by (simp add: prune_if_needed_def run_simps nonblank_file_text [OF held(2)] Let_def)
  qed
qed

lemma log_entry_reliable:
  assumes fs: "reliable fs content" and config: "jsonl_audit config" "0 < ac_maxEntries config"
    and held: "content (lg_world l) = file_text ls" "list_all clean_line ls"
    and ls': "ls' = ls @ [line_at fs e l]"
  shows "(content (lg_world (snd (log_entry fs config e l))), lg_writesSincePrune (snd (log_entry fs config e l))) =
    (if lg_writesSincePrune l + 1 < prune_interval then (file_text ls', lg_writesSincePrune l + 1)
     else (file_text (drop (length ls' - nat (ac_maxEntries config)) ls'), 0))"
proof -
  obtain w where mk: "fs_mkdir fs (lg_world l) = (Inr (), w)" "content w = file_text ls"
    using fs held(1) unfolding reliable_def by (metis prod.collapse)
  obtain w' where ap: "fs_append fs (line_at fs e l @ [newline]) w = (Inr (), w')" "content w' = file_text ls'"
    using fs mk(2) unfolding reliable_def ls' by (metis prod.collapse file_text_append file_text_single)
  have clean: "list_all clean_line ls'"
    using held(2) by (simp add: ls' line_at_def audit_record_line)
  have line: "audit_line Jsonl (fs_now fs (lg_world l)) e = line_at fs e l @ [newline]"
    by (simp add: audit_line_def line_at_def)
  let ?l = "l\<lparr>lg_world := w'\<rparr>"
  obtain l' where counted: "count_write fs config ?l = (Ret (), l')"
    using count_write_returns by (metis prod.collapse)
  have "snd (log_entry fs config e l) = snd (count_write fs config ?l)"
    using config counted by (simp add: log_entry_def run_simps jsonl_audit_def mk line ap)
  also have "\<dots> = (if lg_writesSincePrune l + 1 < prune_interval
      then ?l\<lparr>lg_writesSincePrune := lg_writesSincePrune l + 1\<rparr>
      else snd (prune_if_needed fs config (?l\<lparr>lg_writesSincePrune := 0\<rparr>)))"
    using config by (simp add: count_write_def run_simps)
  finally show ?thesis
    using prune_reliable [OF fs config(2) _ clean, of "?l\<lparr>lg_writesSincePrune := 0\<rparr>"] ap(2) by simp
qed

section \<open>What the file holds\<close>

text \<open>
  The file is a suffix of everything logged: only lines that are not among the newest
  \<open>maxEntries\<close> are gone, and at most as many superfluous ones are left as were written since
  the last pruning.
\<close>

definition retains :: "'w audit_fs \<Rightarrow> ('w \<Rightarrow> string) \<Rightarrow> nat \<Rightarrow> string list \<Rightarrow> 'w logger \<Rightarrow> bool" where
  "retains fs content m ls l \<longleftrightarrow> lg_writesSincePrune l < prune_interval \<and>
     (\<exists>k \<le> length ls - m. content (lg_world l) = file_text (drop k ls) \<and>
        length ls - k \<le> m + lg_writesSincePrune l)"

lemma retains_log:
  assumes "reliable fs content" "jsonl_audit config" "0 < ac_maxEntries config"
    and "list_all clean_line ls" "retains fs content (nat (ac_maxEntries config)) ls l"
  shows "retains fs content (nat (ac_maxEntries config)) (ls @ [line_at fs e l]) (snd (log_entry fs config e l))"
proof -
  let ?m = "nat (ac_maxEntries config)" and ?x = "line_at fs e l" and ?w = "lg_writesSincePrune l"
  obtain k where k: "k \<le> length ls - ?m" "content (lg_world l) = file_text (drop k ls)"
      "length ls - k \<le> ?m + ?w" and w: "?w < prune_interval"
    using assms(5) unfolding retains_def by blast
  have clean: "list_all clean_line (drop k ls)" using assms(4) by (rule list_all_take_drop)
  have more: "drop k ls @ [?x] = drop k (ls @ [?x])" using k(1) by simp
  note step = log_entry_reliable [OF assms(1-3) k(2) clean refl, of e, unfolded more]
  show ?thesis
  proof (cases "?w + 1 < prune_interval")
    case True
    then show ?thesis using step k unfolding retains_def by (auto intro!: exI [of _ k])
  next
    case False
    let ?j = "length (drop k (ls @ [?x])) - ?m"
    have "?j + k \<le> length (ls @ [?x]) - ?m" "length (ls @ [?x]) - (?j + k) \<le> ?m"
      using k(1) by auto
    then show ?thesis
      using step False unfolding retains_def
      by (auto simp: prune_interval_def drop_drop intro!: exI [of _ "?j + k"] simp del: drop_append length_drop)
  qed
qed

lemma retains_log_all:
  assumes "reliable fs content" "jsonl_audit config" "0 < ac_maxEntries config"
    and "list_all clean_line ls" "retains fs content (nat (ac_maxEntries config)) ls l"
  shows "retains fs content (nat (ac_maxEntries config)) (ls @ log_lines fs config es l) (log_all fs config es l)"
  using assms(4,5)
proof (induction es arbitrary: ls l)
  case (Cons e es)
  have "list_all clean_line (ls @ [line_at fs e l])"
    using Cons.prems(1) by (simp add: line_at_def audit_record_line)
  from Cons.IH [OF this retains_log [OF assms(1-3) Cons.prems]] show ?case by simp
qed simp

text \<open>A process that writes fewer than a hundred entries never prunes.\<close>

lemma no_prune:
  assumes "reliable fs content" "jsonl_audit config" "0 < ac_maxEntries config"
    and "list_all clean_line ls" "content (lg_world l) = file_text ls"
    and "lg_writesSincePrune l + length es < prune_interval"
  shows "content (lg_world (log_all fs config es l)) = file_text (ls @ log_lines fs config es l)"
  using assms(4-6)
proof (induction es arbitrary: ls l)
  case (Cons e es)
  note step = log_entry_reliable [OF assms(1-3) Cons.prems(2,1) refl, of e]
  have "list_all clean_line (ls @ [line_at fs e l])"
    using Cons.prems(1) by (simp add: line_at_def audit_record_line)
  moreover have "content (lg_world (snd (log_entry fs config e l))) = file_text (ls @ [line_at fs e l])"
    "lg_writesSincePrune (snd (log_entry fs config e l)) + length es < prune_interval"
    using step Cons.prems(3) by auto
  ultimately have "content (lg_world (log_all fs config es (snd (log_entry fs config e l)))) =
      file_text ((ls @ [line_at fs e l]) @ log_lines fs config es (snd (log_entry fs config e l)))"
    by (rule Cons.IH)
  then show ?case by (simp only: log_all.simps log_lines.simps append_assoc append.simps)
qed simp

section \<open>Reading entries back\<close>

lemma audit_record_ok: "list_all json_ok (ae_params entry) \<Longrightarrow> json_ok (audit_record ts entry)"
  by (simp add: audit_record_def canonical_int_num split: option.split)

lemma json_norm_record: "json_norm (audit_record ts entry) \<noteq> JNull"
  by (simp add: audit_record_def)

lemma parsed_snoc:
  assumes "list_all clean_line (ls @ [json v])" "json_ok v" "json_norm v \<noteq> JNull"
  shows "parsed_lines (file_text (ls @ [json v])) = parsed_lines (file_text ls) @ [json_norm v]"
proof -
  have "list_all clean_line ls" using assms(1) by simp
  then show ?thesis
    unfolding parsed_lines_def nonblank_file_text [OF assms(1)] nonblank_file_text [OF \<open>list_all clean_line ls\<close>]
    using assms(2,3) by (simp add: json_round_trip)
qed

definition all_entries :: read_options where
  "all_entries = \<lparr>ro_limit = None, ro_offset = None, ro_connection = None, ro_status = None\<rparr>"

lemma newest_first:
  assumes "list_all clean_line (ls @ [json v])" "json_ok v" "json_norm v \<noteq> JNull"
  shows "\<exists>es. select_entries all_entries (file_text (ls @ [json v])) = json_norm v # es"
  unfolding select_entries_def parsed_snoc [OF assms] Let_def
  by (simp add: all_entries_def matching_def js_slice_nonneg)

text \<open>Whatever was logged last is the first entry of the history, as it was logged.\<close>

lemma logged_entry_first:
  assumes fs: "reliable fs content" and config: "jsonl_audit config" "0 < ac_maxEntries config"
    and "list_all clean_line ls" "content (lg_world l) = file_text ls" "list_all json_ok (ae_params e)"
  shows "\<exists>es. fst (read_entries fs config all_entries (snd (log_entry fs config e l))) =
     Ret (json_norm (audit_record (fs_now fs (lg_world l)) e) # es)"
proof -
  let ?v = "audit_record (fs_now fs (lg_world l)) e"
  let ?l = "snd (log_entry fs config e l)"
  have line: "line_at fs e l = json ?v" by (simp add: line_at_def)
  have "\<exists>ms. content (lg_world ?l) = file_text (ms @ [json ?v]) \<and> list_all clean_line (ms @ [json ?v])"
  proof (cases "lg_writesSincePrune l + 1 < prune_interval")
    case True
    then show ?thesis
      using log_entry_reliable [OF fs config assms(5,4) refl, of e] assms(4)
      by (auto simp: line audit_record_line)
  next
    case False
    let ?k = "length (ls @ [json ?v]) - nat (ac_maxEntries config)"
    have "?k \<le> length ls" using config(2) by simp
    then have "drop ?k (ls @ [json ?v]) = drop ?k ls @ [json ?v]" by simp
    moreover have "list_all clean_line (drop ?k ls)" using assms(4) by (rule list_all_take_drop)
    ultimately show ?thesis
      using False log_entry_reliable [OF fs config assms(5,4) refl, of e]
      by (auto simp: line audit_record_line intro!: exI [of _ "drop ?k ls"] simp del: drop_append)
  qed
  then obtain ms where ms: "content (lg_world ?l) = file_text (ms @ [json ?v])"
    "list_all clean_line (ms @ [json ?v])" by blast
  obtain w where "fs_read fs (lg_world ?l) = (Inr (file_text (ms @ [json ?v])), w)"
    using fs ms(1) unfolding reliable_def by (metis prod.collapse)
  then show ?thesis
    using newest_first [OF ms(2) audit_record_ok [OF assms(6)] json_norm_record] config(1)
    by (simp add: read_entries_def run_simps jsonl_audit_def)
qed

end
