(* ===== verification/SidecarClient.thy ===== *)
theory SidecarClient
  imports Json ConnectionManager
begin

text \<open>
  The client of the sidecar process (\<open>src/sidecar-client.ts\<close>): the table of pending
  requests under responses, time-outs and crashes in any order, and the translation between
  the wire format and the types of the program. A response is taken to have the types that
  the client casts it to; where it may be \<open>null\<close> or missing the defaults of the code apply.
\<close>

section \<open>The pending requests\<close>

datatype reply = Resolved jsval | Rejected error

text \<open>
  The fields of the client, the generations of operating-system processes it has started
  and that still run, what was written to the sidecar, what became of each request, and how
  often the crash handler was called.
\<close>

record client =
  sc_process :: "nat option"
  sc_requestId :: nat
  sc_stopping :: bool
  sc_onCrash :: bool
  sc_pending :: "nat \<rightharpoonup> string \<times> int"     \<comment> \<open>method and time-out\<close>
  sc_generation :: nat
  sc_live :: "nat set"
  sc_written :: "string list"
  sc_settled :: "(nat \<times> reply) list"
  sc_crashes :: nat

definition new_client :: client where
  "new_client =
     \<lparr>sc_process = None, sc_requestId = 0, sc_stopping = False, sc_onCrash = False,
      sc_pending = Map.empty, sc_generation = 0, sc_live = {}, sc_written = [], sc_settled = [],
      sc_crashes = 0\<rparr>"

definition set_crash_handler :: "client \<Rightarrow> client" where
  "set_crash_handler c = c\<lparr>sc_onCrash := True\<rparr>"

definition start_sidecar :: "client \<Rightarrow> client" where
  "start_sidecar c =
     c\<lparr>sc_stopping := False, sc_process := Some (sc_generation c), sc_generation := sc_generation c + 1,
       sc_live := insert (sc_generation c) (sc_live c)\<rparr>"

definition stop_sidecar :: "client \<Rightarrow> client" where
  "stop_sidecar c = c\<lparr>sc_stopping := True, sc_process := None\<rparr>"

definition ensure_running :: "client \<Rightarrow> client" where
  "ensure_running c = (if sc_process c \<noteq> None then c else start_sidecar c)"

definition sidecar_exited :: error where
  "sidecar_exited = OmnibaseError ''Sidecar process exited'' ''SIDECAR_CRASH'' None"

definition sidecar_not_running :: error where
  "sidecar_not_running = OmnibaseError ''Sidecar not running'' ''SIDECAR_NOT_RUNNING'' None"

definition sidecar_timeout :: "string \<Rightarrow> int \<Rightarrow> error" where
  "sidecar_timeout meth timeoutMs =
     OmnibaseError (''Sidecar request timed out after '' @ int_str timeoutMs @ ''ms (method: '' @ meth @ '')'')
       ''SIDECAR_TIMEOUT'' None"

text \<open>The \<open>exit\<close> event of the process of one generation: the handler does not ask which.\<close>

definition on_exit :: "nat \<Rightarrow> nat list \<Rightarrow> client \<Rightarrow> client" where
  "on_exit g ids c =
     c\<lparr>sc_live := sc_live c - {g},
       sc_settled := sc_settled c @ map (\<lambda>i. (i, Rejected sidecar_exited)) ids,
       sc_pending := Map.empty, sc_process := None,
       sc_crashes := (if \<not> sc_stopping c \<and> sc_onCrash c then sc_crashes c + 1 else sc_crashes c)\<rparr>"

definition default_timeout :: int where
  "default_timeout = 120000"

definition request_record :: "nat \<Rightarrow> string \<Rightarrow> jsval \<Rightarrow> jsval" where
  "request_record i meth params =
     JObj [(''jsonrpc'', JStr ''2.0''), (''id'', JNum (int_num (int i))), (''method'', JStr meth),
       (''params'', params)]"

text \<open>\<open>send\<close> after \<open>ensureRunning\<close>: it throws when the process is gone again by then.\<close>

definition send_request :: "string \<Rightarrow> jsval \<Rightarrow> int option \<Rightarrow> client \<Rightarrow> (nat \<times> client) result" where
  "send_request meth params timeout_ms c =
     (if sc_process c = None then Inl sidecar_not_running
      else let i = sc_requestId c + 1; timeoutMs = (case timeout_ms of None \<Rightarrow> default_timeout | Some t \<Rightarrow> t) in
        Inr (i, c\<lparr>sc_requestId := i, sc_pending := (sc_pending c)(i \<mapsto> (meth, timeoutMs)),
                  sc_written := sc_written c @ [json (request_record i meth params) @ [CHR 0x0A]]\<rparr>))"

text \<open>The timer of a request fires: it is cleared when the request settles otherwise.\<close>

definition on_timeout :: "nat \<Rightarrow> client \<Rightarrow> client" where
  "on_timeout i c =
     (case sc_pending c i of
        None \<Rightarrow> c
      | Some (meth, timeoutMs) \<Rightarrow>
          c\<lparr>sc_pending := (sc_pending c)(i := None),
            sc_settled := sc_settled c @ [(i, Rejected (sidecar_timeout meth timeoutMs))]\<rparr>)"

text \<open>\<open>response.error\<close> as an error of the program; a missing message is empty.\<close>

definition text_of :: "jsval \<Rightarrow> string" where
  "text_of v = (case v of JUndef \<Rightarrow> [] | _ \<Rightarrow> js_string v)"

definition response_error :: "jsval \<Rightarrow> error" where
  "response_error e =
     OmnibaseError (text_of (js_prop e ''message'')) (text_of (js_prop e ''code''))
       (case js_prop e ''detail'' of JUndef \<Rightarrow> None | v \<Rightarrow> Some (js_string v))"

text \<open>The pending request that a response names: its identifier must be a number that is in the table.\<close>

definition response_id :: "jsval \<Rightarrow> (nat \<rightharpoonup> 'a) \<Rightarrow> nat option" where
  "response_id response pend =
     (case js_prop response ''id'' of
        JNum (Fin neg m e) \<Rightarrow>
          (let i = m * 10 ^ nat e in
           if \<not> neg \<and> 0 \<le> e \<and> pend i \<noteq> None then Some i else None)
      | _ \<Rightarrow> None)"

text \<open>
  A line from the sidecar. \<open>None\<close>: the line is the JSON value \<open>null\<close>, and reading its
  \<open>id\<close> throws outside of any handler.
\<close>

definition handle_response :: "string \<Rightarrow> client \<Rightarrow> client option" where
  "handle_response line c =
     (case json_parse line of
        None \<Rightarrow> Some c
      | Some JNull \<Rightarrow> None
      | Some response \<Rightarrow>
          (case response_id response (sc_pending c) of
             None \<Rightarrow> Some c
           | Some i \<Rightarrow>
               (let err = js_prop response ''error'';
                    out = (if truthy err then Rejected (response_error err)
                           else Resolved (js_prop response ''result'')) in
                Some (c\<lparr>sc_pending := (sc_pending c)(i := None), sc_settled := sc_settled c @ [(i, out)]\<rparr>))))"

section \<open>Events in any order\<close>

inductive client_step :: "client \<Rightarrow> client \<Rightarrow> bool" where
  client_start: "client_step c (start_sidecar c)"
| client_stop: "client_step c (stop_sidecar c)"
| client_ensure: "client_step c (ensure_running c)"
| client_handler: "client_step c (set_crash_handler c)"
| client_send: "send_request meth params t c = Inr (i, c') \<Longrightarrow> client_step c c'"
| client_timeout: "client_step c (on_timeout i c)"
| client_response: "handle_response line c = Some c' \<Longrightarrow> client_step c c'"
| client_exit: "g \<in> sc_live c \<Longrightarrow> distinct ids \<Longrightarrow> set ids = dom (sc_pending c) \<Longrightarrow> client_step c (on_exit g ids c)"

text \<open>Every request ever sent is either pending or settled, and settled only once.\<close>

definition client_inv :: "client \<Rightarrow> bool" where
  "client_inv c \<longleftrightarrow>
     distinct (map fst (sc_settled c)) \<and>
     fst ` set (sc_settled c) \<inter> dom (sc_pending c) = {} \<and>
     fst ` set (sc_settled c) \<union> dom (sc_pending c) = {1..sc_requestId c}"

lemma client_inv_new: "client_inv new_client"
  by (simp add: client_inv_def new_client_def)

lemma settle_inv:
  assumes "client_inv c" "sc_pending c i \<noteq> None"
  shows "client_inv (c\<lparr>sc_pending := (sc_pending c)(i := None), sc_settled := sc_settled c @ [(i, out)]\<rparr>)"
proof -
  have "i \<in> dom (sc_pending c)" using assms(2) by auto
  then show ?thesis using assms(1) by (auto simp: client_inv_def)
qed

lemma send_inv:
  assumes "client_inv c" "send_request meth params t c = Inr (i, c')"
  shows "client_inv c' \<and> i = sc_requestId c + 1 \<and> sc_pending c i = None"
proof -
  have "i = sc_requestId c + 1" and c': "c' = c\<lparr>sc_requestId := i,
      sc_pending := (sc_pending c)(i \<mapsto> (meth, case t of None \<Rightarrow> default_timeout | Some t \<Rightarrow> t)),
      sc_written := sc_written c @ [json (request_record i meth params) @ [CHR 0x0A]]\<rparr>"
    using assms(2) by (auto simp: send_request_def Let_def split: if_splits)
  moreover have "i \<notin> fst ` set (sc_settled c) \<union> dom (sc_pending c)"
    using assms(1) calculation(1) by (auto simp: client_inv_def)
  moreover have "{1..sc_requestId c + 1} = insert (sc_requestId c + 1) {1..sc_requestId c}" by auto
  ultimately show ?thesis using assms(1) by (auto simp: client_inv_def)
qed

lemma handle_response_inv:
  assumes "client_inv c" "handle_response line c = Some c'"
  shows "client_inv c'"
proof (cases "c' = c")
  case False
  then obtain i out where "sc_pending c i \<noteq> None"
    "c' = c\<lparr>sc_pending := (sc_pending c)(i := None), sc_settled := sc_settled c @ [(i, out)]\<rparr>"
    using assms(2)
    by (fastforce simp: handle_response_def response_id_def Let_def
        split: option.splits jsval.splits jsnum.splits if_splits)
  then show ?thesis using settle_inv assms(1) by blast
qed (use assms(1) in simp)

lemma exit_inv:
  assumes "client_inv c" "distinct ids" "set ids = dom (sc_pending c)"
  shows "client_inv (on_exit g ids c)"
proof -
  have "map fst (map (\<lambda>i. (i, Rejected sidecar_exited)) ids) = ids" by (simp add: comp_def)
  then have "map fst (sc_settled (on_exit g ids c)) = map fst (sc_settled c) @ ids"
    by (simp add: on_exit_def del: map_map)
  then have settled: "distinct (map fst (sc_settled (on_exit g ids c)))"
    "fst ` set (sc_settled (on_exit g ids c)) = fst ` set (sc_settled c) \<union> set ids"
    using assms by (simp_all add: client_inv_def flip: set_map)
  have "sc_pending (on_exit g ids c) = Map.empty" "sc_requestId (on_exit g ids c) = sc_requestId c"
    by (simp_all add: on_exit_def)
  then show ?thesis using assms settled by (simp add: client_inv_def)
qed

lemma process_inv:
  "client_inv (start_sidecar c) = client_inv c" "client_inv (stop_sidecar c) = client_inv c"
  "client_inv (ensure_running c) = client_inv c" "client_inv (set_crash_handler c) = client_inv c"
  by (simp_all add: client_inv_def start_sidecar_def stop_sidecar_def ensure_running_def set_crash_handler_def)

lemma timeout_inv: "client_inv c \<Longrightarrow> client_inv (on_timeout i c)"
  using settle_inv [of c i] by (auto simp: on_timeout_def split: option.split)

lemma client_step_inv: "client_step c c' \<Longrightarrow> client_inv c \<Longrightarrow> client_inv c'"
proof (induction rule: client_step.induct)
  case client_send
  then show ?case using send_inv by blast
next
  case client_response
  then show ?case using handle_response_inv by blast
qed (simp_all add: process_inv timeout_inv exit_inv)

interpretation sc: invariant_machine "\<lambda>c. c = new_client" client_step client_inv
  by unfold_locales (use client_inv_new client_step_inv in blast)+

text \<open>What became of a request never changes.\<close>

lemma client_step_settled:
  assumes "client_step c c'"
  shows "\<exists>new. sc_settled c' = sc_settled c @ new"
  using assms
proof (induction rule: client_step.induct)
  case (client_response line c c')
  then show ?case
    by (auto simp: handle_response_def Let_def split: option.splits jsval.splits)
qed (auto simp: start_sidecar_def stop_sidecar_def ensure_running_def set_crash_handler_def send_request_def
    on_timeout_def on_exit_def Let_def split: option.splits if_splits)

lemma client_steps_settled: "client_step\<^sup>*\<^sup>* c c' \<Longrightarrow> \<exists>new. sc_settled c' = sc_settled c @ new"
proof (induction rule: rtranclp_induct)
  case base
  then show ?case by simp
next
  case (step c' c'')
  then show ?case using client_step_settled by (metis append.assoc)
qed

text \<open>A response settles the request that it names, and no other.\<close>

lemma response_settles:
  assumes "sc_pending c i = Some req" and "json_ok v"
  defines "response \<equiv> JObj [(''id'', JNum (int_num (int i))), (''result'', v)]"
  assumes "i \<noteq> 0"
  shows "handle_response (json response) c = Some (c\<lparr>sc_pending := (sc_pending c)(i := None),
     sc_settled := sc_settled c @ [(i, Resolved (if v = JUndef then JUndef else json_norm v))]\<rparr>)"
proof -
  obtain m e where m: "strip10 i 0 = (m, e)" by fastforce
  then have e: "0 \<le> e" "i = m * 10 ^ nat e" using strip10_value by fastforce+
  have "int_num (int i) = mk_num False i 0" by (simp add: int_num_def)
  then have num: "int_num (int i) = Fin False m e" using assms(4) m by (simp add: mk_num_def)
  have canon: "canonical (Fin False m e)" using canonical_int_num [of "int i"] num by simp
  have "json_ok response" using assms(2) canon by (simp add: response_def num)
  from json_round_trip [OF this]
  have "json_parse (json response) = Some (json_norm response)" .
  moreover have "json_norm response = JObj ((''id'', JNum (Fin False m e)) #
      (if v = JUndef then [] else [(''result'', json_norm v)]))"
    by (simp add: response_def num)
  ultimately show ?thesis
    using assms(1) e by (simp add: handle_response_def response_id_def)
qed

section \<open>The methods\<close>

text \<open>\<open>x ?? null\<close> and the readers of a response.\<close>

definition opt_json :: "('a \<Rightarrow> jsval) \<Rightarrow> 'a option \<Rightarrow> jsval" where
  "opt_json f x = (case x of None \<Rightarrow> JNull | Some a \<Rightarrow> f a)"

abbreviation json_list :: "string list \<Rightarrow> jsval" where
  "json_list xs \<equiv> JArr (map JStr xs)"

abbreviation json_num :: "int \<Rightarrow> jsval" where
  "json_num i \<equiv> JNum (int_num i)"

definition missing :: "jsval \<Rightarrow> bool" where
  "missing v \<longleftrightarrow> v = JUndef \<or> v = JNull"

definition as_strings :: "jsval \<Rightarrow> string list" where
  "as_strings v = (case v of JArr vs \<Rightarrow> map js_string vs | _ \<Rightarrow> [])"

definition as_list :: "jsval \<Rightarrow> jsval list" where
  "as_list v = (case v of JArr vs \<Rightarrow> vs | _ \<Rightarrow> [])"

definition as_int :: "int \<Rightarrow> jsval \<Rightarrow> int" where
  "as_int d v =
     (case v of JNum (Fin neg m e) \<Rightarrow> (if neg then -1 else 1) * int (m * 10 ^ nat e) | _ \<Rightarrow> d)"

definition as_int_opt :: "jsval \<Rightarrow> int option" where
  "as_int_opt v = (if missing v then None else Some (as_int 0 v))"

definition as_bool :: "jsval \<Rightarrow> bool" where
  "as_bool v = (v = JBool True)"

definition as_text :: "jsval \<Rightarrow> string" where
  "as_text v = (if missing v then [] else js_string v)"

definition as_text_opt :: "jsval \<Rightarrow> string option" where
  "as_text_opt v = (if missing v then None else Some (js_string v))"

definition connect_params :: "string \<Rightarrow> string \<Rightarrow> jsval" where
  "connect_params i dsn = JObj [(''id'', JStr i), (''dsn'', JStr dsn)]"

definition driver_of :: "jsval \<Rightarrow> string" where
  "driver_of result = as_text (js_prop result ''driver'')"

definition execute_params :: "string \<Rightarrow> string \<Rightarrow> jsval list option \<Rightarrow> execute_options \<Rightarrow> jsval" where
  "execute_params i query params options = JObj
     [(''id'', JStr i), (''query'', JStr query), (''params'', opt_json JArr params),
      (''max_rows'', json_num (case eo_maxRows options of None \<Rightarrow> 500 | Some n \<Rightarrow> n)),
      (''timeout_ms'', json_num (case eo_timeoutMs options of None \<Rightarrow> 30000 | Some n \<Rightarrow> n))]"

definition query_result_of :: "jsval \<Rightarrow> query_result" where
  "query_result_of result =
     \<lparr>qr_columns = as_strings (js_prop result ''columns''),
      qr_rows = map as_list (as_list (js_prop result ''rows'')),
      qr_rowCount = as_int 0 (js_prop result ''row_count''),
      qr_hasMore = as_bool (js_prop result ''has_more''),
      qr_affectedRows = as_int_opt (js_prop result ''affected_rows''),
      qr_lastInsertId = as_int_opt (js_prop result ''last_insert_id'')\<rparr>"

definition schema_params :: "string \<Rightarrow> backend_filter option \<Rightarrow> jsval" where
  "schema_params i filt = JObj
     [(''id'', JStr i),
      (''schemas'', opt_json json_list (Option.bind filt bf_schemas)),
      (''tables'', opt_json json_list (Option.bind filt bf_tables)),
      (''exact_counts'', opt_json JBool (Option.bind filt bf_exactCounts))]"

definition column_of :: "jsval \<Rightarrow> column_info" where
  "column_of c =
     \<lparr>col_name = as_text (js_prop c ''name''), col_type = as_text (js_prop c ''type''),
      col_nullable = as_bool (js_prop c ''nullable''),
      col_defaultValue = as_text_opt (js_prop c ''default_value''),
      col_isPrimaryKey = as_bool (js_prop c ''is_primary_key''),
      col_comment = as_text_opt (js_prop c ''comment'')\<rparr>"

definition wire_index :: "jsval \<Rightarrow> index_info" where
  "wire_index i =
     \<lparr>ix_name = as_text (js_prop i ''name''), ix_columns = as_strings (js_prop i ''columns''),
      ix_unique = as_bool (js_prop i ''unique''), ix_type = as_text (js_prop i ''type''),
      ix_filter = as_text_opt (js_prop i ''filter'')\<rparr>"

definition foreign_key_of :: "jsval \<Rightarrow> foreign_key_info" where
  "foreign_key_of fk =
     \<lparr>fk_column = as_text (js_prop fk ''column''),
      fk_referencesTable = as_text (js_prop fk ''references_table''),
      fk_referencesColumn = as_text (js_prop fk ''references_column'')\<rparr>"

definition table_of :: "jsval \<Rightarrow> table_info" where
  "table_of t =
     \<lparr>tb_name = as_text (js_prop t ''name''), tb_schema = as_text (js_prop t ''schema''),
      tb_columns = map column_of (as_list (js_prop t ''columns'')),
      tb_primaryKey = as_strings (js_prop t ''primary_key''),
      tb_indexes = map wire_index (as_list (js_prop t ''indexes'')),
      tb_foreignKeys = map foreign_key_of (as_list (js_prop t ''foreign_keys'')),
      tb_rowCountEstimate = as_int 0 (js_prop t ''row_count_estimate''),
      tb_exactCount = as_bool (js_prop t ''exact_count''),
      tb_comment = as_text_opt (js_prop t ''comment'')\<rparr>"

definition schema_of :: "jsval \<Rightarrow> schema_info" where
  "schema_of result = \<lparr>si_tables = map table_of (as_list (js_prop result ''tables''))\<rparr>"

definition query_params :: "string \<Rightarrow> string \<Rightarrow> jsval" where
  "query_params i query = JObj [(''id'', JStr i), (''query'', JStr query)]"

definition explain_params :: "string \<Rightarrow> string \<Rightarrow> bool option \<Rightarrow> jsval" where
  "explain_params i query analyze =
     JObj [(''id'', JStr i), (''query'', JStr query),
       (''analyze'', JBool (case analyze of None \<Rightarrow> False | Some b \<Rightarrow> b))]"

definition explain_result_of :: "jsval \<Rightarrow> query_result" where
  "explain_result_of result = (query_result_of result)\<lparr>qr_affectedRows := None, qr_lastInsertId := None\<rparr>"

definition id_params :: "string \<Rightarrow> jsval" where
  "id_params i = JObj [(''id'', JStr i)]"

definition validity_of :: "jsval \<Rightarrow> bool \<times> string option" where
  "validity_of result = (as_bool (js_prop result ''valid''), as_text_opt (js_prop result ''error''))"

text \<open>
  The backend that the client is, over a remote call \<open>rpc\<close> (\<open>send\<close> and the wait for its
  promise). Reading a property of a result that is \<open>null\<close> or missing throws.
\<close>

definition read_result :: "(jsval \<Rightarrow> 'a) \<Rightarrow> 'w \<Rightarrow> ('w, jsval) effect \<Rightarrow> 'a result \<times> 'w" where
  "read_result f w call =
     (case call w of
        (Inl e, w') \<Rightarrow> (Inl e, w')
      | (Inr v, w') \<Rightarrow> (if missing v then Inl (JsError ''Cannot read properties'') else Inr (f v), w'))"

definition sidecar_backend ::
    "(string \<Rightarrow> jsval \<Rightarrow> int option \<Rightarrow> ('w, jsval) effect) \<Rightarrow> ('w \<Rightarrow> int) \<Rightarrow> 'w backend" where
  "sidecar_backend rpc clock =
     \<lparr>bk_connect = (\<lambda>i dsn w. read_result driver_of w (rpc ''connect'' (connect_params i dsn) None)),
      bk_execute = (\<lambda>i q ps opts w. read_result query_result_of w
        (rpc ''execute'' (execute_params i q ps opts)
          (Some (case eo_timeoutMs opts of None \<Rightarrow> 30000 | Some n \<Rightarrow> n)))),
      bk_getSchema = (\<lambda>i f w. read_result schema_of w (rpc ''schema'' (schema_params i f) None)),
      bk_explainQuery = (\<lambda>i q a w. read_result explain_result_of w (rpc ''explain'' (explain_params i q a) None)),
      bk_validateQuery = (\<lambda>i q w. read_result validity_of w (rpc ''validate'' (query_params i q) None)),
      bk_ping = (\<lambda>i w. apfst (map_sum id (\<lambda>_. ())) (rpc ''ping'' (id_params i) None w)),
      bk_disconnect = (\<lambda>i w. apfst (map_sum id (\<lambda>_. ())) (rpc ''disconnect'' (id_params i) None w)),
      bk_clock = clock\<rparr>"

text \<open>A query result survives the wire.\<close>

definition wire_result :: "query_result \<Rightarrow> jsval" where
  "wire_result r = JObj
     ([(''columns'', json_list (qr_columns r)), (''rows'', JArr (map JArr (qr_rows r))),
       (''row_count'', json_num (qr_rowCount r)), (''has_more'', JBool (qr_hasMore r))] @
      (case qr_affectedRows r of None \<Rightarrow> [] | Some n \<Rightarrow> [(''affected_rows'', json_num n)]) @
      (case qr_lastInsertId r of None \<Rightarrow> [] | Some n \<Rightarrow> [(''last_insert_id'', json_num n)]))"

lemma as_int_num: "as_int d (json_num i) = i"
proof (cases "i = 0")
  case True
  then show ?thesis by (simp add: as_int_def int_num_def mk_num_def)
next
  case False
  obtain m e where m: "strip10 (nat \<bar>i\<bar>) 0 = (m, e)" by fastforce
  then have e: "0 \<le> e" "nat \<bar>i\<bar> = m * 10 ^ nat e" using strip10_value by fastforce+
  then have "int (m * 10 ^ nat e) = \<bar>i\<bar>" by (metis abs_ge_zero int_nat_eq)
  then show ?thesis using False m by (simp add: as_int_def int_num_def mk_num_def)
qed

lemma query_result_wire: "query_result_of (wire_result r) = r"
  by (cases r) (simp add: query_result_of_def wire_result_def as_strings_def as_list_def as_bool_def
      as_int_num as_int_opt_def missing_def comp_def split: option.split)

end
