(* ===== verification/Samples.thy ===== *)
theory Samples
  imports Server TransactionLock AuditTrail SidecarClient
begin

text \<open>
  A small concrete configuration, backend and parser, on which the witnesses of the
  properties run: one read-only connection, a single-statement tool, a steps tool and a
  pipeline that uses the first; a backend that accepts everything and whose world is the
  list of the statements it received; a parser that understands nothing, so that the
  keyword fallback decides.
\<close>

definition no_parser :: sql_parser where
  "no_parser sql = None"

definition sample_result :: query_result where
  "sample_result =
     \<lparr>qr_columns = [''n''], qr_rows = [[JNum (int_num 1)], [JStr ''it''], [JNull]], qr_rowCount = 3,
      qr_hasMore = False, qr_affectedRows = None, qr_lastInsertId = None\<rparr>"

text \<open>The first \<open>maxRows\<close> of the ten rows \<open>[0]\<close> to \<open>[9]\<close>.\<close>

definition sample_rows :: "jsval list list" where
  "sample_rows = map (\<lambda>i. [JNum (int_num i)]) [0, 1, 2, 3, 4, 5, 6, 7, 8, 9]"

definition sample_backend :: "string list backend" where
  "sample_backend =
     \<lparr>bk_connect = (\<lambda>i dsn w. (Inr ''sqlite'', w)),
      bk_execute = (\<lambda>i q ps opts w.
        (Inr (sample_result\<lparr>qr_rows := take (nat (or_else (eo_maxRows opts) 0)) sample_rows\<rparr>), w @ [q])),
      bk_getSchema = (\<lambda>i f w. (Inr \<lparr>si_tables = []\<rparr>, w @ [''schema''])),
      bk_explainQuery = (\<lambda>i q a w. (Inr sample_result, w @ [q])),
      bk_validateQuery = (\<lambda>i q w. (Inr (True, None), w)),
      bk_ping = (\<lambda>i w. (Inr (), w)),
      bk_disconnect = (\<lambda>i w. (Inr (), w)),
      bk_clock = (\<lambda>w. int (length w))\<rparr>"

text \<open>The same, but every statement fails.\<close>

definition failing_backend :: "string list backend" where
  "failing_backend =
     sample_backend\<lparr>bk_execute := (\<lambda>i q ps opts w. (Inl (JsError ''database is locked''), w @ [q]))\<rparr>"

definition sample_connection :: connection_config where
  "sample_connection =
     \<lparr>cc_name = ''db'', cc_dsn = ''sqlite:x.db'', cc_permission = ReadOnly, cc_timeout = 30000,
      cc_maxRows = 3, cc_schemaFilter = None, cc_allowAllPragmas = Some False,
      cc_maxValueLength = None, cc_readOnlyTables = None\<rparr>"

definition no_tool :: tool_config where
  "no_tool =
     \<lparr>ct_connection = Some ''db'', ct_description = Some ''sample'', ct_sql = None, ct_steps = None,
      ct_compose = None, ct_permission = None, ct_maxRows = None, ct_timeout = None,
      ct_parameters = None\<rparr>"

definition single_tool :: tool_config where
  "single_tool = no_tool\<lparr>ct_sql := Some ''SELECT 1''\<rparr>"

definition steps_tool :: tool_config where
  "steps_tool = no_tool\<lparr>ct_steps := Some [\<lparr>ts_sql = ''SELECT 1'', ts_return = Some True\<rparr>]\<rparr>"

definition pipe_tool :: tool_config where
  "pipe_tool = no_tool\<lparr>ct_compose := Some
     [\<lparr>cs_tool = Some ''one'', cs_sql = None, cs_args = None, cs_as = ''a''\<rparr>,
      \<lparr>cs_tool = None, cs_sql = Some ''SELECT 1'', cs_args = None, cs_as = ''b''\<rparr>]\<rparr>"

definition sample_config :: omnibase_config where
  "sample_config =
     \<lparr>oc_connections = [(''db'', sample_connection)], oc_def_permission = ReadOnly,
      oc_def_timeout = 30000, oc_def_maxRows = 500,
      oc_tools = Some [(''one'', single_tool), (''twice'', steps_tool), (''pipe'', pipe_tool)],
      oc_audit = None, oc_schemaHints = True\<rparr>"

definition sample_env :: "string list tool_env" where
  "sample_env = \<lparr>te_astify = no_parser, te_backend = sample_backend, te_config = sample_config,
     te_auditLogger = True\<rparr>"

text \<open>Two tools that refer to each other.\<close>

definition loop_tool :: "string \<Rightarrow> tool_config" where
  "loop_tool ref = no_tool\<lparr>ct_compose := Some
     [\<lparr>cs_tool = Some ref, cs_sql = None, cs_args = None, cs_as = ''x''\<rparr>]\<rparr>"

definition loop_config :: omnibase_config where
  "loop_config = sample_config\<lparr>oc_tools := Some [(''f'', loop_tool ''g''), (''g'', loop_tool ''f'')]\<rparr>"

definition sample_params :: "tool_parameter obj" where
  "sample_params = [(''id'', \<lparr>tp_type = PString, tp_description = ''key'', tp_required = Some True,
     tp_default = JUndef, tp_values = None\<rparr>)]"

text \<open>A schema of two tables.\<close>

definition sample_table :: "string \<Rightarrow> string \<Rightarrow> table_info" where
  "sample_table name column =
     \<lparr>tb_name = name, tb_schema = ''main'',
      tb_columns = [\<lparr>col_name = column, col_type = ''int'', col_nullable = False, col_defaultValue = None,
        col_isPrimaryKey = True, col_comment = None\<rparr>],
      tb_primaryKey = [column], tb_indexes = [], tb_foreignKeys = [], tb_rowCountEstimate = 0,
      tb_exactCount = False, tb_comment = None\<rparr>"

definition sample_tables :: "table_info list" where
  "sample_tables = [sample_table ''orders'' ''users_id'', sample_table ''users'' ''id'']"

section \<open>Facts about the samples\<close>

lemma sample_records: "records sample_backend id" "records failing_backend id"
  by (simp_all add: records_def sample_backend_def failing_backend_def)

lemma sample_connection_simps:
  "cc_name sample_connection = ''db''" "cc_dsn sample_connection = ''sqlite:x.db''"
  "cc_permission sample_connection = ReadOnly" "cc_timeout sample_connection = 30000"
  "cc_maxRows sample_connection = 3" "cc_allowAllPragmas sample_connection = Some False"
  "cc_maxValueLength sample_connection = None" "cc_readOnlyTables sample_connection = None"
  "cc_schemaFilter sample_connection = None"
  by (simp_all add: sample_connection_def)

lemma sample_security: "check_sql_security ''SELECT 1'' (Some False) = Inr ()"
  by code_simp

lemma sample_category: "classify_query no_parser ''SELECT 1'' = Read"
  by code_simp

lemma sample_not_multi: "is_multi_statement no_parser ''SELECT 1'' = False"
  by code_simp

lemma sample_substitution: "substitute_parameters ''SELECT 1'' args [] = Inr (''SELECT 1'', [])"
proof -
  have "rx_tokens placeholder_rx [] ''SELECT 1'' = map Chr ''SELECT 1''" by code_simp
  then show ?thesis by (simp add: substitute_parameters_def)
qed

lemma sample_trim: "trim ''SELECT 1'' = ''SELECT 1''"
  by code_simp

lemma sample_lookup: "get_connection sample_config (Some ''db'') = Inr sample_connection"
  by (simp add: get_connection_def sample_config_def)

lemma sample_read: "Read \<in> permission_hierarchy p"
  by (cases p) simp_all

lemma sample_execute_guards: "execute_guards no_parser sample_connection ''SELECT 1'' = Inr Read"
  unfolding execute_guards_Inr
  using sample_read [of "cc_permission sample_connection"]
  by (simp add: sample_trim sample_not_multi sample_category sample_security
      sample_connection_def check_read_only_tables_def)

lemma sample_steps_guards:
  "steps_guards sample_env steps_tool [] = Inr (sample_connection, [(''SELECT 1'', [])])"
  using sample_security sample_read
  by (simp add: steps_guards_def sample_env_def steps_tool_def no_tool_def sample_lookup
      sample_substitution sample_category sample_connection_def Let_def enforce_permission_def)

lemma sample_tools_ok: "validate_custom_tools sample_config = Some (Inr ())"
  by code_simp

lemma loop_rejected:
  "validate_custom_tools loop_config = Some (Inl (cycle_error [''f'', ''g'', ''f'']))"
  by code_simp

section \<open>A log file in memory, a client and a graph\<close>

text \<open>The file is a string; the time stands still.\<close>

definition memory_fs :: "string audit_fs" where
  "memory_fs =
     \<lparr>fs_mkdir = (\<lambda>w. (Inr (), w)), fs_append = (\<lambda>t w. (Inr (), w @ t)), fs_read = (\<lambda>w. (Inr w, w)),
      fs_write = (\<lambda>t w. (Inr (), t)), fs_now = (\<lambda>w. ''2025-01-01'')\<rparr>"

definition sample_audit :: audit_config where
  "sample_audit = \<lparr>ac_enabled = True, ac_path = ''audit.log'', ac_format = Jsonl, ac_maxEntries = 10\<rparr>"

definition sample_entry :: audit_entry where
  "sample_entry = \<lparr>ae_tool = ''execute_sql'', ae_connection = ''db'', ae_sql = ''SELECT 1'', ae_params = [JNull],
     ae_durationMs = 3, ae_rows = 1, ae_status = AuditOk, ae_error = None\<rparr>"

definition fresh_logger :: "string logger" where
  "fresh_logger = \<lparr>lg_writesSincePrune = 0, lg_world = []\<rparr>"

lemma memory_reliable: "reliable memory_fs id"
  by (simp add: reliable_def memory_fs_def)

lemma sample_audit_simps: "jsonl_audit sample_audit" "0 < ac_maxEntries sample_audit"
  by (simp_all add: jsonl_audit_def sample_audit_def)

lemma fresh_logger_simps: "id (lg_world fresh_logger) = []" "lg_writesSincePrune fresh_logger = 0"
  by (simp_all add: fresh_logger_def)

text \<open>A client that has sent one request.\<close>

definition waiting_client :: client where
  "waiting_client = (case send_request ''ping'' (id_params ''db'') None (start_sidecar new_client) of
     Inr (i, c) \<Rightarrow> c | Inl e \<Rightarrow> new_client)"

lemma waiting_client_sent:
  "send_request ''ping'' (id_params ''db'') None (start_sidecar new_client) = Inr (1, waiting_client)"
  by (simp add: waiting_client_def send_request_def start_sidecar_def new_client_def Let_def)

lemma waiting_client_reached: "client_step\<^sup>*\<^sup>* new_client waiting_client"
  by (rule converse_rtranclp_into_rtranclp, rule client_start, rule r_into_rtranclp,
      rule client_send, rule waiting_client_sent)

lemma waiting_client_pending: "sc_pending waiting_client 1 = Some (''ping'', 120000)"
  by (simp add: waiting_client_def send_request_def start_sidecar_def new_client_def Let_def default_timeout_def)

text \<open>A live connection whose schema is known.\<close>

definition ready_sys :: "string list sys" where
  "ready_sys = (initial_sys [])\<lparr>cm_connectedIds := {''db''}, cm_driverMap := [''db'' \<mapsto> ''sqlite''],
     cm_schemaCache := [''db'' \<mapsto> \<lparr>si_tables = sample_tables\<rparr>]\<rparr>"

lemma ready_sys_ready: "schema_ready sample_connection \<lparr>si_tables = sample_tables\<rparr> ready_sys"
  by (simp add: schema_ready_def ready_sys_def sample_connection_def)

text \<open>A parser that reads one query over the table \<open>users\<close>.\<close>

definition users_ast :: jsval where
  "users_ast = JObj [(''type'', JStr ''select''),
     (''columns'', JArr [JObj [(''type'', JStr ''column_ref''), (''column'', JStr ''ID'')]]),
     (''from'', JArr [JObj [(''table'', JStr ''Users'')]])]"

definition users_parser :: sql_parser where
  "users_parser sql = Some users_ast"

end
