(* ===== verification/ConfigWatcher.thy ===== *)
theory ConfigWatcher
  imports Server
begin

text \<open>
  Reloading of the configuration (\<open>src/config-watcher.ts\<close> and its callbacks in
  \<open>src/index.ts\<close>): file events are collected for half a second, then the file is loaded and
  its custom tools validated; a valid configuration replaces the active one, an invalid one
  is reported and the active one is kept. What the file loads to is a parameter of the step.
\<close>

record watcher =
  cw_watching :: bool
  cw_timer :: bool                       \<comment> \<open>a debounce timer is running\<close>
  cw_active :: omnibase_config           \<comment> \<open>\<open>activeConfig\<close>\<close>
  cw_tools :: "registration obj"         \<comment> \<open>the custom tools that are registered\<close>
  cw_errors :: "error list"

definition new_watcher :: "omnibase_config \<Rightarrow> watcher" where
  "new_watcher config = \<lparr>cw_watching = False, cw_timer = False, cw_active = config,
     cw_tools = register_custom_tools config, cw_errors = []\<rparr>"

definition start_watching :: "watcher \<Rightarrow> watcher" where
  "start_watching w = w\<lparr>cw_watching := True\<rparr>"

definition stop_watching :: "watcher \<Rightarrow> watcher" where
  "stop_watching w = w\<lparr>cw_timer := False, cw_watching := False\<rparr>"

text \<open>A file event clears the timer and sets a new one.\<close>

definition file_event :: "watcher \<Rightarrow> watcher" where
  "file_event w = w\<lparr>cw_timer := True\<rparr>"

definition on_change :: "omnibase_config \<Rightarrow> watcher \<Rightarrow> watcher" where
  "on_change newConfig w =
     w\<lparr>cw_active := newConfig, cw_tools := reload_custom_tools newConfig (obj_keys (cw_tools w)) (cw_tools w)\<rparr>"

definition on_error :: "error \<Rightarrow> watcher \<Rightarrow> watcher" where
  "on_error err w = w\<lparr>cw_errors := cw_errors w @ [err]\<rparr>"

text \<open>\<open>validate_custom_tools\<close> always has a result (\<open>handle_change_cases\<close>).\<close>

definition handle_change :: "omnibase_config result \<Rightarrow> watcher \<Rightarrow> watcher" where
  "handle_change loaded w =
     (case loaded of
        Inl err \<Rightarrow> on_error err w
      | Inr config \<Rightarrow>
          (case validate_custom_tools config of
             Some (Inr _) \<Rightarrow> on_change config w
           | Some (Inl err) \<Rightarrow> on_error err w
           | None \<Rightarrow> w))"

definition timer_fires :: "omnibase_config result \<Rightarrow> watcher \<Rightarrow> watcher" where
  "timer_fires loaded w = handle_change loaded (w\<lparr>cw_timer := False\<rparr>)"

inductive watch_step :: "watcher \<Rightarrow> watcher \<Rightarrow> bool" where
  watch_start: "watch_step w (start_watching w)"
| watch_stop: "watch_step w (stop_watching w)"
| watch_event: "cw_watching w \<Longrightarrow> watch_step w (file_event w)"
| watch_fire: "cw_timer w \<Longrightarrow> watch_step w (timer_fires loaded w)"

inductive_cases watch_stepE: "watch_step w w'"

section \<open>The active configuration\<close>

definition valid_config :: "omnibase_config \<Rightarrow> bool" where
  "valid_config config \<longleftrightarrow> validate_custom_tools config = Some (Inr ())"

text \<open>
  No timer outlives the watcher, what is active has been validated, and its custom tools are
  the registered ones.
\<close>

definition watch_inv :: "watcher \<Rightarrow> bool" where
  "watch_inv w \<longleftrightarrow> valid_config (cw_active w) \<and> (cw_timer w \<longrightarrow> cw_watching w) \<and>
     cw_tools w = register_custom_tools (cw_active w)"

lemma handle_change_cases:
  "handle_change (Inr config) w =
     (if valid_config config then on_change config w
      else case validate_custom_tools config of Some (Inl err) \<Rightarrow> on_error err w | _ \<Rightarrow> w)"
  by (auto simp: handle_change_def valid_config_def split: option.split sum.split)

lemma handle_change_keeps: "watch_inv w \<Longrightarrow> watch_inv (handle_change loaded w)"
  by (cases loaded) (auto simp: handle_change_def watch_inv_def on_change_def on_error_def valid_config_def reload_replaces
      split: option.split sum.split)

lemma watch_step_inv: "watch_step w w' \<Longrightarrow> watch_inv w \<Longrightarrow> watch_inv w'"
proof (induction rule: watch_step.induct)
  case (watch_fire w loaded)
  then have "watch_inv (w\<lparr>cw_timer := False\<rparr>)" by (simp add: watch_inv_def)
  then show ?case unfolding timer_fires_def by (rule handle_change_keeps)
qed (simp_all add: watch_inv_def start_watching_def stop_watching_def file_event_def)

interpretation cw: invariant_machine "\<lambda>w. \<exists>config. valid_config config \<and> w = new_watcher config" watch_step watch_inv
proof
  show "watch_inv w" if "\<exists>config. valid_config config \<and> w = new_watcher config" for w
    using that by (auto simp: watch_inv_def new_watcher_def)
qed (rule watch_step_inv)

text \<open>A stopped watcher changes nothing until it is started again.\<close>

lemma stopped_step:
  assumes "watch_step w w'" "\<not> cw_watching w" "\<not> cw_timer w"
  shows "w' = w \<or> w' = start_watching w"
  using assms by (cases rule: watch_step.cases) (auto simp: stop_watching_def)

lemma rejected_keeps_active:
  "\<not> valid_config config \<Longrightarrow> cw_active (timer_fires (Inr config) w) = cw_active w"
  "cw_active (timer_fires (Inl err) w) = cw_active w"
  by (auto simp: timer_fires_def handle_change_def on_error_def valid_config_def split: option.split sum.split)

section \<open>Reloading while serving\<close>

text \<open>
  The custom tools run under the active configuration; the built-in tools keep the one that
  was loaded at the start. Requests, events of the connection manager, and reloads come in
  any order.
\<close>

definition serving_config :: "omnibase_config \<Rightarrow> watcher \<Rightarrow> request \<Rightarrow> omnibase_config" where
  "serving_config initial w req = (case req of CustomTool name args \<Rightarrow> cw_active w | _ \<Rightarrow> initial)"

inductive live_step ::
    "'w backend \<Rightarrow> omnibase_config \<Rightarrow> watcher \<times> 'w sys \<Rightarrow> watcher \<times> 'w sys \<Rightarrow> bool" for bk initial where
  live_watch: "watch_step w w' \<Longrightarrow> live_step bk initial (w, s) (w', s)"
| live_manager: "cm_step bk s t \<Longrightarrow> live_step bk initial (w, s) (w, t)"
| live_request: "te_backend env = bk \<Longrightarrow> te_config env = serving_config initial w req \<Longrightarrow>
    live_step bk initial (w, s) (w, snd (respond n env req s))"

definition live_inv :: "watcher \<times> 'w sys \<Rightarrow> bool" where
  "live_inv = (\<lambda>(w, s). watch_inv w \<and> cm_inv s)"

lemma live_step_inv: "live_step bk initial p q \<Longrightarrow> live_inv p \<Longrightarrow> live_inv q"
proof (induction rule: live_step.induct)
  case (live_watch w w' s)
  then show ?case using watch_step_inv by (auto simp: live_inv_def)
next
  case (live_manager s t w)
  then show ?case using cm_step_inv by (auto simp: live_inv_def)
next
  case (live_request env w req s n)
  have "cm_inv (snd (respond n env req s))" using live_request(3) by (intro keepsD [OF keeps_respond]) (simp add: live_inv_def)
  then show ?case using live_request(3) by (simp add: live_inv_def)
qed

interpretation lv: invariant_machine
  "\<lambda>(w, s). \<exists>config v. valid_config config \<and> w = start_watching (new_watcher config) \<and>
     s = snd (set_on_schema_fetched (initial_sys v))" "live_step bk initial" live_inv
  for bk initial
proof
  have start: "cm_inv (snd (set_on_schema_fetched (initial_sys v)))" for v :: 'a
    by (rule cm_step_inv [OF step_callback]) (rule cm.inv_start, blast)
  show "live_inv p" if "case p of (w, s) \<Rightarrow>
      \<exists>config v. valid_config config \<and> w = start_watching (new_watcher config) \<and>
        s = snd (set_on_schema_fetched (initial_sys v))" for p :: "watcher \<times> 'a sys"
    using that start by (auto simp: live_inv_def watch_inv_def new_watcher_def start_watching_def)
qed (erule (1) live_step_inv [rotated])

lemma live_request_answered:
  assumes "live_inv (w, s)" and "te_config env = serving_config initial w req"
    and "length (config_tools (cw_active w)) + 2 \<le> n" and "cm_transactionLocks s = {}"
  shows "\<exists>r s'. respond n env req s = (Ret r, s')"
proof (cases "\<exists>name args. req = CustomTool name args")
  case True
  then have "te_config env = cw_active w" using assms(2) by (auto simp: serving_config_def)
  then show ?thesis
    using True assms custom_answers [of env n s] by (auto simp: live_inv_def watch_inv_def valid_config_def)
qed (blast intro: builtin_answers)

end
