(* ===== verification/SchemaHints.thy ===== *)
theory SchemaHints
  imports Domain "HOL-Library.Char_ord" "HOL-Library.List_Lexorder"
begin

text \<open>
  The hints of known tables in the descriptions of tools (\<open>src/schema-hint-manager.ts\<close>).
  The order of \<open>localeCompare\<close> depends on the platform: it is given by a parameter
  \<open>collate\<close> that maps a name to its collation key; the sort is stable. A tool handle is the
  description that it was last updated to.
\<close>

section \<open>The text of a hint\<close>

definition max_hint_length :: nat where
  "max_hint_length = 800"

definition max_cols_per_table :: nat where
  "max_cols_per_table = 12"

definition max_tables :: nat where
  "max_tables = 20"

definition format_table :: "nat \<Rightarrow> table_info \<Rightarrow> string" where
  "format_table maxCols t =
     tb_name t @ '' ('' @ join '', '' (map col_name (take maxCols (tb_columns t))) @
       (if length (tb_columns t) > maxCols then '', ...'' else []) @ '')''"

definition format_tables :: "(string \<Rightarrow> 'k::linorder) \<Rightarrow> nat \<Rightarrow> table_info list \<Rightarrow> string" where
  "format_tables collate maxCols tables =
     (let sorted = sort_key (\<lambda>t. collate (tb_name t)) tables in
      join '', '' (map (format_table maxCols) (take max_tables sorted) @
        (if length sorted > max_tables then [''+'' @ nat_str (length sorted - max_tables) @ '' more tables''] else [])))"

definition connection_label :: "schema_info obj \<Rightarrow> string \<Rightarrow> string" where
  "connection_label schemas name = (if length schemas > 1 then name @ '': '' else [])"

definition hint_text :: "string list \<Rightarrow> string" where
  "hint_text parts = ''Available tables: '' @ join '' | '' parts"

definition hint_with_columns :: "(string \<Rightarrow> 'k::linorder) \<Rightarrow> schema_info obj \<Rightarrow> nat \<Rightarrow> string" where
  "hint_with_columns collate schemas maxCols =
     hint_text (map (\<lambda>(name, schema). connection_label schemas name @ format_tables collate maxCols (si_tables schema))
       schemas)"

text \<open>The last resort: names only, sorted by their characters, and cut.\<close>

definition names_part :: "schema_info obj \<Rightarrow> string \<times> schema_info \<Rightarrow> string" where
  "names_part schemas = (\<lambda>(name, schema).
     connection_label schemas name @ join '', '' (take max_tables (sort (map tb_name (si_tables schema)))) @
       (if length (si_tables schema) > max_tables
        then '' (+'' @ nat_str (length (si_tables schema) - max_tables) @ '' more)'' else []))"

definition names_only :: "schema_info obj \<Rightarrow> nat \<Rightarrow> string" where
  "names_only schemas maxLength = take (maxLength - 3) (hint_text (map (names_part schemas) schemas)) @ ''...''"

text \<open>The loop over \<open>maxCols\<close> from 11 down to 4.\<close>

definition truncate_hint :: "(string \<Rightarrow> 'k::linorder) \<Rightarrow> schema_info obj \<Rightarrow> nat \<Rightarrow> string" where
  "truncate_hint collate schemas maxLength =
     (case List.find (\<lambda>n. length (hint_with_columns collate schemas n) \<le> maxLength) [11, 10, 9, 8, 7, 6, 5, 4] of
        Some n \<Rightarrow> hint_with_columns collate schemas n
      | None \<Rightarrow> names_only schemas maxLength)"

definition build_hint :: "(string \<Rightarrow> 'k::linorder) \<Rightarrow> schema_info obj \<Rightarrow> string" where
  "build_hint collate schemas =
     (if schemas = [] then []
      else let joined = hint_with_columns collate schemas max_cols_per_table in
        if length joined \<le> max_hint_length then joined else truncate_hint collate schemas max_hint_length)"

section \<open>The manager\<close>

record hint_tool =
  ht_description :: string
  ht_base :: string

record hint_manager =
  hm_tools :: "hint_tool list"
  hm_schemas :: "schema_info obj"
  hm_enabled :: bool

definition new_hint_manager :: "bool \<Rightarrow> hint_manager" where
  "new_hint_manager enabled = \<lparr>hm_tools = [], hm_schemas = [], hm_enabled = enabled\<rparr>"

text \<open>A handle that shows \<open>description\<close> at the moment of its registration.\<close>

definition register_tool :: "string \<Rightarrow> string \<Rightarrow> hint_manager \<Rightarrow> hint_manager" where
  "register_tool description baseDescription m =
     m\<lparr>hm_tools := hm_tools m @ [\<lparr>ht_description = description, ht_base = baseDescription\<rparr>]\<rparr>"

definition update_hints :: "(string \<Rightarrow> 'k::linorder) \<Rightarrow> string \<Rightarrow> schema_info \<Rightarrow> hint_manager \<Rightarrow> hint_manager" where
  "update_hints collate connectionName schema m =
     (if \<not> hm_enabled m then m
      else let schemas = obj_set connectionName schema (hm_schemas m); hint = build_hint collate schemas in
        m\<lparr>hm_schemas := schemas,
          hm_tools := map (\<lambda>t. t\<lparr>ht_description :=
            (if hint \<noteq> [] then ht_base t @ [CHR 0x0A, CHR 0x0A] @ hint else ht_base t)\<rparr>) (hm_tools m)\<rparr>)"

section \<open>Bounds\<close>

lemma build_hint_bound: "length (build_hint collate schemas) \<le> max_hint_length"
proof (cases "List.find (\<lambda>n. length (hint_with_columns collate schemas n) \<le> max_hint_length) [11, 10, 9, 8, 7, 6, 5, 4]")
  case None
  then show ?thesis by (simp add: build_hint_def truncate_hint_def names_only_def Let_def max_hint_length_def)
next
  case (Some n)
  then have "length (hint_with_columns collate schemas n) \<le> max_hint_length"
    unfolding find_Some_iff by blast
  then show ?thesis using Some by (simp add: build_hint_def truncate_hint_def Let_def)
qed

lemma find_upt_rev:
  assumes "List.find P (rev [a..<b]) = Some n"
  shows "P n \<and> a \<le> n \<and> n < b \<and> (\<forall>m. n < m \<longrightarrow> m < b \<longrightarrow> \<not> P m)"
proof -
  obtain i where i: "i < b - a" "P (rev [a..<b] ! i)" "n = rev [a..<b] ! i" "\<forall>j < i. \<not> P (rev [a..<b] ! j)"
    using assms by (auto simp: find_Some_iff)
  have nth: "rev [a..<b] ! j = b - 1 - j" if "j < b - a" for j using that by (simp add: rev_nth)
  have n: "n = b - 1 - i" using i nth by simp
  have "\<not> P m" if "n < m" "m < b" for m
  proof -
    have "b - 1 - m < i" and "m = b - 1 - (b - 1 - m)" using that n i(1) by linarith+
    then show ?thesis using i(1,4) nth [of "b - 1 - m"] by fastforce
  qed
  then show ?thesis using i n nth by auto
qed

text \<open>The hint shows as many columns per table as fit, at most twelve and at least four.\<close>

lemma build_hint_columns:
  assumes "schemas \<noteq> []" and "length (hint_with_columns collate schemas k) \<le> max_hint_length" and "4 \<le> k" "k \<le> 12"
  shows "\<exists>n. build_hint collate schemas = hint_with_columns collate schemas n \<and> k \<le> n \<and> n \<le> 12 \<and>
     length (hint_with_columns collate schemas n) \<le> max_hint_length \<and>
     (\<forall>m. n < m \<longrightarrow> m \<le> 12 \<longrightarrow> \<not> length (hint_with_columns collate schemas m) \<le> max_hint_length)"
proof (cases "length (hint_with_columns collate schemas 12) \<le> max_hint_length")
  case True
  then show ?thesis using assms by (auto simp: build_hint_def Let_def max_cols_per_table_def intro!: exI [of _ 12])
next
  case False
  let ?P = "\<lambda>n. length (hint_with_columns collate schemas n) \<le> max_hint_length"
  have range: "[11, 10, 9, 8, 7, 6, 5, 4] = rev [4..<12]" by (simp add: upt_rec)
  have k: "k < 12" using False assms by (cases "k = 12") auto
  then have "k \<in> set (rev [4..<12])" using assms by (simp only: set_rev set_upt atLeastLessThan_iff simp_thms)
  then have "List.find ?P (rev [4..<12]) \<noteq> None" using assms(2) unfolding find_None_iff by blast
  then obtain n where n: "List.find ?P (rev [4..<12]) = Some n" by blast
  from find_upt_rev [OF this] have "?P n" "n < 12" and top: "\<forall>m. n < m \<longrightarrow> m < 12 \<longrightarrow> \<not> ?P m" by blast+
  moreover have "k \<le> n" using top k assms(2) by (meson not_le)
  moreover have "build_hint collate schemas = hint_with_columns collate schemas n"
    unfolding build_hint_def Let_def max_cols_per_table_def truncate_hint_def range n option.case
      if_not_P [OF assms(1)] if_not_P [OF False] ..
  moreover have "\<forall>m. n < m \<longrightarrow> m \<le> 12 \<longrightarrow> \<not> ?P m" using top False by (metis le_neq_implies_less)
  moreover have "n \<le> 12" using \<open>n < 12\<close> by (rule less_imp_le)
  ultimately show ?thesis by (intro exI [of _ n] conjI)
qed

text \<open>What the tools show after any number of fetched schemas.\<close>

definition hints_after :: "(string \<Rightarrow> 'k::linorder) \<Rightarrow> (string \<times> schema_info) list \<Rightarrow> hint_manager \<Rightarrow> hint_manager" where
  "hints_after collate fetched m = fold (\<lambda>(name, schema). update_hints collate name schema) fetched m"

lemma update_hints_tools:
  "map ht_base (hm_tools (update_hints collate name schema m)) = map ht_base (hm_tools m)"
  "hm_enabled (update_hints collate name schema m) = hm_enabled m"
  by (simp_all add: update_hints_def Let_def comp_def)

lemma hints_after_tools:
  "map ht_base (hm_tools (hints_after collate fetched m)) = map ht_base (hm_tools m)"
  "hm_enabled (hints_after collate fetched m) = hm_enabled m"
  unfolding hints_after_def
  by (induction fetched arbitrary: m) (auto simp: update_hints_tools)

lemma hints_after_snoc:
  assumes "hm_enabled m"
  shows "map ht_description (hm_tools (hints_after collate (fetched @ [(name, schema)]) m)) =
     map (\<lambda>t. t @ (let h = build_hint collate (obj_set name schema (hm_schemas (hints_after collate fetched m)))
       in if h = [] then [] else [CHR 0x0A, CHR 0x0A] @ h)) (map ht_base (hm_tools m))"
proof -
  have on: "hm_enabled (hints_after collate fetched m)" using assms by (simp add: hints_after_tools)
  have "hints_after collate (fetched @ [(name, schema)]) m =
      update_hints collate name schema (hints_after collate fetched m)"
    by (simp add: hints_after_def)
  then show ?thesis
    using on by (simp add: update_hints_def Let_def comp_def hints_after_tools(1) [symmetric, of m collate fetched])
qed

lemma hints_off: "\<not> hm_enabled m \<Longrightarrow> hints_after collate fetched m = m"
  unfolding hints_after_def by (induction fetched) (auto simp: update_hints_def)

end
