(* ===== verification/Versions.thy ===== *)
theory Versions
  imports NumberText JsNumber ConnectionManager
begin

text \<open>
  Versions and the update notice (\<open>src/update-checker.ts\<close>): the three parts of a version
  as numbers, their comparison, and the check against a registry with a cache of one day.
  The registry, the cache file and the clock are parameters.
\<close>

section \<open>Versions\<close>

text \<open>A part is \<open>undefined\<close> when the text has fewer than three.\<close>

record parsed_version =
  pv_major :: jsval
  pv_minor :: jsval
  pv_patch :: jsval

definition version_part :: "string \<Rightarrow> nat \<Rightarrow> jsval" where
  "version_part version i =
     (let parts = split_char CHR ''.'' version in
      if i < length parts then JNum (number_of_string (parts ! i)) else JUndef)"

definition parse_version :: "string \<Rightarrow> parsed_version" where
  "parse_version version =
     \<lparr>pv_major = version_part version 0, pv_minor = version_part version 1, pv_patch = version_part version 2\<rparr>"

text \<open>\<open>undefined\<close> compares like NaN: neither greater nor smaller.\<close>

fun compare_parts :: "(jsval \<times> jsval) list \<Rightarrow> int" where
  "compare_parts [] = 0"
| "compare_parts ((a, b) # ps) =
     (if num_less (js_number b) (js_number a) then 1
      else if num_less (js_number a) (js_number b) then -1 else compare_parts ps)"

definition compare_versions :: "string \<Rightarrow> string \<Rightarrow> int" where
  "compare_versions a b =
     (let va = parse_version a; vb = parse_version b in
      compare_parts [(pv_major va, pv_major vb), (pv_minor va, pv_minor vb), (pv_patch va, pv_patch vb)])"

text \<open>\<open>===\<close> on numbers: NaN differs from itself. The major part is never \<open>undefined\<close>.\<close>

definition num_equal :: "jsnum \<Rightarrow> jsnum \<Rightarrow> bool" where
  "num_equal a b \<longleftrightarrow> a \<noteq> NaN \<and> b \<noteq> NaN \<and> \<not> num_less a b \<and> \<not> num_less b a"

definition is_major_change :: "string \<Rightarrow> string \<Rightarrow> bool" where
  "is_major_change frm to =
     (\<not> num_equal (js_number (pv_major (parse_version frm))) (js_number (pv_major (parse_version to))))"

section \<open>The update check\<close>

record update_cache =
  uc_latestVersion :: string
  uc_checkedAt :: int

record 'w update_deps =
  ud_fetchLatestVersion :: "('w, string) effect"
  ud_readCache :: "('w, update_cache option) effect"
  ud_writeCache :: "update_cache \<Rightarrow> ('w, unit) effect"
  ud_now :: "'w \<Rightarrow> int"

definition call_world :: "('w, 'a) effect \<Rightarrow> ('w, 'a) io" where
  "call_world f = (\<lambda>w. case f w of (Inr a, w') \<Rightarrow> (Ret a, w') | (Inl e, w') \<Rightarrow> (Throw e, w'))"

definition cache_max_age_ms :: int where
  "cache_max_age_ms = 24 * 60 * 60 * 1000"

definition check_for_update :: "'w update_deps \<Rightarrow> ('w, update_cache option) io" where
  "check_for_update deps =
     try_catch
       (bindM (call_world (ud_readCache deps)) (\<lambda>cached.
        bindM (gets (ud_now deps)) (\<lambda>t.
        case cached of
          Some c \<Rightarrow> if t - uc_checkedAt c < cache_max_age_ms then ret (Some c)
            else bindM (call_world (ud_fetchLatestVersion deps)) (\<lambda>latest.
              bindM (gets (ud_now deps)) (\<lambda>t'.
              let r = \<lparr>uc_latestVersion = latest, uc_checkedAt = t'\<rparr> in
              bindM (call_world (ud_writeCache deps r)) (\<lambda>_. ret (Some r))))
        | None \<Rightarrow> bindM (call_world (ud_fetchLatestVersion deps)) (\<lambda>latest.
              bindM (gets (ud_now deps)) (\<lambda>t'.
              let r = \<lparr>uc_latestVersion = latest, uc_checkedAt = t'\<rparr> in
              bindM (call_world (ud_writeCache deps r)) (\<lambda>_. ret (Some r)))))))
       (\<lambda>_. ret None)"

definition update_notice :: "string \<Rightarrow> string \<Rightarrow> string option" where
  "update_notice currentVersion latest =
     (if compare_versions latest currentVersion \<le> 0 then None
      else if is_major_change currentVersion latest then
        Some (''New major version available: '' @ currentVersion @ '' -> '' @ latest
          @ ''. Run `omnibase-mcp upgrade --allow-major` to update.'')
      else Some (''Update available: '' @ currentVersion @ '' -> '' @ latest
          @ ''. Run `omnibase-mcp upgrade` to update.''))"

text \<open>\<open>notifier\<close> is the environment variable \<open>NO_UPDATE_NOTIFIER\<close>, empty when it is not set.\<close>

definition get_update_notice :: "string \<Rightarrow> string \<Rightarrow> 'w update_deps \<Rightarrow> ('w, string option) io" where
  "get_update_notice notifier currentVersion deps =
     (if notifier \<noteq> [] then ret None
      else bindM (check_for_update deps) (\<lambda>result.
        case result of None \<Rightarrow> ret None
        | Some c \<Rightarrow> ret (update_notice currentVersion (uc_latestVersion c))))"

section \<open>Comparison on well-formed versions\<close>

text \<open>The text of a version with three numbers, and the lexicographic order.\<close>

type_synonym version = "nat \<times> nat \<times> nat"

fun version_text :: "version \<Rightarrow> string" where
  "version_text (a, b, c) = nat_str a @ ''.'' @ nat_str b @ ''.'' @ nat_str c"

fun version_less :: "version \<Rightarrow> version \<Rightarrow> bool" where
  "version_less (a, b, c) (a', b', c') \<longleftrightarrow> a < a' \<or> a = a' \<and> (b < b' \<or> b = b' \<and> c < c')"

declare version_text.simps [simp del]

lemma number_of_nat_str: "number_of_string (nat_str n) = int_num (int n)"
proof -
  have spelled: "num_text (nat_str n) n 0"
    by (rule num_textI [OF _ int_text_nat_str no_frac no_exp]) (simp_all add: radix_val_nat_str)
  have chars: "list_all num_char (nat_str n)" by (rule num_char_nat_str)
  have start: "nat_str n \<noteq> []" "is_digit (hd (nat_str n))" using num_text_chars [OF spelled] by blast+
  then have inf: "nat_str n \<noteq> ''Infinity''" by auto
  show ?thesis
    using no_radix_prefix [OF chars] start inf
    by (simp add: number_of_string_def trim_num_chars [OF chars] Let_def parse_sign_digit parse_unsigned_text [OF spelled]
        int_num_def)
qed

lemma nat_str_no_dot: "CHR ''.'' \<notin> set (nat_str n)"
  using nat_str_digits [of "CHR ''.''" n] by (auto simp: is_digit_def)

lemma split_char_sep: "c \<notin> set l \<Longrightarrow> split_char c (l @ c # s) = l # split_char c s"
  by (induction l) auto

lemma split_char_none: "c \<notin> set l \<Longrightarrow> split_char c l = [l]"
  by (induction l) auto

lemma split_version: "split_char CHR ''.'' (version_text (a, b, c)) = [nat_str a, nat_str b, nat_str c]"
  by (simp add: version_text.simps split_char_sep split_char_none nat_str_no_dot)

lemma parse_version_text:
  "parse_version (version_text (a, b, c)) =
     \<lparr>pv_major = JNum (int_num (int a)), pv_minor = JNum (int_num (int b)), pv_patch = JNum (int_num (int c))\<rparr>"
  unfolding parse_version_def version_part_def split_version by (simp add: number_of_nat_str)

lemma compare_versions_exact:
  "compare_versions (version_text v) (version_text w) =
     (if version_less w v then 1 else if version_less v w then -1 else 0)"
  by (cases v; cases w) (auto simp: compare_versions_def parse_version_text num_less_int Let_def)

lemma int_num_not_NaN: "int_num i \<noteq> NaN"
  by (simp add: int_num_def mk_num_def split: prod.split)

lemma is_major_change_exact:
  "is_major_change (version_text v) (version_text w) \<longleftrightarrow> fst v \<noteq> fst w"
  by (cases v; cases w) (auto simp: is_major_change_def parse_version_text num_equal_def num_less_int int_num_not_NaN)

section \<open>The check always answers\<close>

lemma call_world_run [run_simps]:
  "call_world f w = (case f w of (Inr a, w') \<Rightarrow> (Ret a, w') | (Inl e, w') \<Rightarrow> (Throw e, w'))"
  by (simp add: call_world_def)

lemma get_update_notice_answers: "\<exists>r w'. get_update_notice notifier v deps w = (Ret r, w')"
  by (auto simp: get_update_notice_def check_for_update_def run_simps Let_def split: prod.split sum.split option.split)

text \<open>A fresh cache answers without the network: nothing but the cache is read.\<close>

lemma fresh_cache:
  assumes "ud_readCache deps w = (Inr (Some c), w')" and "ud_now deps w' - uc_checkedAt c < cache_max_age_ms"
  shows "check_for_update deps w = (Ret (Some c), w')"
  using assms by (simp add: check_for_update_def run_simps)

end
