(* ===== verification/DriverFiles.thy ===== *)
theory DriverFiles
  imports Versions ConfigLoader Json "HOL-Library.Char_ord" "HOL-Library.List_Lexorder"
begin

text \<open>
  The command \<open>drivers\<close> (\<open>src/cli/drivers.ts\<close>): which driver binaries are installed in the
  directory of the current version, their download with a checksum, and their build from
  source. Files are a map from paths to contents; \<open>curl\<close>, \<open>chmod\<close>, the Go tools and the hash
  function are parameters. Console output is left out.
\<close>

type_synonym files = "string \<rightharpoonup> string"

record driver_entry =
  de_binary :: string
  de_schemes :: "string list"

type_synonym manifest = "driver_entry obj"

section \<open>Names\<close>

definition platform_name :: "string \<Rightarrow> string option" where
  "platform_name p =
     (if p = ''darwin'' then Some ''darwin'' else if p = ''linux'' then Some ''linux''
      else if p = ''win32'' then Some ''windows'' else None)"

definition arch_name :: "string \<Rightarrow> string option" where
  "arch_name a = (if a = ''arm64'' then Some ''arm64'' else if a = ''x64'' then Some ''amd64'' else None)"

definition driver_platform_key :: "string \<Rightarrow> string \<Rightarrow> string" where
  "driver_platform_key platform arch =
     or_else (platform_name platform) platform @ ''-'' @ or_else (arch_name arch) arch"

text \<open>\<open>join(dir, name)\<close> for a directory without a trailing slash.\<close>

definition path_join :: "string \<Rightarrow> string \<Rightarrow> string" where
  "path_join dir name = dir @ ''/'' @ name"

definition unverified_marker :: "string \<Rightarrow> string" where
  "unverified_marker path = path @ ''.unverified''"

text \<open>\<open>s.replace(pat, "")\<close> with a text: the first occurrence.\<close>

fun remove_first :: "string \<Rightarrow> string \<Rightarrow> string" where
  "remove_first pat [] = []"
| "remove_first pat (c # cs) =
     (if starts_with (c # cs) pat then drop (length pat) (c # cs) else c # remove_first pat cs)"

section \<open>Checksums\<close>

text \<open>\<open>line.split(/\s+/)\<close>\<close>

function split_spaces :: "string \<Rightarrow> string list" where
  "split_spaces s =
     (case dropWhile (\<lambda>c. \<not> is_space c) s of
        [] \<Rightarrow> [s]
      | c # r \<Rightarrow> takeWhile (\<lambda>c. \<not> is_space c) s # split_spaces (dropWhile is_space r))"
  by pat_completeness auto
termination
proof (relation "measure length", simp)
  fix s r and c :: char
  assume "dropWhile (\<lambda>c. \<not> is_space c) s = c # r"
  then have "length r < length s"
    using length_dropWhile_le [of "\<lambda>c. \<not> is_space c" s] by simp
  moreover have "length (dropWhile is_space r) \<le> length r" by (rule length_dropWhile_le)
  ultimately show "(dropWhile is_space r, s) \<in> measure length" by simp
qed

declare split_spaces.simps [simp del]

definition second_word :: "string \<Rightarrow> string option" where
  "second_word line = (case split_spaces line of _ # w # _ \<Rightarrow> Some w | _ \<Rightarrow> None)"

definition checksum_line :: "string \<Rightarrow> string \<Rightarrow> string option" where
  "checksum_line checksumsText assetName =
     List.find (\<lambda>l. second_word l = Some assetName) (split_char CHR 0x0A (trim checksumsText))"

definition expected_hash :: "string \<Rightarrow> string \<Rightarrow> string option" where
  "expected_hash checksumsText assetName =
     (case checksum_line checksumsText assetName of None \<Rightarrow> None | Some l \<Rightarrow> Some (hd (split_spaces l)))"

text \<open>The hash of a content that was read.\<close>

definition verify_driver_checksum :: "(string \<Rightarrow> string) \<Rightarrow> string \<Rightarrow> string \<Rightarrow> string \<Rightarrow> bool" where
  "verify_driver_checksum sha256 content assetName checksumsText =
     (expected_hash checksumsText assetName = Some (sha256 content))"

section \<open>The package and its version\<close>

text \<open>
  The search for \<open>package.json\<close> from a directory upwards, the directory given by its path
  components from the inside out. \<open>rd\<close> gives the text of the file in a directory, if it is
  there. The root itself is not searched.
\<close>

fun find_package_json :: "(string list \<Rightarrow> string option) \<Rightarrow> string list \<Rightarrow> string list result" where
  "find_package_json rd [] = Inl (JsError ''Could not find omnibase-mcp package.json'')"
| "find_package_json rd (c # up) =
     (case rd (c # up) of
        None \<Rightarrow> find_package_json rd up
      | Some txt \<Rightarrow>
          (case json_parse txt of
             None \<Rightarrow> Inl (JsError ''Unexpected token in JSON'')
           | Some JNull \<Rightarrow> Inl (JsError ''Cannot read properties of null (reading 'name')'')
           | Some pkg \<Rightarrow>
               if js_prop pkg ''name'' = JStr ''omnibase-mcp'' then Inr (c # up)
               else find_package_json rd up))"

definition get_version :: "(string list \<Rightarrow> string option) \<Rightarrow> string list \<Rightarrow> jsval result" where
  "get_version rd dir =
     bindR (find_package_json rd dir) (\<lambda>d.
       case Option.bind (rd d) json_parse of
         None \<Rightarrow> Inl (JsError ''Unexpected token in JSON'')
       | Some pkg \<Rightarrow> Inr (js_prop pkg ''version''))"

definition get_drivers_base :: "string option \<Rightarrow> string \<Rightarrow> string" where
  "get_drivers_base driversPath home =
     (case nonempty driversPath of Some p \<Rightarrow> p | None \<Rightarrow> path_join (path_join home ''.omnibase'') ''drivers'')"

section \<open>The environment\<close>

record driver_env =
  dn_platform :: string                          \<comment> \<open>\<open>getPlatformKey()\<close>\<close>
  dn_version :: string
  dn_base :: string                              \<comment> \<open>\<open>getDriversBase()\<close>\<close>
  dn_root :: string                              \<comment> \<open>\<open>getPackageRoot()\<close>\<close>
  dn_curl :: "string \<Rightarrow> string \<Rightarrow> (files, unit) effect"  \<comment> \<open>destination and address\<close>
  dn_chmod :: "string \<Rightarrow> (files, unit) effect"
  dn_goVersion :: "(files, unit) effect"
  dn_goBuild :: "string \<Rightarrow> string \<Rightarrow> (files, unit) effect"  \<comment> \<open>package and destination\<close>
  dn_hasSource :: "string \<Rightarrow> bool"              \<comment> \<open>\<open>main.go\<close> of a package exists\<close>
  dn_hasDrivers :: bool                          \<comment> \<open>the directory \<open>sidecar/drivers\<close> exists\<close>
  dn_sha256 :: "string \<Rightarrow> string"

definition drivers_dir :: "driver_env \<Rightarrow> string" where
  "drivers_dir env = path_join (dn_base env) (dn_version env)"

definition release_url :: "driver_env \<Rightarrow> string \<Rightarrow> string" where
  "release_url env asset =
     ''https://github.com/itsJeremyMax/omnibase/releases/download/omnibase-mcp-v'' @ dn_version env @ ''/'' @ asset"

definition asset_name :: "driver_env \<Rightarrow> string \<Rightarrow> string" where
  "asset_name env binary = binary @ ''-'' @ dn_platform env"

definition dest_path :: "driver_env \<Rightarrow> string \<Rightarrow> string" where
  "dest_path env binary = path_join (drivers_dir env) (asset_name env binary)"

definition driver_package :: "string \<Rightarrow> string" where
  "driver_package binary = remove_first ''driver-'' binary"

definition read_file :: "string \<Rightarrow> (files, string) io" where
  "read_file path = (\<lambda>f. case f path of None \<Rightarrow> (Throw (JsError ''ENOENT''), f) | Some c \<Rightarrow> (Ret c, f))"

definition write_file :: "string \<Rightarrow> string \<Rightarrow> (files, unit) io" where
  "write_file path content = modify (\<lambda>f. f(path \<mapsto> content))"

definition unlink :: "string \<Rightarrow> (files, unit) io" where
  "unlink path = (\<lambda>f. case f path of None \<Rightarrow> (Throw (JsError ''ENOENT''), f) | Some c \<Rightarrow> (Ret (), f(path := None)))"

definition file_exists :: "string \<Rightarrow> (files, bool) io" where
  "file_exists path = gets (\<lambda>f. f path \<noteq> None)"

text \<open>\<open>try { ...; return true } catch { return false }\<close>\<close>

definition succeeds :: "('s, unit) io \<Rightarrow> ('s, bool) io" where
  "succeeds m = try_catch (bindM m (\<lambda>_. ret True)) (\<lambda>_. ret False)"

definition checksums_path :: "driver_env \<Rightarrow> string" where
  "checksums_path env = path_join (drivers_dir env) ''driver-checksums-sha256.txt''"

definition download_checksums :: "driver_env \<Rightarrow> (files, string option) io" where
  "download_checksums env =
     bindM (file_exists (checksums_path env)) (\<lambda>e.
     if e then bindM (read_file (checksums_path env)) (\<lambda>t. ret (Some t))
     else try_catch
       (bindM (call_world (dn_curl env (checksums_path env) (release_url env ''driver-checksums-sha256.txt''))) (\<lambda>_.
        bindM (read_file (checksums_path env)) (\<lambda>t. ret (Some t))))
       (\<lambda>_. ret None))"

section \<open>The manifest\<close>

text \<open>
  A manifest of another shape than the interface \<open>DriverManifest\<close> is an error here; in the
  code the error comes when the missing field is used.
\<close>

fun json_strings :: "jsval list \<Rightarrow> string list result" where
  "json_strings [] = Inr []"
| "json_strings (JStr s # vs) = bindR (json_strings vs) (\<lambda>ss. Inr (s # ss))"
| "json_strings (v # vs) = Inl (JsError ''not a text'')"

definition json_driver :: "jsval \<Rightarrow> driver_entry result" where
  "json_driver v =
     (case (js_prop v ''binary'', js_prop v ''schemes'') of
        (JStr b, JArr ss) \<Rightarrow> bindR (json_strings ss) (\<lambda>schemes. Inr \<lparr>de_binary = b, de_schemes = schemes\<rparr>)
      | _ \<Rightarrow> Inl (JsError ''not a driver''))"

fun json_drivers :: "(string \<times> jsval) list \<Rightarrow> manifest result" where
  "json_drivers [] = Inr []"
| "json_drivers ((n, v) # ds) =
     bindR (json_driver v) (\<lambda>e. bindR (json_drivers ds) (\<lambda>es. Inr ((n, e) # es)))"

definition json_manifest :: "string \<Rightarrow> manifest option result" where
  "json_manifest txt =
     (case json_parse txt of
        None \<Rightarrow> Inl (JsError ''Unexpected token in JSON'')
      | Some v \<Rightarrow>
          if \<not> truthy v then Inr None
          else (case js_prop v ''drivers'' of
              JObj ds \<Rightarrow> bindR (json_drivers ds) (\<lambda>es. Inr (Some es))
            | _ \<Rightarrow> Inl (JsError ''Cannot convert undefined or null to object'')))"

definition version_manifest :: "driver_env \<Rightarrow> string" where
  "version_manifest env = path_join (drivers_dir env) ''drivers.json''"

definition source_manifest :: "driver_env \<Rightarrow> string" where
  "source_manifest env = path_join (path_join (dn_root env) ''sidecar'') ''drivers.json''"

definition load_manifest :: "driver_env \<Rightarrow> (files, manifest option) io" where
  "load_manifest env =
     bindM (file_exists (version_manifest env)) (\<lambda>v.
     if v then bindM (read_file (version_manifest env)) (\<lambda>t. liftR (json_manifest t))
     else bindM (file_exists (source_manifest env)) (\<lambda>s.
       if s then bindM (read_file (source_manifest env)) (\<lambda>t. liftR (json_manifest t))
       else ret None))"

section \<open>Which drivers\<close>

definition driver_for :: "manifest \<Rightarrow> string \<Rightarrow> (string \<times> driver_entry) option" where
  "driver_for manifest target =
     (case obj_get manifest target of
        Some e \<Rightarrow> Some (target, e)
      | None \<Rightarrow> List.find (\<lambda>(_, e). target \<in> set (de_schemes e)) manifest)"

definition drivers_to_install :: "manifest \<Rightarrow> string \<Rightarrow> (string \<times> string) list" where
  "drivers_to_install manifest target =
     (if target = ''--all'' then map (\<lambda>(n, e). (n, de_binary e)) manifest
      else case driver_for manifest target of None \<Rightarrow> [] | Some (n, e) \<Rightarrow> [(n, de_binary e)])"

text \<open>With \<open>--all\<close> an empty manifest is no error.\<close>

definition unknown_target :: "manifest \<Rightarrow> string \<Rightarrow> bool" where
  "unknown_target manifest target \<longleftrightarrow> target \<noteq> ''--all'' \<and> drivers_to_install manifest target = []"

section \<open>Installing\<close>

datatype install_result = Installed | Skipped | Failed

text \<open>From source, after a failed download.\<close>

definition build_fallback :: "driver_env \<Rightarrow> string \<Rightarrow> (files, install_result) io" where
  "build_fallback env binary =
     (let destPath = dest_path env binary; driverPkg = driver_package binary in
      if dn_hasSource env driverPkg then
        try_catch
          (bindM (call_world (dn_goVersion env)) (\<lambda>_.
           bindM (call_world (dn_goBuild env driverPkg destPath)) (\<lambda>_.
           bindM (call_world (dn_chmod env destPath)) (\<lambda>_.
           bindM (write_file (unverified_marker destPath) ''built from source'') (\<lambda>_. ret Installed)))))
          (\<lambda>_. ret Failed)
      else ret Failed)"

text \<open>An empty checksums file counts as none.\<close>

definition verify_download :: "driver_env \<Rightarrow> string option \<Rightarrow> string \<Rightarrow> bool \<Rightarrow> (files, bool) io" where
  "verify_download env checksums binary downloaded =
     (case checksums of
        Some t \<Rightarrow>
          if downloaded \<and> t \<noteq> [] then
            bindM (read_file (dest_path env binary)) (\<lambda>content.
            if \<not> verify_driver_checksum (dn_sha256 env) content (asset_name env binary) t
            then bindM (unlink (dest_path env binary)) (\<lambda>_. ret False) else ret True)
          else ret downloaded
      | None \<Rightarrow> ret downloaded)"

definition finish_download :: "driver_env \<Rightarrow> string option \<Rightarrow> string \<Rightarrow> (files, install_result) io" where
  "finish_download env checksums binary =
     bindM (call_world (dn_chmod env (dest_path env binary))) (\<lambda>_.
     bindM (if checksums = None \<or> checksums = Some []
       then write_file (unverified_marker (dest_path env binary)) ''downloaded without checksum verification''
       else ret ()) (\<lambda>_.
     ret Installed))"

definition install_one :: "driver_env \<Rightarrow> string option \<Rightarrow> string \<Rightarrow> (files, install_result) io" where
  "install_one env checksums binary =
     bindM (file_exists (dest_path env binary)) (\<lambda>e.
     if e then ret Skipped
     else
       bindM (succeeds (call_world (dn_curl env (dest_path env binary) (release_url env (asset_name env binary))))) (\<lambda>downloaded.
       bindM (verify_download env checksums binary downloaded) (\<lambda>ok.
       if ok then finish_download env checksums binary else build_fallback env binary)))"

fun install_all :: "driver_env \<Rightarrow> string option \<Rightarrow> string list \<Rightarrow> (files, install_result list) io" where
  "install_all env checksums [] = ret []"
| "install_all env checksums (b # bs) =
     bindM (install_one env checksums b) (\<lambda>r.
     bindM (install_all env checksums bs) (\<lambda>rs. ret (r # rs)))"

definition install_drivers :: "driver_env \<Rightarrow> string \<Rightarrow> (files, install_result list) io" where
  "install_drivers env target =
     bindM (load_manifest env) (\<lambda>loaded.
     case loaded of
       None \<Rightarrow> ret []
     | Some manifest \<Rightarrow>
         if target = [] \<or> unknown_target manifest target then ret []
         else bindM (download_checksums env) (\<lambda>checksums.
           install_all env checksums (map snd (drivers_to_install manifest target))))"

section \<open>Building\<close>

definition build_one :: "driver_env \<Rightarrow> string \<Rightarrow> (files, install_result) io" where
  "build_one env binary =
     (let destPath = dest_path env binary; driverPkg = driver_package binary in
      bindM (file_exists destPath) (\<lambda>e.
      bindM (file_exists (unverified_marker destPath)) (\<lambda>u.
      if e \<and> \<not> u then ret Skipped
      else if \<not> dn_hasSource env driverPkg then ret Failed
      else try_catch
        (bindM (call_world (dn_goBuild env driverPkg destPath)) (\<lambda>_.
         bindM (call_world (dn_chmod env destPath)) (\<lambda>_.
         bindM (write_file (unverified_marker destPath) ''built from source'') (\<lambda>_. ret Installed))))
        (\<lambda>_. ret Failed))))"

fun build_all :: "driver_env \<Rightarrow> string list \<Rightarrow> (files, install_result list) io" where
  "build_all env [] = ret []"
| "build_all env (b # bs) =
     bindM (build_one env b) (\<lambda>r.
     bindM (build_all env bs) (\<lambda>rs. ret (r # rs)))"

definition build_drivers :: "driver_env \<Rightarrow> string \<Rightarrow> (files, install_result list) io" where
  "build_drivers env target =
     bindM (succeeds (call_world (dn_goVersion env))) (\<lambda>go.
     if \<not> go then ret []
     else bindM (load_manifest env) (\<lambda>loaded.
       case loaded of
         None \<Rightarrow> ret []
       | Some manifest \<Rightarrow>
           if \<not> dn_hasDrivers env \<or> target = [] \<or> unknown_target manifest target then ret []
           else build_all env (map snd (drivers_to_install manifest target))))"

section \<open>Listing and cleaning\<close>

definition driver_status :: "driver_env \<Rightarrow> files \<Rightarrow> string \<Rightarrow> string" where
  "driver_status env f binary =
     (let p = dest_path env binary in
      if f p \<noteq> None \<and> f (unverified_marker p) \<noteq> None then ''installed (unverified)''
      else if f p \<noteq> None then ''installed'' else ''not installed'')"

definition driver_row :: "driver_env \<Rightarrow> files \<Rightarrow> string \<times> driver_entry \<Rightarrow> string list" where
  "driver_row env f = (\<lambda>(name, e).
     [name, join '', '' (take 4 (de_schemes e)) @ (if length (de_schemes e) > 4 then '', ...'' else []),
      driver_status env f (de_binary e)])"

definition list_drivers :: "(string \<Rightarrow> 'k::linorder) \<Rightarrow> driver_env \<Rightarrow> manifest \<Rightarrow> files \<Rightarrow> string list list \<times> nat" where
  "list_drivers collate env manifest f =
     (let sorted = sort_key (\<lambda>(n, _). collate n) manifest in
      (map (driver_row env f) sorted, length (List.filter (\<lambda>(_, e). f (dest_path env (de_binary e)) \<noteq> None) sorted)))"

definition list_command :: "(string \<Rightarrow> 'k::linorder) \<Rightarrow> driver_env \<Rightarrow> (files, (string list list \<times> nat) option) io" where
  "list_command collate env =
     bindM (load_manifest env) (\<lambda>loaded.
     case loaded of
       None \<Rightarrow> ret None
     | Some manifest \<Rightarrow> gets (\<lambda>f. Some (list_drivers collate env manifest f)))"

text \<open>\<open>drivers clean\<close>: what is in the directory of another version is removed.\<close>

definition versions_in :: "(string \<times> bool) list \<Rightarrow> string list" where
  "versions_in entries = sort (map fst (List.filter snd entries))"

definition versions_to_clean :: "string \<Rightarrow> (string \<times> bool) list \<Rightarrow> string list" where
  "versions_to_clean currentVersion entries = List.filter (\<lambda>v. v \<noteq> currentVersion) (versions_in entries)"

definition remove_dir :: "string \<Rightarrow> files \<Rightarrow> files" where
  "remove_dir dir f = (\<lambda>p. if starts_with p (path_join dir []) then None else f p)"

definition clean_drivers :: "driver_env \<Rightarrow> (string \<times> bool) list \<Rightarrow> files \<Rightarrow> files" where
  "clean_drivers env entries f =
     fold (\<lambda>v. remove_dir (path_join (dn_base env) v)) (versions_to_clean (dn_version env) entries) f"

end
