(* ===== verification/UpdateCache.thy ===== *)
theory UpdateCache
  imports DriverFiles SidecarClient
begin

text \<open>
  The cache of the update check (\<open>src/update-checker.ts\<close>): a file in the configuration directory
  of the user, written at best effort. The check on this cache asks the registry at most once a
  day: \<open>checked_once_a_day\<close>.
\<close>

section \<open>The file\<close>

definition cache_dir :: "string \<Rightarrow> string" where
  "cache_dir home = path_join (path_join home ''.config'') ''omnibase''"

definition cache_file :: "string \<Rightarrow> string" where
  "cache_file home = path_join (cache_dir home) ''.update-check''"

text \<open>
  The file is trusted to hold an \<open>UpdateCheckCache\<close>. One without a whole number as its time
  is always too old for the check, and counts as none here.
\<close>

definition json_cache :: "jsval \<Rightarrow> update_cache option" where
  "json_cache v =
     (case (js_prop v ''latestVersion'', js_prop v ''checkedAt'') of
        (JStr latest, JNum (Fin neg m e)) \<Rightarrow>
          if 0 \<le> e then Some \<lparr>uc_latestVersion = latest, uc_checkedAt = as_int 0 (JNum (Fin neg m e))\<rparr> else None
      | _ \<Rightarrow> None)"

definition read_cache_from_disk :: "string \<Rightarrow> files \<Rightarrow> update_cache option" where
  "read_cache_from_disk home f =
     (case Option.bind (f (cache_file home)) json_parse of
        None \<Rightarrow> None
      | Some v \<Rightarrow> if truthy v then json_cache v else None)"

definition cache_json :: "update_cache \<Rightarrow> jsval" where
  "cache_json c = JObj [(''latestVersion'', JStr (uc_latestVersion c)), (''checkedAt'', JNum (int_num (uc_checkedAt c)))]"

text \<open>\<open>writable\<close>: creating the directory and writing the file succeed.\<close>

definition write_cache_to_disk :: "string \<Rightarrow> bool \<Rightarrow> update_cache \<Rightarrow> files \<Rightarrow> files" where
  "write_cache_to_disk home writable cache f =
     (if writable then f(cache_file home \<mapsto> json (cache_json cache)) else f)"

section \<open>The check on the disk\<close>

text \<open>The files beside the rest of the world, which the request and the clock read.\<close>

definition default_deps ::
  "string \<Rightarrow> bool \<Rightarrow> ('w, string) effect \<Rightarrow> ('w \<Rightarrow> int) \<Rightarrow> (files \<times> 'w) update_deps" where
  "default_deps home writable fetch now =
     \<lparr>ud_fetchLatestVersion = (\<lambda>(f, w). case fetch w of (r, w') \<Rightarrow> (r, (f, w'))),
      ud_readCache = (\<lambda>(f, w). (Inr (read_cache_from_disk home f), (f, w))),
      ud_writeCache = (\<lambda>c (f, w). (Inr (), (write_cache_to_disk home writable c f, w))),
      ud_now = (\<lambda>(f, w). now w)\<rparr>"

section \<open>Reading back\<close>

lemma int_num_fin: "\<exists>neg m e. int_num i = Fin neg m e \<and> 0 \<le> e"
proof (cases "i = 0")
  case False
  obtain m e where "strip10 (nat \<bar>i\<bar>) 0 = (m, e)" by fastforce
  then show ?thesis using False strip10_value [of "nat \<bar>i\<bar>" 0 m e] by (auto simp: int_num_def mk_num_def)
qed (auto simp: int_num_def mk_num_def)

lemma cache_read_back: "read_cache_from_disk home (write_cache_to_disk home True c f) = Some c"
proof -
  obtain neg m e where num: "int_num (uc_checkedAt c) = Fin neg m e" "0 \<le> e" using int_num_fin by blast
  have "canonical (Fin neg m e)" using canonical_int_num [of "uc_checkedAt c"] num(1) by simp
  then have "json_ok (cache_json c)" unfolding cache_json_def num(1) by simp
  then have "json_parse (json (cache_json c)) = Some (json_norm (cache_json c))" by (rule json_round_trip)
  moreover have "json_norm (cache_json c) =
      JObj [(''latestVersion'', JStr (uc_latestVersion c)), (''checkedAt'', JNum (Fin neg m e))]"
    unfolding cache_json_def num(1) by simp
  moreover have "as_int 0 (JNum (Fin neg m e)) = uc_checkedAt c" using as_int_num [of 0 "uc_checkedAt c"] num(1) by simp
  ultimately show ?thesis
    using num(2) by (simp add: read_cache_from_disk_def write_cache_to_disk_def json_cache_def)
qed

text \<open>
  After a check that asked the registry and could write, every check within a day of the
  time it recorded answers the same, from the files alone.
\<close>

lemma checked_once_a_day:
  assumes "check_for_update (default_deps home True fetch now) (f, w) = (Ret (Some c), (f', w'))"
    and "now w'' - uc_checkedAt c < cache_max_age_ms" and "f'' (cache_file home) = f' (cache_file home)"
  shows "check_for_update (default_deps home True fetch now) (f'', w'') = (Ret (Some c), (f'', w''))"
proof -
  have "read_cache_from_disk home f' = Some c"
    using assms(1)
    by (auto simp: check_for_update_def default_deps_def run_simps Let_def cache_read_back
        split: prod.splits sum.splits option.splits if_splits)
  then have "read_cache_from_disk home f'' = Some c" using assms(3) by (simp add: read_cache_from_disk_def)
  then show ?thesis using assms(2) by (intro fresh_cache) (simp_all add: default_deps_def)
qed

end
