(* ===== verification/Startup.thy ===== *)
theory Startup
  imports ConfigWatcher SchemaHints UpdateCache
begin

text \<open>
  The start of the program (\<open>src/index.ts\<close>): the choice between a command and the server, the
  starter configuration, the components that \<open>main\<close> puts together, and the shutdown. The usage
  texts are left out; what a command does is modelled in its own theory.
\<close>

section \<open>Commands\<close>

datatype command =
    InitCommand
  | ToolsCommand string
  | StatusCommand
  | AuditTail
  | AuditSearch string
  | AuditClear
  | UpgradeCommand "string list"
  | DriversList
  | DriversInstall "string option"
  | DriversBuild "string option"
  | DriversClean
  | DriversPath
  | ShowUsage string
  | PrintVersion
  | PrintHelp
  | UnknownCommand string

definition argument :: "string list \<Rightarrow> nat \<Rightarrow> string option" where
  "argument argv i = (if i < length argv then Some (argv ! i) else None)"

definition tools_command :: "string list \<Rightarrow> command" where
  "tools_command argv =
     (case argument argv 3 of
        Some sub \<Rightarrow> (if sub \<in> {''list'', ''add'', ''remove'', ''validate'', ''test''} then ToolsCommand sub
          else ShowUsage ''tools'')
      | None \<Rightarrow> ShowUsage ''tools'')"

definition audit_command :: "string list \<Rightarrow> command" where
  "audit_command argv =
     (if argument argv 3 = Some ''tail'' then AuditTail
      else if argument argv 3 = Some ''search'' then AuditSearch (join '' '' (drop 4 argv))
      else if argument argv 3 = Some ''clear'' then AuditClear
      else ShowUsage ''audit'')"

definition drivers_command :: "string list \<Rightarrow> command" where
  "drivers_command argv =
     (if argument argv 3 = Some ''list'' then DriversList
      else if argument argv 3 = Some ''install'' then DriversInstall (argument argv 4)
      else if argument argv 3 = Some ''build'' then DriversBuild (argument argv 4)
      else if argument argv 3 = Some ''clean'' then DriversClean
      else if argument argv 3 = Some ''path'' then DriversPath
      else ShowUsage ''drivers'')"

text \<open>\<open>None\<close> starts the server; an empty argument counts as none.\<close>

definition cli_command :: "string list \<Rightarrow> command option" where
  "cli_command argv =
     (case nonempty (argument argv 2) of
        None \<Rightarrow> None
      | Some c \<Rightarrow> Some
          (if c = ''init'' then InitCommand
           else if c = ''tools'' then tools_command argv
           else if c = ''status'' then StatusCommand
           else if c = ''audit'' then audit_command argv
           else if c = ''upgrade'' then UpgradeCommand (drop 3 argv)
           else if c = ''drivers'' then drivers_command argv
           else if c \<in> {''--version'', ''-V''} then PrintVersion
           else if c \<in> {''--help'', ''-h'', ''help''} then PrintHelp
           else UnknownCommand c))"

text \<open>
  The exit code of a command that returns, and whether the update notice is shown before. A
  command may end the process itself with another code.
\<close>

definition exit_code :: "command \<Rightarrow> nat" where
  "exit_code c = (case c of UnknownCommand u \<Rightarrow> 1 | _ \<Rightarrow> 0)"

definition shows_notice :: "command \<Rightarrow> bool" where
  "shows_notice c = (case c of UnknownCommand u \<Rightarrow> False | PrintVersion \<Rightarrow> False | _ \<Rightarrow> True)"

definition maybe_show_update_notice :: "string \<Rightarrow> string \<Rightarrow> 'w update_deps \<Rightarrow> ('w, string option) io" where
  "maybe_show_update_notice notifier version deps =
     try_catch (get_update_notice notifier version deps) (\<lambda>_. ret None)"

section \<open>The starter configuration\<close>

definition starter_config :: string where
  "starter_config = join [CHR 0x0A]
     [''# Omnibase configuration'',
      ''# All options: https://github.com/itsJeremyMax/omnibase#configuration-reference'',
      [],
      ''connections:'',
      ''  my-db:'',
      concat [''    dsn: '', [CHR 0x22], ''sqlite:./my-database.db'', [CHR 0x22],
        ''  # or pg://user:pass@host/db, my://user:pass@host/db''],
      ''    permission: read-write            # read-only (default) | read-write | admin'',
      []]"

definition handle_init :: "string \<Rightarrow> (files, unit) io" where
  "handle_init cwd =
     (let configPath = path_join cwd ''omnibase.config.yaml'' in
      bindM (file_exists configPath) (\<lambda>e. if e then ret () else write_file configPath starter_config))"

section \<open>The server\<close>

record 'w running =
  rn_config :: omnibase_config      \<comment> \<open>the configuration that the built-in tools keep\<close>
  rn_watcher :: watcher
  rn_sys :: "'w sys"
  rn_hints :: hint_manager

text \<open>
  Without a configuration file the server still answers one tool, always with an error; a
  failure before the server is connected ends the process.
\<close>

datatype 'w start = Unconfigured | FailedStart error | Serving "'w running"

definition no_config_response :: response where
  "no_config_response = ErrorResponse
     (''No omnibase.config.yaml found. Run `npx omnibase-mcp@latest init` to create one, '' @
      ''set OMNIBASE_CONFIG env var, or see https://github.com/itsJeremyMax/omnibase#get-started'')"

text \<open>The path of the sidecar program: the environment variable, unless it is empty.\<close>

definition resolve_sidecar_path :: "string option \<Rightarrow> string \<Rightarrow> string" where
  "resolve_sidecar_path sidecarPath bundled = or_else (nonempty sidecarPath) bundled"

text \<open>The four tools whose descriptions carry the schema hint, with their base descriptions.\<close>

definition execute_description :: string where
  "execute_description = join '' ''
     [''Execute a SQL query.'',
      concat [''Permission level of the connection determines what'', [CHR 0x27], ''s allowed (read-only, read-write, admin).''],
      ''Supports parameterized queries and pagination via limit/offset.'']"

definition sample_description :: string where
  "sample_description = join '' ''
     [''Preview rows from a table. Table name is validated against schema to prevent injection.'',
      ''Supports optional WHERE filtering and ORDER BY sorting.'']"

definition validate_description :: string where
  "validate_description = join '' ''
     [concat [''Check if a SQL query is syntactically valid and would be allowed by the connection'', [CHR 0x27],
        ''s permission level, without executing it.''],
      ''Note: only checks syntax and permissions, not whether referenced tables/columns exist.'']"

definition explain_description :: string where
  "explain_description = join '' ''
     [''Show the query execution plan without executing the query.'',
      ''Set analyze=true to actually run the query and get real timing data instead of estimates (PostgreSQL/MySQL).'',
      ''Always allowed regardless of permission level.'']"

definition explain_base_description :: string where
  "explain_base_description = join '' ''
     [''Show the query execution plan without executing the query.'',
      ''Always allowed regardless of permission level.'']"

definition register_hints :: "bool \<Rightarrow> hint_manager" where
  "register_hints enabled =
     register_tool explain_description explain_base_description
       (register_tool validate_description validate_description
         (register_tool sample_description sample_description
           (register_tool execute_description execute_description (new_hint_manager enabled))))"

definition start_server ::
    "string option \<Rightarrow> omnibase_config result \<Rightarrow> unit result \<Rightarrow> 'w \<Rightarrow> 'w start" where
  "start_server configPath loaded sidecar w =
     (if nonempty configPath = None then Unconfigured
      else case loaded of
        Inl e \<Rightarrow> FailedStart e
      | Inr config \<Rightarrow>
          (case validate_custom_tools config of
             Some (Inr _) \<Rightarrow>
               (case sidecar of
                  Inl e \<Rightarrow> FailedStart e
                | Inr _ \<Rightarrow> Serving
                    \<lparr>rn_config = config, rn_watcher = start_watching (new_watcher config),
                     rn_sys = snd (set_on_schema_fetched (initial_sys w)),
                     rn_hints = register_hints (oc_schemaHints config)\<rparr>)
           | Some (Inl e) \<Rightarrow> FailedStart e
           | None \<Rightarrow> FailedStart (JsError [])))"

text \<open>The descriptions that the hint manager shows after the schemas that were fetched so far.\<close>

definition shown_hints :: "(string \<Rightarrow> 'k::linorder) \<Rightarrow> 'w running \<Rightarrow> hint_manager" where
  "shown_hints collate run = hints_after collate (cm_fetched (rn_sys run)) (rn_hints run)"

text \<open>
  On an interrupt the watcher stops and the connections of the active configuration are
  closed; the sidecar is stopped after that.
\<close>

definition shut_down :: "'w backend \<Rightarrow> watcher \<Rightarrow> 'w sys \<Rightarrow> watcher \<times> 'w sys" where
  "shut_down bk w s =
     (stop_watching w, snd (disconnect_all bk (map snd (oc_connections (cw_active w))) s))"

section \<open>Lemmas\<close>

lemma start_server_live:
  assumes "start_server configPath loaded sidecar v = Serving run"
  shows "loaded = Inr (rn_config run) \<and> live_inv (rn_watcher run, rn_sys run) \<and>
     (\<exists>config. valid_config config \<and> rn_watcher run = start_watching (new_watcher config) \<and>
        rn_sys run = snd (set_on_schema_fetched (initial_sys v)))"
proof -
  have run: "loaded = Inr (rn_config run)" "valid_config (rn_config run)"
      "rn_watcher run = start_watching (new_watcher (rn_config run))"
      "rn_sys run = snd (set_on_schema_fetched (initial_sys v))"
    using assms
    by (auto simp: start_server_def valid_config_def split: if_splits sum.splits option.splits)
  moreover from this have "live_inv (rn_watcher run, rn_sys run)"
    by (intro lv.inv_start) blast
  ultimately show ?thesis by blast
qed

text \<open>Once it has shut down, the server watches no file and holds no connection it can close.\<close>

lemma disconnect_all_closes:
  assumes "\<And>i u. fst (bk_disconnect bk i u) = Inr ()"
  shows "cm_connectedIds (snd (disconnect_all bk configs s)) = cm_connectedIds s - cc_name ` set configs"
proof (induction configs arbitrary: s)
  case (Cons c cs)
  obtain u where "bk_disconnect bk (cc_name c) (sys_world s) = (Inr (), u)"
    using assms [of "cc_name c" "sys_world s"] by (metis prod.collapse)
  then show ?case
    using Cons.IH by (auto simp: run_simps disconnect_def call_backend_def)
qed (simp add: ret_run)

lemma shut_down_closes:
  assumes "\<And>i u. fst (bk_disconnect bk i u) = Inr ()" and "shut_down bk w s = (w', s')"
  shows "\<not> cw_watching w' \<and> \<not> cw_timer w' \<and>
     cm_connectedIds s' = cm_connectedIds s - cc_name ` snd ` set (oc_connections (cw_active w))"
  using assms(2) disconnect_all_closes [OF assms(1), where configs = "map snd (oc_connections (cw_active w))"]
  by (auto simp: shut_down_def stop_watching_def)

text \<open>The hint never makes a description grow by more than its bound.\<close>

lemma shown_hint_bound:
  assumes "t \<in> set (hm_tools (shown_hints collate run))" "t \<notin> set (hm_tools (rn_hints run))"
  shows "length (ht_description t) \<le> length (ht_base t) + 2 + max_hint_length"
proof -
  have step: "length (ht_description t) \<le> length (ht_base t) + 2 + max_hint_length"
    if "t \<in> set (hm_tools (update_hints collate n sc m))" "t \<notin> set (hm_tools m)" for n sc m
    using that build_hint_bound [of collate "obj_set n sc (hm_schemas m)"]
    by (auto simp: update_hints_def Let_def split: if_splits)
  have "t \<in> set (hm_tools (hints_after collate fs m)) \<Longrightarrow> t \<notin> set (hm_tools m) \<Longrightarrow>
      length (ht_description t) \<le> length (ht_base t) + 2 + max_hint_length" for fs m
  proof (induction fs arbitrary: m)
    case (Cons x fs)
    obtain n sc where x: "x = (n, sc)" by fastforce
    then have "t \<in> set (hm_tools (hints_after collate fs (update_hints collate n sc m)))"
      using Cons.prems by (simp add: hints_after_def)
    then show ?case using Cons.IH step Cons.prems(2) by blast
  qed (simp add: hints_after_def)
  then show ?thesis using assms by (simp add: shown_hints_def)
qed

end
