(* ===== verification/DriverTrust.thy ===== *)
theory DriverTrust
  imports DriverFiles
begin

text \<open>
  Which installed drivers can be trusted: a driver without the marker \<open>.unverified\<close> has the
  checksum that the release lists for it. Installing and building keep this, provided that
  the tools change nothing but their destination and leave nothing behind when they fail.
\<close>

section \<open>What the tools are taken to do\<close>

definition tidy :: "(files, unit) effect \<Rightarrow> string \<Rightarrow> bool" where
  "tidy run dest \<longleftrightarrow> (\<forall>f. case run f of
       (Inl _, f') \<Rightarrow> f' = f
     | (Inr _, f') \<Rightarrow> \<forall>p. p \<noteq> dest \<longrightarrow> f' p = f p)"

definition silent :: "(files, unit) effect \<Rightarrow> bool" where
  "silent run \<longleftrightarrow> (\<forall>f. snd (run f) = f)"

definition tidy_tools :: "driver_env \<Rightarrow> bool" where
  "tidy_tools env \<longleftrightarrow>
     (\<forall>dest url. tidy (dn_curl env dest url) dest) \<and> (\<forall>pkg dest. tidy (dn_goBuild env pkg dest) dest) \<and>
     silent (dn_goVersion env) \<and> (\<forall>p. silent (dn_chmod env p) \<and> (\<forall>f. fst (dn_chmod env p f) = Inr ()))"

lemma tidy_success: "tidy run dest \<Longrightarrow> run f = (Inr u, f') \<Longrightarrow> p \<noteq> dest \<Longrightarrow> f' p = f p"
  by (auto simp: tidy_def dest: spec [of _ f])

lemma tidy_failure: "tidy run dest \<Longrightarrow> run f = (Inl e, f') \<Longrightarrow> f' = f"
  by (auto simp: tidy_def dest: spec [of _ f])

lemma tidy_toolsD:
  assumes "tidy_tools env"
  shows "tidy (dn_curl env dest url) dest" "tidy (dn_goBuild env pkg dest) dest"
    "dn_goVersion env f = (r, f') \<Longrightarrow> f' = f" "dn_chmod env p f = (Inr (), f)"
  using assms by (auto simp: tidy_tools_def silent_def prod_eq_iff dest: spec [of _ f])

section \<open>Paths\<close>

text \<open>The supported platforms end in the digit 4, which no marker and no other file does.\<close>

definition plain_platform :: "driver_env \<Rightarrow> bool" where
  "plain_platform env \<longleftrightarrow> dn_platform env \<noteq> [] \<and> last (dn_platform env) = CHR ''4''"

lemma supported_platform:
  assumes "a \<in> {''arm64'', ''x64''}"
  shows "driver_platform_key p a \<noteq> [] \<and> last (driver_platform_key p a) = CHR ''4''"
  using assms by (auto simp: driver_platform_key_def arch_name_def)

lemma dest_path_inj: "dest_path env b = dest_path env b' \<longleftrightarrow> b = b'"
  by (simp add: dest_path_def path_join_def asset_name_def)

lemma last_dest_path: "plain_platform env \<Longrightarrow> last (dest_path env b) = CHR ''4''"
  by (simp add: dest_path_def path_join_def asset_name_def plain_platform_def)

lemma last_unverified_marker: "last (unverified_marker p) = CHR ''d''"
  by (simp add: unverified_marker_def)

lemma path_distinct:
  assumes "plain_platform env"
  shows "dest_path env b \<noteq> unverified_marker p" "dest_path env b \<noteq> checksums_path env"
    "unverified_marker p \<noteq> checksums_path env"
proof -
  have "last (checksums_path env) = CHR ''t''" by (simp add: checksums_path_def path_join_def)
  then show "dest_path env b \<noteq> unverified_marker p" "dest_path env b \<noteq> checksums_path env"
    "unverified_marker p \<noteq> checksums_path env"
    using last_dest_path [OF assms, of b] last_unverified_marker [of p] by auto
qed

section \<open>The invariant\<close>

definition driver_verified :: "driver_env \<Rightarrow> string \<Rightarrow> files \<Rightarrow> string \<Rightarrow> bool" where
  "driver_verified env t f b \<longleftrightarrow>
     (\<forall>c. f (dest_path env b) = Some c \<longrightarrow> f (unverified_marker (dest_path env b)) = None \<longrightarrow>
        expected_hash t (asset_name env b) = Some (dn_sha256 env c))"

text \<open>The checksums file, if it is there, is empty or the published one.\<close>

definition checksums_known :: "driver_env \<Rightarrow> string \<Rightarrow> files \<Rightarrow> bool" where
  "checksums_known env t f \<longleftrightarrow> f (checksums_path env) \<in> {None, Some [], Some t}"

definition drivers_verified :: "driver_env \<Rightarrow> string \<Rightarrow> files \<Rightarrow> bool" where
  "drivers_verified env t f \<longleftrightarrow> checksums_known env t f \<and> (\<forall>b. driver_verified env t f b)"

lemma drivers_verified_change:
  assumes "plain_platform env" "drivers_verified env t f" "driver_verified env t f' b"
    and "\<And>p. p \<noteq> dest_path env b \<Longrightarrow> p \<noteq> unverified_marker (dest_path env b) \<Longrightarrow> f' p = f p"
  shows "drivers_verified env t f'"
  unfolding drivers_verified_def
proof (intro conjI allI)
  show "checksums_known env t f'"
    using assms(2,4) path_distinct(2,3) [OF assms(1)]
    by (metis checksums_known_def drivers_verified_def)
next
  fix b'
  show "driver_verified env t f' b'"
  proof (cases "b' = b")
    case False
    then have "f' (dest_path env b') = f (dest_path env b')"
      using assms(4) path_distinct(1) [OF assms(1)] by (simp add: dest_path_inj)
    moreover have "f' (unverified_marker (dest_path env b')) = f (unverified_marker (dest_path env b'))"
      using assms(4) path_distinct(1) [OF assms(1), symmetric] False
      by (simp add: unverified_marker_def dest_path_inj)
    ultimately show ?thesis using assms(2) by (simp add: drivers_verified_def driver_verified_def)
  qed (use assms(3) in simp)
qed

text \<open>A marked driver, a missing one and one with the right checksum are fine.\<close>

lemma marked_verified: "f (unverified_marker (dest_path env b)) \<noteq> None \<Longrightarrow> driver_verified env t f b"
  by (auto simp: driver_verified_def)

lemma missing_verified: "f (dest_path env b) = None \<Longrightarrow> driver_verified env t f b"
  by (simp add: driver_verified_def)

lemma checked_verified:
  "f (dest_path env b) = Some c \<Longrightarrow> verify_driver_checksum (dn_sha256 env) c (asset_name env b) t \<Longrightarrow>
     driver_verified env t f b"
  by (simp add: driver_verified_def verify_driver_checksum_def)

section \<open>Installing and building keep it\<close>

lemma file_run [run_simps]:
  "read_file p f = (case f p of None \<Rightarrow> (Throw (JsError ''ENOENT''), f) | Some c \<Rightarrow> (Ret c, f))"
  "unlink p f = (case f p of None \<Rightarrow> (Throw (JsError ''ENOENT''), f) | Some c \<Rightarrow> (Ret (), f(p := None)))"
  "write_file p c f = (Ret (), f(p \<mapsto> c))"
  "file_exists p f = (Ret (f p \<noteq> None), f)"
  by (simp_all add: read_file_def unlink_def write_file_def file_exists_def run_simps split: option.split)

text \<open>A build that ends well marks what it built; one that fails leaves the files alone.\<close>

lemma build_step:
  assumes "tidy_tools env" "plain_platform env" "drivers_verified env t f"
  shows "drivers_verified env t (snd (try_catch
      (bindM (call_world (dn_goBuild env pkg (dest_path env b))) (\<lambda>_.
       bindM (call_world (dn_chmod env (dest_path env b))) (\<lambda>_.
       bindM (write_file (unverified_marker (dest_path env b)) ''built from source'') (\<lambda>_. ret Installed))))
      (\<lambda>_. ret Failed) f))"
proof -
  obtain r f1 where build: "dn_goBuild env pkg (dest_path env b) f = (r, f1)" by fastforce
  note tools = tidy_toolsD [OF assms(1)]
  show ?thesis
  proof (cases r)
    case (Inl e)
    then have "f1 = f" using tidy_failure [OF tools(2)] build by blast
    then show ?thesis using build Inl assms(3) by (simp add: run_simps)
  next
    case (Inr u)
    let ?f' = "f1(unverified_marker (dest_path env b) \<mapsto> ''built from source'')"
    have "drivers_verified env t ?f'"
    proof (rule drivers_verified_change [OF assms(2,3)])
      show "driver_verified env t ?f' b" by (rule marked_verified) simp
      show "?f' p = f p" if "p \<noteq> dest_path env b" "p \<noteq> unverified_marker (dest_path env b)" for p
        using that tidy_success [OF tools(2)] build Inr by simp
    qed
    then show ?thesis using build Inr by (simp add: run_simps tools(4))
  qed
qed

lemma keeps_build_fallback:
  assumes "tidy_tools env" "plain_platform env"
  shows "keeps (drivers_verified env t) (build_fallback env b)"
  unfolding keeps_def
proof (intro allI impI)
  fix f
  assume f: "drivers_verified env t f"
  obtain r f1 where go: "dn_goVersion env f = (r, f1)" by fastforce
  then have "f1 = f" using tidy_toolsD(3) [OF assms(1)] by blast
  then show "drivers_verified env t (snd (build_fallback env b f))"
    using go f build_step [OF assms f, of "driver_package b" b]
    by (cases r) (auto simp: build_fallback_def Let_def run_simps)
qed

lemma keeps_build_one:
  assumes "tidy_tools env" "plain_platform env"
  shows "keeps (drivers_verified env t) (build_one env b)"
  unfolding keeps_def
proof (intro allI impI)
  fix f
  assume "drivers_verified env t f"
  then show "drivers_verified env t (snd (build_one env b f))"
    using build_step [OF assms, of t f "driver_package b" b]
    by (auto simp: build_one_def Let_def bindM_run [of "file_exists _"] file_run ret_run)
qed

text \<open>The download: verified, marked, or removed again.\<close>

lemma keeps_install_one:
  assumes "tidy_tools env" "plain_platform env" "checksums \<in> {None, Some [], Some t}"
  shows "keeps (drivers_verified env t) (install_one env checksums b)"
  unfolding keeps_def
proof (intro allI impI)
  fix f
  assume f: "drivers_verified env t f"
  let ?d = "dest_path env b" and ?m = "unverified_marker (dest_path env b)"
  note tools = tidy_toolsD [OF assms(1)]
  have fallback: "drivers_verified env t (snd (build_fallback env b g))" if "drivers_verified env t g" for g
    by (rule keepsD [OF keeps_build_fallback [OF assms(1,2)], OF that])
  show "drivers_verified env t (snd (install_one env checksums b f))"
  proof (cases "f ?d = None")
    case False
    then show ?thesis using f by (simp add: install_one_def run_simps)
  next
    case True
    obtain r f1 where curl: "dn_curl env ?d (release_url env (asset_name env b)) f = (r, f1)" by fastforce
    show ?thesis
    proof (cases r)
      case (Inl e)
      then have "f1 = f" using tidy_failure [OF tools(1)] curl by blast
      then have "install_one env checksums b f = build_fallback env b f"
        using True curl Inl by (cases checksums) (simp_all add: install_one_def succeeds_def verify_download_def run_simps)
      then show ?thesis using fallback f by simp
    next
      case (Inr u)
      have other: "f1 p = f p" if "p \<noteq> ?d" for p using tidy_success [OF tools(1)] curl Inr that by blast
      have run: "install_one env checksums b f =
          bindM (verify_download env checksums b True)
            (\<lambda>ok. if ok then finish_download env checksums b else build_fallback env b) f1"
        using True curl Inr by (simp add: install_one_def succeeds_def run_simps)
      show ?thesis
      proof (cases "checksums = None \<or> checksums = Some []")
        case True
        let ?f' = "f1(?m \<mapsto> ''downloaded without checksum verification'')"
        have "install_one env checksums b f = (Ret Installed, ?f')"
          using True unfolding run by (auto simp: verify_download_def finish_download_def run_simps tools(4))
        moreover have "drivers_verified env t ?f'"
          by (rule drivers_verified_change [OF assms(2) f marked_verified, of _ b]) (simp_all add: other)
        ultimately show ?thesis by simp
      next
        case False
        then have t: "checksums = Some t" "t \<noteq> []" using assms(3) by auto
        show ?thesis
        proof (cases "f1 ?d")
          case None
          then have "install_one env checksums b f = (Throw (JsError ''ENOENT''), f1)"
            unfolding run using t by (simp add: verify_download_def run_simps)
          moreover have "f1 = f" using None True other by (metis ext)
          ultimately show ?thesis using f by simp
        next
          case (Some c)
          show ?thesis
          proof (cases "verify_driver_checksum (dn_sha256 env) c (asset_name env b) t")
            case True
            then have "install_one env checksums b f = (Ret Installed, f1)"
              unfolding run using t Some by (simp add: verify_download_def finish_download_def run_simps tools(4))
            moreover have "drivers_verified env t f1"
              using checked_verified [of f1 env b c t] Some True other
              by (intro drivers_verified_change [OF assms(2) f, of _ b]) simp_all
            ultimately show ?thesis by simp
          next
            case False
            then have "install_one env checksums b f = build_fallback env b (f1(?d := None))"
              unfolding run using t Some by (simp add: verify_download_def run_simps)
            moreover have "f1(?d := None) = f" using True other by auto
            ultimately show ?thesis using fallback f by simp
          qed
        qed
      qed
    qed
  qed
qed

lemma keeps_install_all:
  assumes "tidy_tools env" "plain_platform env" "checksums \<in> {None, Some [], Some t}"
  shows "keeps (drivers_verified env t) (install_all env checksums bs)"
proof (induction bs)
  case (Cons b bs)
  then show ?case using keeps_install_one [OF assms] by (auto intro!: keeps_intros)
qed (auto intro: keeps_intros)

lemma keeps_build_all:
  assumes "tidy_tools env" "plain_platform env"
  shows "keeps (drivers_verified env t) (build_all env bs)"
proof (induction bs)
  case (Cons b bs)
  then show ?case using keeps_build_one [OF assms] by (auto intro!: keeps_intros)
qed (auto intro: keeps_intros)

lemma load_manifest_state: "snd (load_manifest env f) = f"
  by (auto simp: load_manifest_def read_file_def file_exists_def run_simps split: option.split sum.split)

lemma keeps_load_manifest [keeps_intros]: "keeps P (load_manifest env)"
  by (simp add: keeps_def load_manifest_state)

lemma keeps_build_drivers:
  assumes "tidy_tools env" "plain_platform env"
  shows "keeps (drivers_verified env t) (build_drivers env target)"
proof -
  have "keeps (drivers_verified env t) (succeeds (call_world (dn_goVersion env)))"
    using tidy_toolsD(3) [OF assms(1)]
    by (auto simp: keeps_def succeeds_def run_simps split: prod.split sum.split)
  then show ?thesis
    unfolding build_drivers_def using keeps_build_all [OF assms]
    by (auto intro!: keeps_intros split: option.split)
qed

text \<open>A fetched checksums file is the published one.\<close>

definition publishes :: "driver_env \<Rightarrow> string \<Rightarrow> bool" where
  "publishes env t \<longleftrightarrow>
     (\<forall>f f'. dn_curl env (checksums_path env) (release_url env ''driver-checksums-sha256.txt'') f = (Inr (), f') \<longrightarrow>
        f' (checksums_path env) = Some t)"

lemma download_checksums_result:
  assumes "tidy_tools env" "plain_platform env" "publishes env t" "drivers_verified env t f"
    and "download_checksums env f = (r, f')"
  shows "drivers_verified env t f' \<and> (\<exists>c \<in> {None, Some [], Some t}. r = Ret c)"
proof -
  obtain x f1 where curl: "dn_curl env (checksums_path env) (release_url env ''driver-checksums-sha256.txt'') f = (x, f1)"
    by fastforce
  note tidy = tidy_toolsD(1) [OF assms(1), of "checksums_path env" "release_url env ''driver-checksums-sha256.txt''"]
  have known: "f (checksums_path env) \<in> {None, Some [], Some t}"
    using assms(4) by (simp add: drivers_verified_def checksums_known_def)
  have "drivers_verified env t f1 \<and> (x = Inr () \<longrightarrow> f1 (checksums_path env) = Some t)"
  proof (cases x)
    case (Inl e)
    then show ?thesis using tidy_failure [OF tidy] curl assms(4) by blast
  next
    case (Inr u)
    then have f1: "f1 (checksums_path env) = Some t" using assms(3) curl by (auto simp: publishes_def)
    have "f1 p = f p" if "p \<noteq> checksums_path env" for p using tidy_success [OF tidy] curl Inr that by blast
    then show ?thesis
      using assms(4) f1 path_distinct(2,3) [OF assms(2)]
      by (simp add: drivers_verified_def driver_verified_def checksums_known_def)
  qed
  then show ?thesis
    using assms(4,5) curl known
    by (cases "f (checksums_path env)"; cases x) (auto simp: download_checksums_def run_simps)
qed

lemma keeps_install_drivers:
  assumes "tidy_tools env" "plain_platform env" "publishes env t"
  shows "keeps (drivers_verified env t) (install_drivers env target)"
proof -
  have "keeps (drivers_verified env t)
    (bindM (download_checksums env) (\<lambda>checksums. install_all env checksums bs))" for bs
    unfolding keeps_def
  proof (intro allI impI)
    fix f
    assume f: "drivers_verified env t f"
    obtain r g where dl: "download_checksums env f = (r, g)" by fastforce
    from download_checksums_result [OF assms f this] obtain c
      where g: "drivers_verified env t g" and c: "r = Ret c" "c \<in> {None, Some [], Some t}" by blast
    have "drivers_verified env t (snd (install_all env c bs g))"
      by (rule keepsD [OF keeps_install_all [OF assms(1,2) c(2)], OF g])
    then show "drivers_verified env t
      (snd (bindM (download_checksums env) (\<lambda>checksums. install_all env checksums bs) f))"
      using dl c(1) by (simp add: run_simps)
  qed
  then show ?thesis
    unfolding install_drivers_def by (auto intro!: keeps_intros split: option.split)
qed

section \<open>Sequences of commands\<close>

datatype driver_command =
  InstallCommand string | BuildCommand string | CleanCommand "(string \<times> bool) list"

text \<open>Names of directories, and the version, have no slash: cleaning leaves the current version alone.\<close>

definition plain_names :: "driver_env \<Rightarrow> (string \<times> bool) list \<Rightarrow> bool" where
  "plain_names env entries \<longleftrightarrow> CHR ''/'' \<notin> set (dn_version env) \<and> (\<forall>(v, d) \<in> set entries. CHR ''/'' \<notin> set v)"

lemma prefix_slash:
  "CHR ''/'' \<notin> set v \<Longrightarrow> CHR ''/'' \<notin> set w \<Longrightarrow> prefix (v @ ''/'') (w @ ''/'' @ r) \<Longrightarrow> v = w"
proof (induction v arbitrary: w)
  case Nil
  then show ?case by (cases w) auto
next
  case (Cons c v)
  then show ?case by (cases w) auto
qed

lemma clean_current:
  assumes "plain_names env entries"
  shows "clean_drivers env entries f (path_join (drivers_dir env) n) = f (path_join (drivers_dir env) n)"
proof -
  let ?p = "path_join (drivers_dir env) n"
  have one: "remove_dir (path_join (dn_base env) v) g ?p = g ?p" if "v \<in> set (versions_to_clean (dn_version env) entries)" for v g
  proof -
    have "v \<noteq> dn_version env" "CHR ''/'' \<notin> set v" "CHR ''/'' \<notin> set (dn_version env)"
      using that assms by (auto simp: versions_to_clean_def versions_in_def plain_names_def)
    then have "\<not> prefix (v @ ''/'') (dn_version env @ ''/'' @ n)" using prefix_slash by blast
    then show ?thesis by (auto simp: remove_dir_def path_join_def drivers_dir_def starts_with_def)
  qed
  have "fold (\<lambda>v. remove_dir (path_join (dn_base env) v)) vs f ?p = f ?p"
    if "set vs \<subseteq> set (versions_to_clean (dn_version env) entries)" for vs
    using that by (induction vs arbitrary: f) (simp_all add: one)
  then show ?thesis by (simp add: clean_drivers_def)
qed

lemma clean_drivers_verified:
  assumes "plain_names env entries" "drivers_verified env t f"
  shows "drivers_verified env t (clean_drivers env entries f)"
proof -
  have marker: "unverified_marker (path_join d x) = path_join d (x @ ''.unverified'')" for d x
    by (simp add: unverified_marker_def path_join_def)
  show ?thesis
    using assms(2) clean_current [OF assms(1)]
    unfolding drivers_verified_def driver_verified_def checksums_known_def checksums_path_def dest_path_def marker
    by simp
qed

fun run_command :: "driver_env \<Rightarrow> driver_command \<Rightarrow> files \<Rightarrow> files" where
  "run_command env (InstallCommand target) f = snd (install_drivers env target f)"
| "run_command env (BuildCommand target) f = snd (build_drivers env target f)"
| "run_command env (CleanCommand entries) f = clean_drivers env entries f"

fun plain_command :: "driver_env \<Rightarrow> driver_command \<Rightarrow> bool" where
  "plain_command env (CleanCommand entries) = plain_names env entries"
| "plain_command env c = True"

lemma run_commands_verified:
  assumes "tidy_tools env" "plain_platform env" "publishes env t" "list_all (plain_command env) cs"
    and "drivers_verified env t f"
  shows "drivers_verified env t (fold (run_command env) cs f)"
  using assms(4,5)
proof (induction cs arbitrary: f)
  case (Cons c cs)
  then have "drivers_verified env t (run_command env c f)"
    using keepsD [OF keeps_install_drivers [OF assms(1-3)]] keepsD [OF keeps_build_drivers [OF assms(1,2)]]
      clean_drivers_verified
    by (cases c) simp_all
  then show ?case using Cons by simp
qed simp

text \<open>Neither a driver of this platform nor the checksums are there.\<close>

definition no_drivers :: "driver_env \<Rightarrow> files \<Rightarrow> bool" where
  "no_drivers env f \<longleftrightarrow> f (checksums_path env) = None \<and> (\<forall>binary. f (dest_path env binary) = None)"

lemma no_drivers_verified: "no_drivers env f \<Longrightarrow> drivers_verified env t f"
  by (simp add: no_drivers_def drivers_verified_def driver_verified_def checksums_known_def)

end
