(* ===== verification/Postinstall.thy ===== *)
theory Postinstall
  imports DriverTrust Json JsRegex
begin

text \<open>
  The installation script (\<open>scripts/postinstall.js\<close>): the sidecar binary is downloaded and
  its checksum verified, or it is built from source; then the drivers that the user's
  configuration needs are downloaded. Downloads, the Go tools and the hash function are
  parameters on the map of files. Console output is left out.
\<close>

section \<open>Names and checksums\<close>

definition get_platform_key :: "string \<Rightarrow> string \<Rightarrow> string option" where
  "get_platform_key platform arch =
     (case (platform_name platform, arch_name arch) of
        (Some p, Some a) \<Rightarrow> Some (p @ ''-'' @ a) | _ \<Rightarrow> None)"

definition get_binary_name :: "string \<Rightarrow> string" where
  "get_binary_name platformKey =
     (if starts_with platformKey ''windows'' then ''omnibase-sidecar-'' @ platformKey @ ''.exe''
      else ''omnibase-sidecar-'' @ platformKey)"

record install_env =
  pi_platform :: string
  pi_arch :: string
  pi_version :: string
  pi_binDir :: string
  pi_driversDir :: string
  pi_configPaths :: "string list"
  pi_download :: "string \<Rightarrow> string \<Rightarrow> (files, unit) effect"  \<comment> \<open>address and destination\<close>
  pi_downloadText :: "string \<Rightarrow> (files, string) effect"
  pi_goVersion :: "(files, unit) effect"
  pi_goBuild :: "string \<Rightarrow> (files, unit) effect"  \<comment> \<open>destination\<close>
  pi_sha256 :: "string \<Rightarrow> string"

definition local_binary_path :: "install_env \<Rightarrow> string" where
  "local_binary_path env =
     path_join (pi_binDir env) (if pi_platform env = ''win32'' then ''omnibase-sidecar.exe'' else ''omnibase-sidecar'')"

definition version_file :: "install_env \<Rightarrow> string" where
  "version_file env = path_join (pi_binDir env) ''.sidecar-version''"

definition get_installed_version :: "install_env \<Rightarrow> files \<Rightarrow> string option" where
  "get_installed_version env f = map_option trim (f (version_file env))"

definition write_installed_version :: "install_env \<Rightarrow> (files, unit) io" where
  "write_installed_version env = write_file (version_file env) (pi_version env)"

text \<open>The checksum functions of the script agree with those of the command.\<close>

abbreviation get_expected_checksum :: "string \<Rightarrow> string \<Rightarrow> string option" where
  "get_expected_checksum \<equiv> expected_hash"

abbreviation verify_checksum :: "(string \<Rightarrow> string) \<Rightarrow> string \<Rightarrow> string \<Rightarrow> bool" where
  "verify_checksum sha256 content expectedHash \<equiv> sha256 content = expectedHash"

definition asset_url :: "install_env \<Rightarrow> string \<Rightarrow> string" where
  "asset_url env asset =
     ''https://github.com/itsJeremyMax/omnibase/releases/download/omnibase-mcp-v'' @ pi_version env @ ''/'' @ asset"

text \<open>\<open>chmodSync\<close>: it throws when there is no such file.\<close>

definition chmod_file :: "string \<Rightarrow> (files, unit) io" where
  "chmod_file path = bindM (read_file path) (\<lambda>_. ret ())"

section \<open>Drivers that the configuration needs\<close>

text \<open>\<open>/dsn:\s*["']?(\w+):/g\<close>\<close>

definition dsn_rx :: rx where
  "dsn_rx = seq_rx [lit ''dsn:'', Star True (Cls is_space), opt_rx (Cls (\<lambda>c. c = CHR 0x22 \<or> c = CHR 0x27)),
     Grp 1 (plus_rx True (Cls is_word)), lit '':'']"

definition dsn_schemes :: "string \<Rightarrow> string list" where
  "dsn_schemes content =
     js_uniq (List.map_filter (\<lambda>t. case t of Chr c \<Rightarrow> None
         | Mat m cs \<Rightarrow> map_option to_lower (map_of cs 1)) (rx_tokens dsn_rx [] content))"

text \<open>The manifest: \<open>Object.entries(JSON.parse(text).drivers)\<close>.\<close>

definition manifest_entry :: "string \<times> jsval \<Rightarrow> (string \<times> driver_entry) result" where
  "manifest_entry = (\<lambda>(name, e).
     case js_prop e ''schemes'' of
       JArr vs \<Rightarrow> Inr (name, \<lparr>de_binary = js_string (js_prop e ''binary''), de_schemes = map js_string vs\<rparr>)
     | _ \<Rightarrow> Inl (JsError ''entry.schemes is not iterable''))"

definition parse_manifest :: "string \<Rightarrow> manifest result" where
  "parse_manifest txt =
     (case json_parse txt of
        None \<Rightarrow> Inl (JsError ''Unexpected token in JSON'')
      | Some v \<Rightarrow> (case js_prop v ''drivers'' of
          JObj kvs \<Rightarrow> mapR manifest_entry kvs
        | _ \<Rightarrow> Inl (JsError ''Cannot convert undefined or null to object'')))"

definition needed_drivers :: "manifest \<Rightarrow> string list \<Rightarrow> string list" where
  "needed_drivers manifest schemes =
     js_uniq (map (\<lambda>(_, e). de_binary e)
       (List.filter (\<lambda>(_, e). list_ex (\<lambda>s. s \<in> set schemes) (de_schemes e)) manifest))"

definition driver_dest :: "install_env \<Rightarrow> string \<Rightarrow> string \<Rightarrow> string" where
  "driver_dest env key binary = path_join (pi_driversDir env) (binary @ ''-'' @ key)"

text \<open>An empty hash counts as none.\<close>

definition download_driver :: "install_env \<Rightarrow> string \<Rightarrow> string \<Rightarrow> string \<Rightarrow> (files, unit) io" where
  "download_driver env key checksumsText binary =
     (let asset = binary @ ''-'' @ key; dest = driver_dest env key binary in
      bindM (file_exists dest) (\<lambda>e.
      if e then ret ()
      else bindM (succeeds (call_world (pi_download env (asset_url env asset) dest))) (\<lambda>downloaded.
        if \<not> downloaded then ret ()
        else (case nonempty (get_expected_checksum checksumsText asset) of
            None \<Rightarrow> unlink dest
          | Some h \<Rightarrow>
              bindM (read_file dest) (\<lambda>content.
              if \<not> verify_checksum (pi_sha256 env) content h then unlink dest else chmod_file dest)))))"

fun download_each :: "install_env \<Rightarrow> string \<Rightarrow> string \<Rightarrow> string list \<Rightarrow> (files, unit) io" where
  "download_each env key t [] = ret ()"
| "download_each env key t (b # bs) = bindM (download_driver env key t b) (\<lambda>_. download_each env key t bs)"

definition first_config :: "install_env \<Rightarrow> files \<Rightarrow> string option" where
  "first_config env f = (case List.map_filter f (pi_configPaths env) of [] \<Rightarrow> None | c # _ \<Rightarrow> Some c)"

definition manifest_path :: "install_env \<Rightarrow> string" where
  "manifest_path env = path_join (pi_driversDir env) ''drivers.json''"

definition driver_checksums_path :: "install_env \<Rightarrow> string" where
  "driver_checksums_path env = path_join (pi_driversDir env) ''driver-checksums-sha256.txt''"

definition download_drivers :: "install_env \<Rightarrow> (files, unit) io" where
  "download_drivers env =
     bindM (gets (first_config env)) (\<lambda>config.
     case nonempty config of
       None \<Rightarrow> ret ()
     | Some content \<Rightarrow>
         if dsn_schemes content = [] then ret ()
         else bindM (succeeds (call_world (pi_download env (asset_url env ''drivers.json'') (manifest_path env)))) (\<lambda>ok.
           if \<not> ok then ret ()
           else bindM (read_file (manifest_path env)) (\<lambda>txt.
             bindM (liftR (parse_manifest txt)) (\<lambda>manifest.
             bindM (succeeds (call_world (pi_download env (asset_url env ''driver-checksums-sha256.txt'')
               (driver_checksums_path env)))) (\<lambda>ok'.
             if \<not> ok' then ret ()
             else bindM (read_file (driver_checksums_path env)) (\<lambda>checksums.
               case get_platform_key (pi_platform env) (pi_arch env) of
                 None \<Rightarrow> ret ()
               | Some key \<Rightarrow> download_each env key checksums (needed_drivers manifest (dsn_schemes content))))))))"

section \<open>The sidecar binary\<close>

text \<open>\<open>process.exit(1)\<close> ends the run; no handler of the script sees it where it is called.\<close>

definition process_exit :: error where
  "process_exit = JsError ''process.exit(1)''"

definition remove_stale :: "install_env \<Rightarrow> (files, unit) io" where
  "remove_stale env =
     (let p = local_binary_path env in
      bindM (file_exists p) (\<lambda>e.
      bindM (gets (get_installed_version env)) (\<lambda>v.
      if e \<and> nonempty v \<noteq> None \<and> v \<noteq> Some (pi_version env) then unlink p
      else if e \<and> nonempty v = None then unlink p
      else ret ())))"

text \<open>The verification of a downloaded binary: it ends the process unless the checksum agrees.\<close>

definition verify_binary :: "install_env \<Rightarrow> string \<Rightarrow> (files, unit) io" where
  "verify_binary env asset =
     (let p = local_binary_path env; give_up = bindM (unlink p) (\<lambda>_. throw process_exit) in
      bindM (try_catch
          (bindM (call_world (pi_downloadText env (asset_url env ''checksums-sha256.txt''))) (\<lambda>t. ret (Some t)))
          (\<lambda>_. ret None)) (\<lambda>checksums.
      case checksums of
        None \<Rightarrow> give_up
      | Some t \<Rightarrow>
          (case nonempty (get_expected_checksum t asset) of
             None \<Rightarrow> give_up
           | Some h \<Rightarrow> bindM (read_file p) (\<lambda>content. if \<not> verify_checksum (pi_sha256 env) content h then give_up else ret ()))))"

definition build_binary :: "install_env \<Rightarrow> (files, unit) io" where
  "build_binary env =
     try_catch
       (bindM (call_world (pi_goVersion env)) (\<lambda>_.
        bindM (call_world (pi_goBuild env (path_join (pi_binDir env) ''omnibase-sidecar''))) (\<lambda>_.
        bindM (chmod_file (local_binary_path env)) (\<lambda>_.
        bindM (write_installed_version env) (\<lambda>_. download_drivers env)))))
       (\<lambda>_. ret ())"

definition postinstall :: "install_env \<Rightarrow> (files, unit) io" where
  "postinstall env =
     (let p = local_binary_path env in
      bindM (file_exists p) (\<lambda>e.
      bindM (gets (get_installed_version env)) (\<lambda>v.
      if e \<and> v = Some (pi_version env) then ret ()
      else bindM (remove_stale env) (\<lambda>_.
        case get_platform_key (pi_platform env) (pi_arch env) of
          None \<Rightarrow> build_binary env
        | Some key \<Rightarrow>
            bindM (succeeds (call_world (pi_download env (asset_url env (get_binary_name key)) p))) (\<lambda>downloaded.
            if downloaded then
              bindM (verify_binary env (get_binary_name key)) (\<lambda>_.
              bindM (chmod_file p) (\<lambda>_.
              bindM (write_installed_version env) (\<lambda>_. download_drivers env)))
            else build_binary env)))))"

section \<open>Only verified binaries\<close>

text \<open>
  The downloads change nothing but their destination and leave nothing behind when they
  fail; the drivers live elsewhere than the binary; the Go tools are not there.
\<close>

definition download_only :: "install_env \<Rightarrow> bool" where
  "download_only env \<longleftrightarrow>
     (\<forall>url dest. tidy (pi_download env url dest) dest) \<and>
     (\<forall>url f. snd (pi_downloadText env url f) = f) \<and>
     (\<forall>f. \<exists>e. pi_goVersion env f = (Inl e, f)) \<and>
     (\<forall>n. path_join (pi_driversDir env) n \<noteq> local_binary_path env)"

lemma version_file_distinct: "version_file env \<noteq> local_binary_path env"
  by (simp add: version_file_def local_binary_path_def path_join_def)

text \<open>What leaves the binary as it is.\<close>

definition binary_is :: "install_env \<Rightarrow> string option \<Rightarrow> files \<Rightarrow> bool" where
  "binary_is env b f \<longleftrightarrow> f (local_binary_path env) = b"

lemma keeps_binary_download:
  assumes "download_only env"
  shows "keeps (binary_is env b) (succeeds (call_world (pi_download env url (path_join (pi_driversDir env) n))))"
  unfolding keeps_def
proof (intro allI impI)
  fix f
  assume f: "binary_is env b f"
  let ?d = "path_join (pi_driversDir env) n"
  have tidy: "tidy (pi_download env url ?d) ?d" and ne: "?d \<noteq> local_binary_path env"
    using assms by (simp_all add: download_only_def)
  obtain r f1 where run: "pi_download env url ?d f = (r, f1)" by fastforce
  then have "f1 (local_binary_path env) = f (local_binary_path env)"
    using tidy_failure [OF tidy] tidy_success [OF tidy] ne by (cases r) auto
  then show "binary_is env b (snd (succeeds (call_world (pi_download env url ?d)) f))"
    using run f by (cases r) (simp_all add: succeeds_def run_simps binary_is_def)
qed

lemma keeps_binary_files:
  "keeps P (read_file p)" "keeps P (file_exists p)" "keeps P (chmod_file p)"
  "p \<noteq> local_binary_path env \<Longrightarrow> keeps (binary_is env b) (unlink p)"
  "p \<noteq> local_binary_path env \<Longrightarrow> keeps (binary_is env b) (write_file p c)"
  unfolding chmod_file_def
  by (auto simp: keeps_def run_simps binary_is_def split: option.split)

lemma keeps_binary_drivers:
  assumes "download_only env"
  shows "keeps (binary_is env b) (download_drivers env)"
proof -
  have ne: "path_join (pi_driversDir env) n \<noteq> local_binary_path env" for n
    using assms by (simp add: download_only_def)
  have one: "keeps (binary_is env b) (download_driver env key t binary)" for key t binary
    unfolding download_driver_def Let_def driver_dest_def
    by (auto intro!: keeps_intros keeps_binary_download [OF assms] keeps_binary_files ne split: option.split)
  have each: "keeps (binary_is env b) (download_each env key t bs)" for key t bs
    by (induction bs) (auto intro!: keeps_intros one)
  show ?thesis
    unfolding download_drivers_def manifest_path_def driver_checksums_path_def
    by (auto intro!: keeps_intros keeps_binary_download [OF assms] keeps_binary_files each split: option.split)
qed

lemma build_binary_without_go: "download_only env \<Longrightarrow> build_binary env f = (Ret (), f)"
  by (auto simp: download_only_def build_binary_def run_simps dest: spec [of _ f])

lemma remove_stale_binary:
  assumes "remove_stale env f = (r, f')" "\<not> (f (local_binary_path env) \<noteq> None \<and> get_installed_version env f = Some (pi_version env))"
  shows "r = Ret () \<and> f' (local_binary_path env) = None"
  using assms
  by (auto simp: remove_stale_def Let_def run_simps nonempty_def split: option.splits if_splits)

lemma verify_binary_run:
  assumes "download_only env" "verify_binary env asset f = (r, f')"
  shows "f' (local_binary_path env) = None \<or>
    (r = Ret () \<and> f' = f \<and> (\<exists>t c. pi_downloadText env (asset_url env ''checksums-sha256.txt'') f = (Inr t, f) \<and>
       f (local_binary_path env) = Some c \<and> expected_hash t asset = Some (pi_sha256 env c)))"
proof -
  obtain x f1 where t: "pi_downloadText env (asset_url env ''checksums-sha256.txt'') f = (x, f1)" by fastforce
  then have "f1 = f" using assms(1) unfolding download_only_def by (metis snd_conv)
  then show ?thesis
    using assms(2) t
    by (auto simp: verify_binary_def Let_def run_simps nonempty_def split: sum.splits option.splits if_splits)
qed

lemma postinstall_verified:
  assumes env: "download_only env" and run: "postinstall env f = (r, f')" and c: "f' (local_binary_path env) = Some c"
  shows "(f' = f \<and> get_installed_version env f = Some (pi_version env)) \<or>
     (\<exists>key t g. get_platform_key (pi_platform env) (pi_arch env) = Some key \<and>
        pi_downloadText env (asset_url env ''checksums-sha256.txt'') g = (Inr t, g) \<and>
        expected_hash t (get_binary_name key) = Some (pi_sha256 env c))"
proof (cases "f (local_binary_path env) \<noteq> None \<and> get_installed_version env f = Some (pi_version env)")
  case True
  then show ?thesis using run by (simp add: postinstall_def Let_def run_simps)
next
  case False
  let ?p = "local_binary_path env"
  obtain r1 f1 where stale: "remove_stale env f = (r1, f1)" by fastforce
  from remove_stale_binary [OF this False] have r1: "r1 = Ret ()" and f1: "f1 ?p = None" by simp_all
  note after = run [unfolded postinstall_def Let_def bindM_run [of "file_exists _"] bindM_run [of "gets _"]
      bindM_run [of "remove_stale _"] file_run gets_run prod.case outcome.case
      if_not_P [OF False] stale r1]
  show ?thesis
  proof (cases "get_platform_key (pi_platform env) (pi_arch env)")
    case None
    then have "f' = f1"
      using after build_binary_without_go [OF env, of f1] by simp
    then show ?thesis using c f1 by simp
  next
    case (Some key)
    let ?asset = "get_binary_name key"
    obtain x f2 where dl: "pi_download env (asset_url env ?asset) ?p f1 = (x, f2)" by fastforce
    have rest: "(if (\<exists>u. x = Inr u) then
          bindM (verify_binary env ?asset) (\<lambda>_. bindM (chmod_file ?p) (\<lambda>_.
          bindM (write_installed_version env) (\<lambda>_. download_drivers env))) f2
        else build_binary env f2) = (r, f')"
    proof -
      have "succeeds (call_world (pi_download env (asset_url env ?asset) ?p)) f1 = (Ret (\<exists>u. x = Inr u), f2)"
        using dl by (cases x) (simp_all add: run_simps succeeds_def)
      then show ?thesis using after Some by (cases x) (simp_all add: bindM_run [of "succeeds _"])
    qed
    show ?thesis
    proof (cases x)
      case (Inl e)
      then have "f2 = f1" using dl env tidy_failure unfolding download_only_def by metis
      moreover have "f' = f2" using rest Inl build_binary_without_go [OF env, of f2] by simp
      ultimately show ?thesis using c f1 by simp
    next
      case (Inr u)
      obtain r3 f3 where ver: "verify_binary env ?asset f2 = (r3, f3)" by fastforce
      have tail: "keeps (binary_is env b) (bindM (chmod_file ?p) (\<lambda>_.
          bindM (write_installed_version env) (\<lambda>_. download_drivers env)))" for b
        unfolding write_installed_version_def
        by (auto intro!: keeps_intros keeps_binary_files keeps_binary_drivers [OF env] version_file_distinct)
      have same: "f' ?p = f3 ?p"
      proof (cases r3)
        case (Ret v)
        then have "f' = snd (bindM (chmod_file ?p) (\<lambda>_. bindM (write_installed_version env) (\<lambda>_. download_drivers env)) f3)"
          using rest Inr ver by (simp add: bindM_run [of "verify_binary _ _"])
        moreover have "binary_is env (f3 ?p) f3" by (simp add: binary_is_def)
        ultimately show ?thesis using keepsD [OF tail, of "f3 ?p" f3] by (simp add: binary_is_def)
      qed (use rest Inr ver in \<open>simp_all add: bindM_run [of "verify_binary _ _"]\<close>)
      from verify_binary_run [OF env ver] show ?thesis
      proof
        assume "f3 ?p = None"
        then show ?thesis using same c by simp
      next
        assume "r3 = Ret () \<and> f3 = f2 \<and> (\<exists>t c. pi_downloadText env (asset_url env ''checksums-sha256.txt'') f2 = (Inr t, f2) \<and>
          f2 ?p = Some c \<and> expected_hash t ?asset = Some (pi_sha256 env c))"
        then show ?thesis using same c Some by auto
      qed
    qed
  qed
qed

end
