(* ===== verification/Upgrade.thy ===== *)
theory Upgrade
  imports Versions JsRegex ConfigLoader
begin

text \<open>
  The command \<open>upgrade\<close> (\<open>src/cli/upgrade.ts\<close>): the changelog between two versions, the
  way the program was installed, and the run of the command. The registry, the changelog
  server, the installer and the colours of the terminal are parameters.
\<close>

section \<open>The changelog\<close>

record changelog_section =
  cls_heading :: string
  cls_items :: "string list"

record changelog_entry =
  che_version :: string
  che_date :: string
  che_sections :: "changelog_section list"

text \<open>\<open>.\<close> is any character but the ends of lines.\<close>

definition dot_rx :: rx where
  "dot_rx = Cls (\<lambda>c. c \<noteq> CHR 0x0A \<and> c \<noteq> CHR 0x0D)"

abbreviation digits_rx :: rx where
  "digits_rx \<equiv> plus_rx True (Cls is_digit)"

abbreviation digit_rx :: rx where
  "digit_rx \<equiv> Cls is_digit"

text \<open>\<open>/^## \[(\d+\.\d+\.\d+)\].*?\((\d{4}-\d{2}-\d{2})\)/\<close>\<close>

definition version_header_rx :: rx where
  "version_header_rx = seq_rx
     [Bol, lit ''## ['', Grp 1 (seq_rx [digits_rx, lit ''.'', digits_rx, lit ''.'', digits_rx]), lit '']'',
      Star False dot_rx, lit ''('',
      Grp 2 (seq_rx [digit_rx, digit_rx, digit_rx, digit_rx, lit ''-'', digit_rx, digit_rx, lit ''-'', digit_rx, digit_rx]),
      lit '')'']"

text \<open>\<open>/^### (.+)/\<close>\<close>

definition section_rx :: rx where
  "section_rx = seq_rx [Bol, lit ''### '', Grp 1 (plus_rx True dot_rx)]"

text \<open>\<open>/\s*\(\[[a-f0-9]+\]\([^)]+\)\)$/\<close>\<close>

definition commit_link_rx :: rx where
  "commit_link_rx = seq_rx
     [Star True (Cls is_space), lit ''(['', plus_rx True (Cls (\<lambda>c. is_digit c \<or> c \<in> set ''abcdef'')), lit ''](''
      , plus_rx True (Cls (\<lambda>c. c \<noteq> CHR '')'')), lit ''))'', Eol]"

text \<open>The entries that are finished, the open entry and its open section.\<close>

record changelog_state =
  clg_entries :: "changelog_entry list"
  clg_entry :: "changelog_entry option"
  clg_section :: "changelog_section option"

definition close_section :: "changelog_state \<Rightarrow> changelog_state" where
  "close_section st =
     (case (clg_entry st, clg_section st) of
        (Some e, Some s) \<Rightarrow> st\<lparr>clg_entry := Some (e\<lparr>che_sections := che_sections e @ [s]\<rparr>)\<rparr>
      | _ \<Rightarrow> st)"

definition close_entry :: "changelog_state \<Rightarrow> changelog_state" where
  "close_entry st =
     (let st1 = close_section st in
      case clg_entry st1 of None \<Rightarrow> st1 | Some e \<Rightarrow> st1\<lparr>clg_entries := clg_entries st1 @ [e]\<rparr>)"

definition changelog_item :: "string \<Rightarrow> string" where
  "changelog_item line = trim (rx_remove commit_link_rx (drop 2 line))"

definition changelog_line :: "string \<Rightarrow> changelog_state \<Rightarrow> changelog_state" where
  "changelog_line line st =
     (case rx_groups version_header_rx line of
        Some m \<Rightarrow> (close_entry st)\<lparr>clg_entry := Some \<lparr>che_version = or_else (group_of 1 m) [],
            che_date = or_else (group_of 2 m) [], che_sections = []\<rparr>, clg_section := None\<rparr>
      | None \<Rightarrow>
          if clg_entry st = None then st
          else (case rx_groups section_rx line of
             Some m \<Rightarrow> (close_section st)\<lparr>clg_section := Some \<lparr>cls_heading = or_else (group_of 1 m) [], cls_items = []\<rparr>\<rparr>
           | None \<Rightarrow>
               (case clg_section st of
                  None \<Rightarrow> st
                | Some s \<Rightarrow>
                    if starts_with line ''* '' \<and> changelog_item line \<noteq> []
                    then st\<lparr>clg_section := Some (s\<lparr>cls_items := cls_items s @ [changelog_item line]\<rparr>)\<rparr>
                    else st)))"

definition changelog_entries :: "string \<Rightarrow> changelog_entry list" where
  "changelog_entries txt =
     clg_entries (close_entry (fold changelog_line (split_char CHR 0x0A txt)
       \<lparr>clg_entries = [], clg_entry = None, clg_section = None\<rparr>))"

definition parse_changelog :: "string \<Rightarrow> string \<Rightarrow> string \<Rightarrow> changelog_entry list" where
  "parse_changelog changelogText fromVersion toVersion =
     (if trim changelogText = [] then []
      else
        let up = compare_versions fromVersion toVersion < 0;
            lower = (if up then fromVersion else toVersion);
            upper = (if up then toVersion else fromVersion) in
        if lower = upper then []
        else List.filter (\<lambda>e. compare_versions (che_version e) lower > 0 \<and> compare_versions (che_version e) upper \<le> 0)
          (changelog_entries changelogText))"

definition entry_lines :: "changelog_entry \<Rightarrow> string list" where
  "entry_lines e =
     (''  '' @ che_version e @ '' ('' @ che_date e @ '')'') #
     concat (map (\<lambda>s. (''    '' @ cls_heading s) # map (\<lambda>i. ''    - '' @ i) (cls_items s)) (che_sections e)) @ [[]]"

definition format_changelog :: "changelog_entry list \<Rightarrow> bool \<Rightarrow> string" where
  "format_changelog entries isDowngrade =
     (if entries = [] then []
      else join [CHR 0x0A]
        ([''  '' @ (if isDowngrade then ''Changes being rolled back:'' else ''What'' @ [CHR 0x27] @ ''s new:''), []] @
         concat (map entry_lines entries) @
         [''  Full release notes: https://github.com/itsJeremyMax/omnibase/releases'']))"

section \<open>How the program was installed\<close>

datatype install_method = GlobalInstall | NpxInstall string | LocalInstall string

definition install_command :: "string \<Rightarrow> string" where
  "install_command version = ''npm install -g omnibase-mcp@'' @ version"

definition detect_install_method :: "string \<Rightarrow> string \<Rightarrow> install_method" where
  "detect_install_method scriptPath npmPrefix =
     (if str_includes scriptPath ''_npx'' then
        NpxInstall (''You'' @ [CHR 0x27] @ ''re running via npx, which fetches the latest version on demand.'' @ [CHR 0x0A] @
          ''  To pin a specific version: npx omnibase-mcp@<version>'')
      else if starts_with scriptPath npmPrefix then GlobalInstall
      else LocalInstall (''omnibase-mcp is installed as a local dependency.'' @ [CHR 0x0A] @
          ''  Update the version in your package.json and run '' @ [CHR 0x22] @ ''npm install'' @ [CHR 0x22] @ ''.''))"

section \<open>The run of the command\<close>

record upgrade_options =
  uo_dryRun :: bool
  uo_version :: "string option"
  uo_allowMajor :: bool

record 'w upgrade_deps =
  up_currentVersion :: string
  up_fetchLatestVersion :: "('w, string) effect"
  up_fetchVersionExists :: "string \<Rightarrow> ('w, bool) effect"
  up_fetchChangelog :: "string \<Rightarrow> ('w, string) effect"
  up_detectInstall :: install_method
  up_execInstall :: "string \<Rightarrow> ('w, unit) effect"
  up_verifyInstall :: "('w, string) effect"
  up_paint :: "string \<Rightarrow> string \<Rightarrow> string"

record 'w upgrade_run =
  ug_world :: 'w
  ug_log :: "string list"

definition call_upgrade :: "('w, 'a) effect \<Rightarrow> ('w upgrade_run, 'a) io" where
  "call_upgrade f = (\<lambda>s. case f (ug_world s) of
       (Inr a, w) \<Rightarrow> (Ret a, s\<lparr>ug_world := w\<rparr>)
     | (Inl e, w) \<Rightarrow> (Throw e, s\<lparr>ug_world := w\<rparr>))"

definition log_message :: "string \<Rightarrow> ('w upgrade_run, unit) io" where
  "log_message msg = modify (\<lambda>s. s\<lparr>ug_log := ug_log s @ [msg]\<rparr>)"

text \<open>The target version, or nothing after a message.\<close>

definition resolve_target :: "upgrade_options \<Rightarrow> 'w upgrade_deps \<Rightarrow> ('w upgrade_run, string option) io" where
  "resolve_target options deps =
     try_catch
       (case nonempty (uo_version options) of
          Some v \<Rightarrow>
            bindM (call_upgrade (up_fetchVersionExists deps v)) (\<lambda>exists.
            if \<not> exists then
              bindM (log_message (''  Version '' @ v @ '' not found on npm.'' @ [CHR 0x0A] @
                ''  Run `omnibase-mcp upgrade --dry-run` to see the latest available version.'')) (\<lambda>_. ret None)
            else ret (Some v))
        | None \<Rightarrow> bindM (call_upgrade (up_fetchLatestVersion deps)) (\<lambda>v. ret (Some v)))
       (\<lambda>_. bindM (log_message ''  Could not reach the npm registry. Check your internet connection.'')
          (\<lambda>_. ret None))"

definition announce :: "upgrade_options \<Rightarrow> 'w upgrade_deps \<Rightarrow> string \<Rightarrow> bool \<Rightarrow> ('w upgrade_run, unit) io" where
  "announce options deps target isDowngrade =
     bindM (log_message (''  Current: '' @ up_currentVersion deps)) (\<lambda>_.
     bindM (log_message
       (if nonempty (uo_version options) \<noteq> None
        then ''  Target:  '' @ target @ (if isDowngrade then '' (downgrade)'' else [])
        else ''  Latest:  '' @ target)) (\<lambda>_.
     log_message []))"

definition show_changelog :: "'w upgrade_deps \<Rightarrow> string \<Rightarrow> bool \<Rightarrow> ('w upgrade_run, unit) io" where
  "show_changelog deps target isDowngrade =
     try_catch
       (bindM (call_upgrade (up_fetchChangelog deps target)) (\<lambda>changelogText.
        let formatted = format_changelog (parse_changelog changelogText (up_currentVersion deps) target) isDowngrade in
        if changelogText \<noteq> [] \<and> formatted \<noteq> []
        then bindM (log_message formatted) (\<lambda>_. log_message []) else ret ()))
       (\<lambda>_. ret ())"

definition install_target :: "'w upgrade_deps \<Rightarrow> string \<Rightarrow> ('w upgrade_run, unit) io" where
  "install_target deps target =
     (let command = install_command target in
      bindM (log_message (''  Installing omnibase-mcp@'' @ target @ ''...'')) (\<lambda>_.
      try_catch
        (bindM (call_upgrade (up_execInstall deps command)) (\<lambda>_.
         bindM (call_upgrade (up_verifyInstall deps)) (\<lambda>installed.
         log_message
           (if installed = target
            then [CHR 0x0A] @ ''  '' @ up_paint deps ''green'' ''Updated successfully'' @ '' to v'' @ target
            else [CHR 0x0A] @ ''  '' @ up_paint deps ''yellow'' ''Warning:'' @ '' expected v'' @ target @ '' but found v''
              @ installed @ ''.'' @ [CHR 0x0A] @ ''  You may need to restart your terminal or check your PATH.''))))
        (\<lambda>_. log_message ([CHR 0x0A] @ ''  '' @ up_paint deps ''red'' ''Update failed.'' @
           '' You can try manually: '' @ command))))"

text \<open>From the announcement on, for a target that is not the current version.\<close>

definition proceed :: "upgrade_options \<Rightarrow> 'w upgrade_deps \<Rightarrow> string \<Rightarrow> ('w upgrade_run, unit) io" where
  "proceed options deps target =
     (let isDowngrade = compare_versions target (up_currentVersion deps) < 0 in
      bindM (announce options deps target isDowngrade) (\<lambda>_.
      bindM (show_changelog deps target isDowngrade) (\<lambda>_.
      if uo_dryRun options then
        log_message (''  Run `'' @ (if nonempty (uo_version options) \<noteq> None
          then ''omnibase-mcp upgrade --version '' @ target else ''omnibase-mcp upgrade'') @ ''` to install.'')
      else
        (case up_detectInstall deps of
           GlobalInstall \<Rightarrow> install_target deps target
         | NpxInstall msg \<Rightarrow> log_message (''  '' @ msg)
         | LocalInstall msg \<Rightarrow> log_message (''  '' @ msg)))))"

definition run_upgrade :: "upgrade_options \<Rightarrow> 'w upgrade_deps \<Rightarrow> ('w upgrade_run, unit) io" where
  "run_upgrade options deps =
     bindM (resolve_target options deps) (\<lambda>resolved.
     case resolved of
       None \<Rightarrow> ret ()
     | Some target \<Rightarrow>
         if compare_versions target (up_currentVersion deps) = 0 then
           log_message (''  Already up to date (v'' @ up_currentVersion deps @ '')'')
         else if is_major_change (up_currentVersion deps) target \<and> \<not> uo_allowMajor options then
           log_message (''  Cannot upgrade from '' @ up_currentVersion deps @ '' to '' @ target @ '': major version change.'' @ [CHR 0x0A] @
             ''  Major updates may include breaking changes.'' @ [CHR 0x0A] @
             ''  Run `omnibase-mcp upgrade'' @
             (case nonempty (uo_version options) of None \<Rightarrow> [] | Some v \<Rightarrow> '' --version '' @ v) @
             '' --allow-major` to proceed.'')
         else proceed options deps target)"

text \<open>The options of the command line, and the version that the installed program prints.\<close>

definition upgrade_args :: "string list \<Rightarrow> upgrade_options" where
  "upgrade_args args =
     \<lparr>uo_dryRun = (''--dry-run'' \<in> set args),
      uo_version = (case dropWhile (\<lambda>a. a \<noteq> ''--version'') args of _ # v # _ \<Rightarrow> if v = [] then None else Some v | _ \<Rightarrow> None),
      uo_allowMajor = (''--allow-major'' \<in> set args)\<rparr>"

definition printed_version :: "string \<Rightarrow> string" where
  "printed_version out =
     (let t = trim out in if starts_with t ''omnibase-mcp v'' then drop 14 t else t)"

section \<open>What is installed\<close>

text \<open>\<open>tr\<close> reads the installation commands off the world: only the installer adds one.\<close>

definition installs_recorded :: "'w upgrade_deps \<Rightarrow> ('w \<Rightarrow> string list) \<Rightarrow> bool" where
  "installs_recorded deps tr \<longleftrightarrow>
     (\<forall>w. tr (snd (up_fetchLatestVersion deps w)) = tr w) \<and>
     (\<forall>v w. tr (snd (up_fetchVersionExists deps v w)) = tr w) \<and>
     (\<forall>v w. tr (snd (up_fetchChangelog deps v w)) = tr w) \<and>
     (\<forall>w. tr (snd (up_verifyInstall deps w)) = tr w) \<and>
     (\<forall>c w. tr (snd (up_execInstall deps c w)) = tr w @ [c])"

lemma call_upgrade_run [run_simps]:
  "call_upgrade f s = (case f (ug_world s) of
       (Inr a, w) \<Rightarrow> (Ret a, s\<lparr>ug_world := w\<rparr>)
     | (Inl e, w) \<Rightarrow> (Throw e, s\<lparr>ug_world := w\<rparr>))"
  by (simp add: call_upgrade_def)

lemma log_message_run [run_simps]: "log_message msg s = (Ret (), s\<lparr>ug_log := ug_log s @ [msg]\<rparr>)"
  by (simp add: log_message_def modify_run)

lemma resolve_target_run:
  assumes rec: "installs_recorded deps tr" and run: "resolve_target options deps s = (r, s')"
  shows "tr (ug_world s') = tr (ug_world s) \<and>
     (\<exists>t. r = Ret t \<and> (\<forall>v. t = Some v \<longrightarrow> (\<forall>a. nonempty (uo_version options) = Some a \<longrightarrow> v = a)))"
proof -
  have frame: "tr (snd (up_fetchLatestVersion deps w)) = tr w" "tr (snd (up_fetchVersionExists deps v w)) = tr w" for v w
    using rec by (simp_all add: installs_recorded_def)
  show ?thesis
    using run frame(1) [of "ug_world s"] frame(2) [of _ "ug_world s"]
    by (auto simp: resolve_target_def run_simps split: option.splits prod.splits sum.splits if_splits)
      (metis snd_conv)+
qed

lemma show_changelog_run:
  assumes rec: "installs_recorded deps tr" and run: "show_changelog deps target d s = (r, s')"
  shows "tr (ug_world s') = tr (ug_world s) \<and> r = Ret ()"
proof -
  have frame: "tr (snd (up_fetchChangelog deps v w)) = tr w" for v w
    using rec by (simp add: installs_recorded_def)
  show ?thesis
    using run frame [of target "ug_world s"]
    by (auto simp: show_changelog_def run_simps Let_def split: prod.splits sum.splits if_splits)
qed

lemma install_target_run:
  assumes rec: "installs_recorded deps tr" and run: "install_target deps target s = (r, s')"
  shows "tr (ug_world s') = tr (ug_world s) @ [install_command target] \<and> r = Ret ()"
proof -
  have frame: "tr (snd (up_verifyInstall deps w)) = tr w" "tr (snd (up_execInstall deps c w)) = tr w @ [c]" for c w
    using rec by (simp_all add: installs_recorded_def)
  obtain x w where exec: "up_execInstall deps (install_command target) (ug_world s) = (x, w)" by fastforce
  then have w: "tr w = tr (ug_world s) @ [install_command target]"
    using frame(2) [of "install_command target" "ug_world s"] by simp
  obtain y w' where ver: "up_verifyInstall deps w = (y, w')" by fastforce
  then have "tr w' = tr w" using frame(1) [of w] by simp
  then show ?thesis
    using run exec ver w by (cases x; cases y) (auto simp: install_target_def run_simps Let_def)
qed

text \<open>A permitted installation of one version.\<close>

definition may_install :: "upgrade_options \<Rightarrow> 'w upgrade_deps \<Rightarrow> string \<Rightarrow> bool" where
  "may_install options deps v \<longleftrightarrow>
     \<not> uo_dryRun options \<and> up_detectInstall deps = GlobalInstall \<and>
     compare_versions v (up_currentVersion deps) \<noteq> 0 \<and>
     (is_major_change (up_currentVersion deps) v \<longrightarrow> uo_allowMajor options) \<and>
     (\<forall>a. nonempty (uo_version options) = Some a \<longrightarrow> v = a)"

lemma proceed_run:
  assumes rec: "installs_recorded deps tr" and run: "proceed options deps target s = (r, s')"
  shows "r = Ret () \<and> tr (ug_world s') = tr (ug_world s) @
     (if \<not> uo_dryRun options \<and> up_detectInstall deps = GlobalInstall then [install_command target] else [])"
proof -
  let ?d = "compare_versions target (up_currentVersion deps) < 0"
  obtain s1 where ann: "announce options deps target ?d s = (Ret (), s1)" "ug_world s1 = ug_world s"
    by (simp add: announce_def run_simps)
  obtain r2 s2 where chg: "show_changelog deps target ?d s1 = (r2, s2)" by fastforce
  then have r2: "r2 = Ret ()" "tr (ug_world s2) = tr (ug_world s)"
    using show_changelog_run [OF rec] ann(2) by fastforce+
  have run2: "(if uo_dryRun options then
        log_message (''  Run `'' @ (if nonempty (uo_version options) \<noteq> None
          then ''omnibase-mcp upgrade --version '' @ target else ''omnibase-mcp upgrade'') @ ''` to install.'')
      else (case up_detectInstall deps of
           GlobalInstall \<Rightarrow> install_target deps target
         | NpxInstall msg \<Rightarrow> log_message (''  '' @ msg)
         | LocalInstall msg \<Rightarrow> log_message (''  '' @ msg))) s2 = (r, s')"
    using run unfolding proceed_def Let_def by (simp only: bindM_run ann(1) chg r2(1) prod.case outcome.case)
  show ?thesis
  proof (cases "\<not> uo_dryRun options \<and> up_detectInstall deps = GlobalInstall")
    case True
    then have "install_target deps target s2 = (r, s')" using run2 by simp
    from install_target_run [OF rec this] show ?thesis using True r2(2) by simp
  next
    case False
    then have "r = Ret () \<and> ug_world s' = ug_world s2"
      using run2 by (auto simp: log_message_run split: if_splits install_method.splits)
    then show ?thesis using False r2(2) by auto
  qed
qed

lemma run_upgrade_installs:
  assumes rec: "installs_recorded deps tr" and run: "run_upgrade options deps s = (r, s')"
  shows "r = Ret () \<and> (tr (ug_world s') = tr (ug_world s) \<or>
     (\<exists>v. may_install options deps v \<and> tr (ug_world s') = tr (ug_world s) @ [install_command v]))"
proof -
  obtain r1 s1 where res: "resolve_target options deps s = (r1, s1)" by fastforce
  obtain t where t: "r1 = Ret t" "tr (ug_world s1) = tr (ug_world s)"
    "\<And>v a. t = Some v \<Longrightarrow> nonempty (uo_version options) = Some a \<Longrightarrow> v = a"
    using resolve_target_run [OF rec res] by blast
  show ?thesis
  proof (cases t)
    case None
    then show ?thesis using run res t by (simp add: run_upgrade_def bindM_run ret_run)
  next
    case (Some v)
    note rest = run [unfolded run_upgrade_def bindM_run res t(1) Some prod.case outcome.case option.case]
    show ?thesis
    proof (cases "compare_versions v (up_currentVersion deps) = 0 \<or>
        is_major_change (up_currentVersion deps) v \<and> \<not> uo_allowMajor options")
      case True
      then have "r = Ret () \<and> ug_world s' = ug_world s1" using rest by (auto simp: log_message_run split: if_splits)
      then show ?thesis using t(2) by simp
    next
      case False
      then have "proceed options deps v s1 = (r, s')" using rest by (auto split: if_splits)
      from proceed_run [OF rec this] False t(2) t(3) [OF Some] show ?thesis
        by (auto simp: may_install_def split: if_splits)
    qed
  qed
qed

text \<open>Only entries above the older and up to the newer version are shown.\<close>

lemma parse_changelog_range:
  assumes "e \<in> set (parse_changelog txt v w)" and "compare_versions v w < 0"
  shows "compare_versions (che_version e) v > 0 \<and> compare_versions (che_version e) w \<le> 0"
  using assms by (auto simp: parse_changelog_def Let_def split: if_splits)

end
