(* ===== verification/Network.thy ===== *)
theory Network
  imports Postinstall Upgrade
begin

text \<open>
  The requests that the commands make (\<open>scripts/postinstall.js\<close>, \<open>src/update-checker.ts\<close>,
  \<open>src/cli/upgrade.ts\<close>): what an address answers is a parameter, fixed during one command, and
  a body arrives as a whole or not at all. A request that is never answered, and a chain of
  redirects that does not end, is \<open>None\<close>: only the request to the registry has a time-out.
  The directory that a download writes to exists.
\<close>

datatype reply =
    NetError error
  | Silent                                          \<comment> \<open>no answer\<close>
  | Reply nat "string option" string                \<comment> \<open>status, \<open>location\<close> header, body\<close>

type_synonym network = "string \<Rightarrow> reply"

section \<open>The registry and the changelog\<close>

definition fetch_latest_version_from_registry :: "network \<Rightarrow> jsval result" where
  "fetch_latest_version_from_registry net =
     (case net ''https://registry.npmjs.org/omnibase-mcp/latest'' of
        NetError e \<Rightarrow> Inl e
      | Silent \<Rightarrow> Inl (JsError ''Registry request timed out'')
      | Reply status location body \<Rightarrow>
          if status \<noteq> 200 then Inl (JsError (''Registry returned HTTP '' @ nat_str status))
          else (case json_parse body of
              None \<Rightarrow> Inl (JsError ''Unexpected token in JSON'')
            | Some JNull \<Rightarrow> Inl (JsError ''Cannot read properties of null (reading 'version')'')
            | Some parsed \<Rightarrow> Inr (js_prop parsed ''version'')))"

definition fetch_version_exists :: "network \<Rightarrow> string \<Rightarrow> bool option" where
  "fetch_version_exists net version =
     (case net (''https://registry.npmjs.org/omnibase-mcp/'' @ version) of
        NetError e \<Rightarrow> Some False
      | Silent \<Rightarrow> None
      | Reply status location body \<Rightarrow> Some (status = 200))"

text \<open>One redirect is followed, whatever the status of its target.\<close>

definition fetch_changelog_from_github :: "network \<Rightarrow> string \<Rightarrow> string result option" where
  "fetch_changelog_from_github net version =
     (case net (''https://raw.githubusercontent.com/itsJeremyMax/omnibase/omnibase-mcp-v'' @ version @ ''/CHANGELOG.md'') of
        NetError e \<Rightarrow> Some (Inl e)
      | Silent \<Rightarrow> None
      | Reply status location body \<Rightarrow>
          if status = 301 \<or> status = 302 then
            (case nonempty location of
               None \<Rightarrow> Some (Inl (JsError ''Redirect without location header''))
             | Some redirectUrl \<Rightarrow>
                 (case net redirectUrl of
                    NetError e \<Rightarrow> Some (Inl e)
                  | Silent \<Rightarrow> None
                  | Reply status' location' data \<Rightarrow> Some (Inr data)))
          else if status \<noteq> 200 then Some (Inl (JsError (''GitHub returned HTTP '' @ nat_str status)))
          else Some (Inr body))"

text \<open>The output of \<open>npm prefix -g\<close>, and the version after an installation.\<close>

definition npm_prefix :: "string result \<Rightarrow> string" where
  "npm_prefix out = (case out of Inl e \<Rightarrow> [] | Inr t \<Rightarrow> trim t)"

definition verify_install :: "string result \<Rightarrow> string" where
  "verify_install out = (case out of Inl e \<Rightarrow> ''unknown'' | Inr t \<Rightarrow> printed_version t)"

section \<open>Downloads\<close>

text \<open>A redirect without a target fails on \<open>url.startsWith\<close>.\<close>

partial_function (option) download_to_string :: "network \<Rightarrow> string \<Rightarrow> string result option" where
  "download_to_string net url =
     (case net url of
        NetError e \<Rightarrow> Some (Inl e)
      | Silent \<Rightarrow> None
      | Reply status location body \<Rightarrow>
          if status = 301 \<or> status = 302 then
            (case location of
               None \<Rightarrow> Some (Inl (JsError ''Cannot read properties of undefined (reading 'startsWith')''))
             | Some l \<Rightarrow> download_to_string net l)
          else if status \<noteq> 200 then Some (Inl (JsError (''Download failed: HTTP '' @ nat_str status)))
          else Some (Inr body))"

text \<open>The same requests, with the body piped into a file.\<close>

definition download :: "network \<Rightarrow> string \<Rightarrow> string \<Rightarrow> files \<Rightarrow> (unit result \<times> files) option" where
  "download net url dest f =
     map_option (\<lambda>r. case r of Inl e \<Rightarrow> (Inl e, f) | Inr body \<Rightarrow> (Inr (), f(dest \<mapsto> body)))
       (download_to_string net url)"

text \<open>The directory of the drivers, which ignores \<open>OMNIBASE_DRIVERS_PATH\<close>.\<close>

definition postinstall_drivers_dir :: "string \<Rightarrow> string \<Rightarrow> string" where
  "postinstall_drivers_dir home version =
     path_join (path_join (path_join home ''.omnibase'') ''drivers'') version"

section \<open>When a download ends\<close>

definition redirects :: "network \<Rightarrow> string \<Rightarrow> string \<Rightarrow> bool" where
  "redirects net u v \<longleftrightarrow> (\<exists>status body. net u = Reply status (Some v) body \<and> status \<in> {301, 302})"

text \<open>What an address that does not redirect gives.\<close>

definition delivers :: "network \<Rightarrow> string \<Rightarrow> string result \<Rightarrow> bool" where
  "delivers net u r \<longleftrightarrow> (\<forall>v. \<not> redirects net u v) \<and> download_to_string net u = Some r"

lemma redirects_step: "redirects net u v \<Longrightarrow> download_to_string net u = download_to_string net v"
  by (subst download_to_string.simps) (auto simp: redirects_def)

lemma redirects_unique: "redirects net u v \<Longrightarrow> redirects net u w \<Longrightarrow> v = w"
  by (auto simp: redirects_def)

lemma download_chain: "(redirects net)\<^sup>*\<^sup>* u v \<Longrightarrow> download_to_string net u = download_to_string net v"
  by (induction rule: converse_rtranclp_induct) (auto dest: redirects_step)

lemma download_delivered:
  assumes ret: "download_to_string net u = Some r"
  shows "\<exists>v. (redirects net)\<^sup>*\<^sup>* u v \<and> delivers net v r"
proof (rule download_to_string.raw_induct
    [where P = "\<lambda>net u r. \<exists>v. (redirects net)\<^sup>*\<^sup>* u v \<and> delivers net v r", OF _ ret])
  fix f and net :: network and u r
  assume IH: "\<And>net u r. f net u = Some r \<Longrightarrow> \<exists>v. (redirects net)\<^sup>*\<^sup>* u v \<and> delivers net v r"
    and eq: "(case net u of
        NetError e \<Rightarrow> Some (Inl e)
      | Silent \<Rightarrow> None
      | Reply status location body \<Rightarrow>
          if status = 301 \<or> status = 302 then
            (case location of
               None \<Rightarrow> Some (Inl (JsError ''Cannot read properties of undefined (reading 'startsWith')''))
             | Some l \<Rightarrow> f net l)
          else if status \<noteq> 200 then Some (Inl (JsError (''Download failed: HTTP '' @ nat_str status)))
          else Some (Inr body)) = Some r"
  show "\<exists>v. (redirects net)\<^sup>*\<^sup>* u v \<and> delivers net v r"
  proof (cases "\<exists>v. redirects net u v")
    case True
    then obtain v where v: "redirects net u v" by blast
    then have "f net v = Some r" using eq by (auto simp: redirects_def split: if_splits)
    from IH [OF this] v show ?thesis by (meson converse_rtranclp_into_rtranclp)
  next
    case False
    then have "download_to_string net u = Some r"
      using eq by (subst download_to_string.simps) (auto simp: redirects_def split: reply.splits option.splits if_splits)
    then show ?thesis using False by (auto simp: delivers_def)
  qed
qed

theorem download_exact:
  "download_to_string net u = Some r \<longleftrightarrow> (\<exists>v. (redirects net)\<^sup>*\<^sup>* u v \<and> delivers net v r)"
  using download_delivered download_chain by (fastforce simp: delivers_def)

text \<open>A redirect loop never ends.\<close>

lemma loop_goes_on: "(redirects net)\<^sup>*\<^sup>* u v \<Longrightarrow> (redirects net)\<^sup>+\<^sup>+ u u \<Longrightarrow> (redirects net)\<^sup>+\<^sup>+ v v"
proof (induction rule: rtranclp_induct)
  case (step v w)
  then obtain x where "redirects net v x" "(redirects net)\<^sup>*\<^sup>* x v" by (metis tranclpD)
  then have "(redirects net)\<^sup>*\<^sup>* w v" using step(2) redirects_unique by blast
  then show ?case using step(2) by (rule rtranclp_into_tranclp1)
qed

lemma redirect_loop_never_ends:
  assumes "(redirects net)\<^sup>+\<^sup>+ u u"
  shows "download_to_string net u = None"
proof (rule ccontr)
  assume "download_to_string net u \<noteq> None"
  then obtain v r where v: "(redirects net)\<^sup>*\<^sup>* u v" "delivers net v r" using download_exact by blast
  then have "(redirects net)\<^sup>+\<^sup>+ v v" using loop_goes_on assms by blast
  then obtain w where "redirects net v w" by (metis tranclpD)
  then show False using v(2) by (simp add: delivers_def)
qed

section \<open>The hypotheses of the installation\<close>

text \<open>On a network where every download ends, a download is as tidy as the installation needs.\<close>

definition settled_network :: "network \<Rightarrow> bool" where
  "settled_network net \<longleftrightarrow> (\<forall>u. download_to_string net u \<noteq> None)"

definition net_effect :: "network \<Rightarrow> string \<Rightarrow> string \<Rightarrow> (files, unit) effect" where
  "net_effect net url dest f = the (download net url dest f)"

definition net_text :: "network \<Rightarrow> string \<Rightarrow> (files, string) effect" where
  "net_text net url f = (the (download_to_string net url), f)"

lemma net_effect_tidy:
  assumes "settled_network net"
  shows "tidy (net_effect net url dest) dest"
proof -
  obtain r where "download_to_string net url = Some r" using assms by (auto simp: settled_network_def)
  then show ?thesis by (cases r) (simp_all add: tidy_def net_effect_def download_def)
qed

lemma network_download_only:
  assumes "settled_network net" "\<And>f. \<exists>e. pi_goVersion env f = (Inl e, f)"
    and "\<And>n. path_join (pi_driversDir env) n \<noteq> local_binary_path env"
  shows "download_only (env\<lparr>pi_download := net_effect net, pi_downloadText := net_text net\<rparr>)"
  using assms net_effect_tidy [OF assms(1)]
  by (simp add: download_only_def net_text_def local_binary_path_def)

text \<open>The installed binary is one that the network delivered with the checksum that it lists.\<close>

definition on_network :: "network \<Rightarrow> install_env \<Rightarrow> install_env" where
  "on_network net env = env\<lparr>pi_download := net_effect net, pi_downloadText := net_text net\<rparr>"

lemma on_network_simps [simp]:
  "local_binary_path (on_network net env) = local_binary_path env"
  "asset_url (on_network net env) a = asset_url env a"
  "pi_downloadText (on_network net env) = net_text net"
  "get_installed_version (on_network net env) f = get_installed_version env f"
  "pi_version (on_network net env) = pi_version env" "pi_platform (on_network net env) = pi_platform env"
  "pi_arch (on_network net env) = pi_arch env" "pi_sha256 (on_network net env) = pi_sha256 env"
  by (simp_all add: on_network_def local_binary_path_def asset_url_def get_installed_version_def version_file_def)

lemma network_binary_verified:
  assumes "settled_network net" "\<And>f. \<exists>e. pi_goVersion env f = (Inl e, f)"
    and "\<And>n. path_join (pi_driversDir env) n \<noteq> local_binary_path env"
    and run: "postinstall (on_network net env) f = (r, f')" and c: "f' (local_binary_path env) = Some content"
  shows "(f' = f \<and> get_installed_version env f = Some (pi_version env)) \<or>
     (\<exists>key checksums u. get_platform_key (pi_platform env) (pi_arch env) = Some key \<and>
        (redirects net)\<^sup>*\<^sup>* (asset_url env ''checksums-sha256.txt'') u \<and> delivers net u (Inr checksums) \<and>
        expected_hash checksums (get_binary_name key) = Some (pi_sha256 env content))"
proof -
  have "download_only (on_network net env)"
    unfolding on_network_def by (rule network_download_only [OF assms(1-3)])
  from postinstall_verified [OF this run, of content] c have
    "(f' = f \<and> get_installed_version env f = Some (pi_version env)) \<or>
     (\<exists>key t g. get_platform_key (pi_platform env) (pi_arch env) = Some key \<and>
        net_text net (asset_url env ''checksums-sha256.txt'') g = (Inr t, g) \<and>
        expected_hash t (get_binary_name key) = Some (pi_sha256 env content))" by simp
  moreover have "\<exists>u. (redirects net)\<^sup>*\<^sup>* url u \<and> delivers net u (Inr t)" if "net_text net url g = (Inr t, g)" for url t g
  proof -
    obtain x where x: "download_to_string net url = Some x" using assms(1) by (auto simp: settled_network_def)
    then have "x = Inr t" using that by (simp add: net_text_def)
    then show ?thesis using x download_delivered by blast
  qed
  ultimately show ?thesis by blast
qed

end
