(* ===== verification/ToolCommands.thy ===== *)
theory ToolCommands
  imports CustomToolExec
begin

text \<open>
  The command \<open>tools\<close> (\<open>src/cli/tools.ts\<close>): listing, adding, removing, validating and testing
  custom tools. The prompts are a third-party package: an answer is taken from the list of
  what the user enters, a prompt that validates its answer asks again until it accepts one,
  a cancelled prompt ends the process, and a prompt without an answer waits. The YAML reader
  and printer, the typed view of a document, and the files read with \<open>--sql-file\<close> are
  parameters. Console output, apart from the rows of the tables, is left out. Parameters
  named like a property of \<open>Object.prototype\<close> are not modelled in the flags.
\<close>

section \<open>Prompts\<close>

datatype user_input = Cancel | Entered string | Chosen bool

record 'w shell =
  sh_inputs :: "user_input list"
  sh_config :: string       \<comment> \<open>the text of the configuration file\<close>
  sh_cm :: "'w sys"         \<comment> \<open>the connection manager that \<open>test\<close> starts\<close>

definition process_exit_code :: "nat \<Rightarrow> error" where
  "process_exit_code n = JsError (''process.exit('' @ nat_str n @ '')'')"

fun next_input :: "(user_input \<Rightarrow> 'a option) \<Rightarrow> user_input list \<Rightarrow> ('a option \<times> user_input list) option" where
  "next_input accept [] = None"
| "next_input accept (i # is) =
     (if i = Cancel then Some (None, is)
      else case accept i of Some a \<Rightarrow> Some (Some a, is) | None \<Rightarrow> next_input accept is)"

definition ask :: "(user_input \<Rightarrow> 'a option) \<Rightarrow> ('w shell, 'a) io" where
  "ask accept = (\<lambda>s. case next_input accept (sh_inputs s) of
       None \<Rightarrow> (Hang, s\<lparr>sh_inputs := []\<rparr>)
     | Some (None, is) \<Rightarrow> (Throw (process_exit_code 0), s\<lparr>sh_inputs := is\<rparr>)
     | Some (Some a, is) \<Rightarrow> (Ret a, s\<lparr>sh_inputs := is\<rparr>))"

definition ask_text :: "(string \<Rightarrow> string option) \<Rightarrow> ('w shell, string) io" where
  "ask_text problem =
     ask (\<lambda>i. case i of Entered v \<Rightarrow> if problem v = None then Some v else None | _ \<Rightarrow> None)"

definition ask_select :: "string list \<Rightarrow> ('w shell, string) io" where
  "ask_select options =
     ask (\<lambda>i. case i of Entered v \<Rightarrow> if v \<in> set options then Some v else None | _ \<Rightarrow> None)"

definition ask_confirm :: "('w shell, bool) io" where
  "ask_confirm = ask (\<lambda>i. case i of Chosen b \<Rightarrow> Some b | _ \<Rightarrow> None)"

definition ask_go_on :: "('w shell, unit) io" where
  "ask_go_on = bindM ask_confirm (\<lambda>b. if b then ret () else throw (process_exit_code 0))"

definition required_text :: "string \<Rightarrow> string \<Rightarrow> string option" where
  "required_text msg v = (if trim v = [] then Some msg else None)"

definition any_text :: "string \<Rightarrow> string option" where
  "any_text v = None"

section \<open>The configuration file\<close>

record 'w shell_env =
  se_argv :: "string list"                         \<comment> \<open>\<open>process.argv\<close>\<close>
  se_configPath :: "string option"                 \<comment> \<open>\<open>resolveConfigPath(process.cwd())\<close>\<close>
  se_env :: process_env
  se_yaml :: "string \<Rightarrow> jsval result"              \<comment> \<open>\<open>parse\<close> of the YAML package\<close>
  se_yamlText :: "jsval \<Rightarrow> string"                 \<comment> \<open>\<open>stringify\<close> of the YAML package\<close>
  se_raw :: "jsval \<Rightarrow> raw_config"                  \<comment> \<open>a document read as \<open>RawConfig\<close>\<close>
  se_sqlFile :: "string \<Rightarrow> string result"          \<comment> \<open>\<open>readFileSync\<close> of a template\<close>
  se_start :: "unit result"                        \<comment> \<open>\<open>startSidecar()\<close>\<close>
  se_backend :: "'w backend"

definition get_config_path :: "'w shell_env \<Rightarrow> string result" where
  "get_config_path env =
     (case nonempty (se_configPath env) of None \<Rightarrow> Inl (process_exit_code 1) | Some p \<Rightarrow> Inr p)"

definition read_raw_config :: "'w shell_env \<Rightarrow> ('w shell, jsval) io" where
  "read_raw_config env = bindM (gets sh_config) (\<lambda>t. liftR (se_yaml env t))"

definition load_config :: "'w shell_env \<Rightarrow> ('w shell, omnibase_config) io" where
  "load_config env =
     bindM (liftR (get_config_path env)) (\<lambda>p.
     bindM (gets sh_config) (\<lambda>t.
       liftR (bindR (se_yaml env t) (\<lambda>v. parse_config (se_env env) (se_raw env v) (Some p)))))"

section \<open>\<open>tools list\<close>\<close>

text \<open>The rows of the table; \<open>dim\<close> is the terminal styling.\<close>

definition list_row :: "(string \<Rightarrow> string) \<Rightarrow> string \<times> tool_config \<Rightarrow> string option list" where
  "list_row dim nt =
     (case nt of (name, tool) \<Rightarrow>
        [Some (''custom_'' @ name), ct_connection tool,
         Some (case ct_permission tool of None \<Rightarrow> dim ''(inherited)'' | Some p \<Rightarrow> permission_str p),
         Some (case ct_parameters tool of None \<Rightarrow> dim ''none'' | Some ps \<Rightarrow> join '', '' (obj_keys ps))])"

definition list_tools :: "'w shell_env \<Rightarrow> (string \<Rightarrow> string) \<Rightarrow> ('w shell, string option list list) io" where
  "list_tools env dim = bindM (load_config env) (\<lambda>config. ret (map (list_row dim) (config_tools config)))"

section \<open>\<open>tools add\<close>\<close>

text \<open>The names that the dialogue refuses: its own list lacks \<open>query_history\<close>.\<close>

definition add_built_ins :: "string list" where
  "add_built_ins =
     [''list_connections'', ''test_connection'', ''get_schema'', ''execute_sql'', ''explain_query'',
      ''get_sample'', ''search_schema'', ''list_tables'', ''get_relationships'', ''get_indexes'',
      ''validate_query'', ''get_table_stats'', ''get_distinct_values'']"

text \<open>\<open>config.tools?.[value]\<close> also finds the inherited properties that are valid names.\<close>

definition inherited_names :: "string list" where
  "inherited_names =
     [''constructor'', ''hasOwnProperty'', ''isPrototypeOf'', ''propertyIsEnumerable'',
      ''toLocaleString'', ''toString'', ''valueOf'']"

definition name_problem :: "omnibase_config \<Rightarrow> string \<Rightarrow> string option" where
  "name_problem config value =
     (if value = [] \<or> \<not> rx_test tool_name_rx value
      then Some ''Must be alphanumeric and underscores only, starting with a letter''
      else if value \<in> set add_built_ins then Some ''Name collides with a built-in tool''
      else if (case oc_tools config of None \<Rightarrow> False
               | Some tools \<Rightarrow> value \<in> set (obj_keys tools) \<or> value \<in> set inherited_names)
      then Some ''A custom tool with this name already exists''
      else None)"

definition sql_file_arg :: "string list \<Rightarrow> string option" where
  "sql_file_arg argv = List.find (\<lambda>a. starts_with a ''--sql-file='') argv"

definition ask_sql :: "'w shell_env \<Rightarrow> ('w shell, string) io" where
  "ask_sql env =
     (case sql_file_arg (se_argv env) of
        Some arg \<Rightarrow> bindM (liftR (se_sqlFile env (split_char CHR ''='' arg ! 1))) (\<lambda>content. ret (trim content))
      | None \<Rightarrow> ask_text (required_text ''SQL is required''))"

definition ask_parameter :: "('w shell, jsval) io" where
  "ask_parameter =
     bindM (ask_select [''string'', ''number'', ''boolean'', ''enum'']) (\<lambda>paramType.
     bindM (ask_text (required_text ''Required'')) (\<lambda>paramDesc.
     bindM (if paramType = ''enum'' then
              bindM (ask_text (required_text ''At least one value required'')) (\<lambda>valuesInput.
              ret [(''values'', JArr (map (\<lambda>v. JStr (trim v)) (split_char CHR '','' valuesInput)))])
            else ret []) (\<lambda>allowed.
     bindM ask_confirm (\<lambda>isRequired.
     bindM (if isRequired then ret [] else
              bindM (ask_text any_text) (\<lambda>defaultVal.
              ret [(''required'', JBool False),
                   (''default'', if paramType = ''number'' then JNum (number_of_string defaultVal)
                                 else JStr defaultVal)])) (\<lambda>optionality.
     ret (JObj ([(''type'', JStr paramType), (''description'', JStr paramDesc)] @ allowed @ optionality)))))))"

fun ask_parameters :: "string list \<Rightarrow> jsval obj \<Rightarrow> ('w shell, jsval obj) io" where
  "ask_parameters [] parameters = ret parameters"
| "ask_parameters (paramName # ps) parameters =
     bindM ask_parameter (\<lambda>param. ask_parameters ps (obj_set paramName param parameters))"

text \<open>An optional number: nothing for a blank answer.\<close>

definition ask_number :: "('w shell, jsval) io" where
  "ask_number = bindM (ask_text any_text) (\<lambda>i. ret (if trim i = [] then JUndef else JNum (number_of_string i)))"

definition ask_overrides :: "('w shell, jsval \<times> jsval \<times> jsval) io" where
  "ask_overrides =
     bindM ask_confirm (\<lambda>wantOverrides.
     if \<not> wantOverrides then ret (JUndef, JUndef, JUndef)
     else bindM (ask_select [''inherit'', ''read-only'', ''read-write'', ''admin'']) (\<lambda>permInput.
          bindM ask_number (\<lambda>maxRows.
          bindM ask_number (\<lambda>timeout.
          ret (if permInput = ''inherit'' then JUndef else JStr permInput, maxRows, timeout)))))"

definition tool_entry ::
    "string \<Rightarrow> string \<Rightarrow> string \<Rightarrow> jsval \<times> jsval \<times> jsval \<Rightarrow> jsval obj \<Rightarrow> jsval" where
  "tool_entry connection description sql overrides parameters =
     (case overrides of (permission, maxRows, timeout) \<Rightarrow>
        JObj ([(''connection'', JStr connection), (''description'', JStr description), (''sql'', JStr sql)]
          @ (if truthy permission then [(''permission'', permission)] else [])
          @ (if truthy maxRows then [(''max_rows'', maxRows)] else [])
          @ (if truthy timeout then [(''timeout'', timeout)] else [])
          @ (if parameters \<noteq> [] then [(''parameters'', JObj parameters)] else [])))"

text \<open>The edits of the document. Setting a property of a value that is not an object throws.\<close>

definition set_tool :: "string \<Rightarrow> jsval \<Rightarrow> jsval \<Rightarrow> jsval result" where
  "set_tool name entry raw =
     (case raw of
        JObj kvs \<Rightarrow>
          (let tools = js_prop raw ''tools'' in
           case (if truthy tools then tools else JObj []) of
             JObj ts \<Rightarrow> Inr (JObj (obj_set ''tools'' (JObj (obj_set name entry ts)) kvs))
           | _ \<Rightarrow> Inl (JsError ''TypeError''))
      | _ \<Rightarrow> Inl (JsError ''TypeError''))"

definition delete_tool :: "string \<Rightarrow> jsval \<Rightarrow> jsval" where
  "delete_tool name raw =
     (case raw of
        JObj kvs \<Rightarrow>
          (case js_prop raw ''tools'' of
             JObj ts \<Rightarrow>
               (let rest = AList.delete name ts in
                if rest = [] then JObj (AList.delete ''tools'' kvs)
                else JObj (obj_set ''tools'' (JObj rest) kvs))
           | _ \<Rightarrow> raw)
      | _ \<Rightarrow> raw)"

definition write_config :: "'w shell_env \<Rightarrow> jsval \<Rightarrow> ('w shell, unit) io" where
  "write_config env raw = modify (\<lambda>s. s\<lparr>sh_config := se_yamlText env raw\<rparr>)"

definition add_tool :: "'w shell_env \<Rightarrow> ('w shell, string \<times> jsval) io" where
  "add_tool env =
     bindM (load_config env) (\<lambda>config.
     let connectionNames = obj_keys (oc_connections config) in
     bindM (if connectionNames = [] then throw (process_exit_code 1) else ret ()) (\<lambda>_.
     bindM (ask_text (name_problem config)) (\<lambda>name.
     bindM (ask_select connectionNames) (\<lambda>connection.
     bindM (ask_text (required_text ''Description is required'')) (\<lambda>description.
     bindM (ask_sql env) (\<lambda>sql.
     bindM (ask_parameters (extract_placeholders sql) []) (\<lambda>parameters.
     bindM ask_overrides (\<lambda>overrides.
     let entry = tool_entry connection description sql overrides parameters in
     bindM ask_go_on (\<lambda>_.
     bindM (read_raw_config env) (\<lambda>raw.
     bindM (liftR (set_tool name entry raw)) (\<lambda>raw'.
     bindM (write_config env raw') (\<lambda>_. ret (name, entry)))))))))))))"

section \<open>\<open>tools remove\<close> and \<open>tools validate\<close>\<close>

definition remove_tool :: "'w shell_env \<Rightarrow> ('w shell, string option) io" where
  "remove_tool env =
     bindM (load_config env) (\<lambda>config.
     if config_tools config = [] then ret None
     else bindM (ask_select (obj_keys (config_tools config))) (\<lambda>selected.
          bindM ask_go_on (\<lambda>_.
          bindM (read_raw_config env) (\<lambda>raw.
          bindM (write_config env (delete_tool selected raw)) (\<lambda>_. ret (Some selected))))))"

text \<open>The number of tools that were found valid.\<close>

definition validate_tools :: "'w shell_env \<Rightarrow> ('w shell, nat) io" where
  "validate_tools env =
     bindM (load_config env) (\<lambda>config.
     if config_tools config = [] then ret 0
     else case validate_custom_tools config of
            Some (Inr _) \<Rightarrow> ret (length (config_tools config))
          | _ \<Rightarrow> throw (process_exit_code 1))"

section \<open>\<open>tools test\<close>\<close>

fun parse_flags :: "string list \<Rightarrow> string obj \<Rightarrow> string obj" where
  "parse_flags [] flags = flags"
| "parse_flags (arg # args) flags =
     parse_flags args
       (if starts_with arg ''--'' \<and> CHR ''='' \<in> set arg
        then obj_set (drop 2 (takeWhile (\<lambda>c. c \<noteq> CHR ''='') arg))
               (drop 1 (dropWhile (\<lambda>c. c \<noteq> CHR ''='') arg)) flags
        else flags)"

definition parse_flags_from_argv :: "string list \<Rightarrow> string obj" where
  "parse_flags_from_argv argv = parse_flags (drop 5 argv) []"

definition ask_argument :: "string obj \<Rightarrow> string \<times> tool_parameter \<Rightarrow> ('w shell, jsval) io" where
  "ask_argument cliFlags np =
     (case np of (paramName, def) \<Rightarrow>
        case obj_get cliFlags paramName of
          Some v \<Rightarrow> ret (JStr v)
        | None \<Rightarrow>
            if tp_required def = Some False \<and> tp_default def \<noteq> JUndef then
              bindM (ask_text any_text) (\<lambda>override.
              ret (if trim override = [] then tp_default def else JStr (trim override)))
            else if tp_type def = PEnum \<and> tp_values def \<noteq> None then
              bindM (ask_select (or_else (tp_values def) [])) (\<lambda>selected. ret (JStr selected))
            else if tp_type def = PBoolean then bindM ask_confirm (\<lambda>val. ret (JBool val))
            else bindM (ask_text (required_text ''Value is required'')) (\<lambda>val. ret (JStr val)))"

fun ask_arguments ::
    "string obj \<Rightarrow> tool_parameter obj \<Rightarrow> jsval obj \<Rightarrow> ('w shell, jsval obj) io" where
  "ask_arguments cliFlags [] args = ret args"
| "ask_arguments cliFlags (np # defs) args =
     bindM (ask_argument cliFlags np) (\<lambda>v. ask_arguments cliFlags defs (obj_set (fst np) v args))"

definition strip_custom :: "string \<Rightarrow> string" where
  "strip_custom n = (if starts_with n ''custom_'' then drop 7 n else n)"

text \<open>\<open>process.argv[4]\<close>, or a choice among the tools.\<close>

definition chosen_tool :: "'w shell_env \<Rightarrow> omnibase_config \<Rightarrow> ('w shell, string) io" where
  "chosen_tool env config =
     bindM (if length (se_argv env) > 4 \<and> se_argv env ! 4 \<noteq> [] then ret (se_argv env ! 4)
            else ask_select (obj_keys (config_tools config))) (\<lambda>n. ret (strip_custom n))"

definition or_exit :: "'a result \<Rightarrow> 'a result" where
  "or_exit r = (case r of Inl e \<Rightarrow> Inl (process_exit_code 1) | Inr a \<Rightarrow> Inr a)"

definition on_cm :: "('w sys, 'a) io \<Rightarrow> ('w shell, 'a) io" where
  "on_cm m = (\<lambda>s. case m (sh_cm s) of (r, c) \<Rightarrow> (r, s\<lparr>sh_cm := c\<rparr>))"

definition cell_text :: "(string \<Rightarrow> string) \<Rightarrow> jsval \<Rightarrow> string" where
  "cell_text dim v =
     (if v = JNull \<or> v = JUndef then dim ''NULL''
      else let s = js_string v in if length s > 120 then take 120 s @ dim ''...'' else s)"

text \<open>The head and the rows of the printed table, or the text that stands for it.\<close>

definition format_result_table ::
    "(string \<Rightarrow> string) \<Rightarrow> query_result \<Rightarrow> string + string list \<times> string list list" where
  "format_result_table dim result =
     (if qr_columns result = [] then Inl (dim ''(no columns returned)'')
      else Inr (qr_columns result, map (map (cell_text dim)) (qr_rows result)))"

definition print_result ::
    "(string \<Rightarrow> string) \<Rightarrow> query_result \<Rightarrow> string + string list \<times> string list list" where
  "print_result dim result =
     (if qr_rows result = [] then Inl (dim ''(no rows returned)'') else format_result_table dim result)"

text \<open>What runs once the tool, its template and its arguments are known.\<close>

definition run_template ::
    "'w shell_env \<Rightarrow> omnibase_config \<Rightarrow> tool_config \<Rightarrow> string \<Rightarrow> jsval obj \<Rightarrow> ('w shell, query_result) io" where
  "run_template env config tool sql args =
     bindM (liftR (or_exit (substitute_parameters sql args (tool_params tool)))) (\<lambda>substituted.
     bindM (liftR (or_exit (se_start env))) (\<lambda>_.
     bindM (modify (\<lambda>s. s\<lparr>sh_cm := initial_sys (sys_world (sh_cm s))\<rparr>)) (\<lambda>_.
     bindM (liftR (get_connection config (ct_connection tool))) (\<lambda>conn.
     try_catch
       (on_cm (cm_execute (se_backend env) conn (fst substituted) (Some (snd substituted))
          (Some (tool_options conn tool))))
       (\<lambda>_. throw (process_exit_code 1))))))"

definition test_tool :: "'w shell_env \<Rightarrow> ('w shell, query_result) io" where
  "test_tool env =
     bindM (load_config env) (\<lambda>config.
     bindM (case validate_custom_tools config of Some (Inr _) \<Rightarrow> ret () | _ \<Rightarrow> throw (process_exit_code 1)) (\<lambda>_.
     bindM (if config_tools config = [] then throw (process_exit_code 0) else ret ()) (\<lambda>_.
     bindM (chosen_tool env config) (\<lambda>toolName.
     case obj_get (config_tools config) toolName of
       None \<Rightarrow> throw (process_exit_code 1)
     | Some tool \<Rightarrow>
         bindM (ask_arguments (parse_flags_from_argv (se_argv env)) (tool_params tool) []) (\<lambda>args.
         if ct_steps tool \<noteq> None \<or> ct_compose tool \<noteq> None then throw (process_exit_code 1)
         else case ct_sql tool of
                None \<Rightarrow> throw (process_exit_code 1)
              | Some sql \<Rightarrow> run_template env config tool sql args)))))"

section \<open>What the commands do to the file\<close>

definition file_is :: "string \<Rightarrow> 'w shell \<Rightarrow> bool" where
  "file_is t s \<longleftrightarrow> sh_config s = t"

lemma keeps_ask: "keeps (file_is t) (ask accept)"
  by (auto simp: keeps_def file_is_def ask_def split: option.splits prod.splits)

lemma keeps_file [keeps_intros]:
  "keeps (file_is t) (ask_text problem)" "keeps (file_is t) (ask_select options)"
  "keeps (file_is t) ask_confirm" "keeps (file_is t) ask_go_on"
  unfolding ask_text_def ask_select_def ask_confirm_def ask_go_on_def
  by (auto intro!: keeps_ask keeps_intros)

lemma keeps_ask_parameter [keeps_intros]: "keeps (file_is t) ask_parameter"
  unfolding ask_parameter_def by (intro keeps_intros)

lemma keeps_ask_parameters [keeps_intros]: "keeps (file_is t) (ask_parameters ps acc)"
  by (induction ps acc rule: ask_parameters.induct) (auto intro!: keeps_intros)

lemma keeps_ask_overrides [keeps_intros]: "keeps (file_is t) ask_overrides"
  unfolding ask_overrides_def ask_number_def by (intro keeps_intros)

lemma keeps_ask_sql [keeps_intros]: "keeps (file_is t) (ask_sql env)"
  unfolding ask_sql_def by (auto split: option.split intro!: keeps_intros)

lemma keeps_load_config [keeps_intros]: "keeps (file_is t) (load_config env)"
  unfolding load_config_def by (intro keeps_intros)

lemma keeps_ask_arguments [keeps_intros]: "keeps (file_is t) (ask_arguments flags defs args)"
proof (induction defs arbitrary: args)
  case (Cons np defs)
  have "keeps (file_is t) (ask_argument flags np)"
    unfolding ask_argument_def by (auto split: prod.split option.split intro!: keeps_intros)
  then show ?case using Cons by (auto intro!: keeps_intros)
qed (auto intro: keeps_intros)

text \<open>A command that edits the file: what holds when it returns; otherwise the file is untouched.\<close>

definition edits :: "string \<Rightarrow> ('a \<Rightarrow> 'w shell \<Rightarrow> bool) \<Rightarrow> ('w shell, 'a) io \<Rightarrow> bool" where
  "edits t R m \<longleftrightarrow> (\<forall>s r s'. sh_config s = t \<longrightarrow> m s = (r, s') \<longrightarrow>
     (case r of Ret x \<Rightarrow> R x s' | _ \<Rightarrow> sh_config s' = t))"

lemma edits_bindM:
  assumes "keeps (file_is t) m" "\<And>a s s'. m s = (Ret a, s') \<Longrightarrow> edits t R (f a)"
  shows "edits t R (bindM m f)"
proof -
  have "case r of Ret x \<Rightarrow> R x s' | _ \<Rightarrow> sh_config s' = t"
    if s: "sh_config s = t" and run: "bindM m f s = (r, s')" for s r s'
  proof (cases "m s")
    case (Pair o1 s1)
    then have s1: "sh_config s1 = t" using assms(1) s by (auto simp: keeps_def file_is_def)
    show ?thesis
    proof (cases o1)
      case (Ret a)
      then have "f a s1 = (r, s')" using run Pair by (simp add: bindM_run)
      then show ?thesis using assms(2) [of s a s1] s1 Pair Ret by (auto simp: edits_def)
    qed (use run Pair s1 in \<open>auto simp: bindM_run\<close>)
  qed
  then show ?thesis by (auto simp: edits_def)
qed

lemma ask_accepts:
  assumes "ask accept s = (Ret a, s')"
  shows "\<exists>i. accept i = Some a"
proof -
  have "next_input accept is = Some (Some a, rest) \<Longrightarrow> \<exists>i. accept i = Some a" for "is" rest
    by (induction "is") (auto split: if_splits option.splits)
  then show ?thesis using assms by (auto simp: ask_def split: option.splits prod.splits)
qed

lemma ask_text_accepts: "ask_text problem s = (Ret a, s') \<Longrightarrow> problem a = None"
  by (auto simp: ask_text_def dest!: ask_accepts split: user_input.split_asm if_split_asm)

text \<open>
  \<open>tools add\<close> writes the file only when every prompt was answered, and then it is the old
  document with the new tool under an acceptable name.
\<close>

definition added :: "'w shell_env \<Rightarrow> string \<Rightarrow> string \<times> jsval \<Rightarrow> 'w shell \<Rightarrow> bool" where
  "added env t ne s' \<longleftrightarrow>
     rx_test tool_name_rx (fst ne) \<and> fst ne \<notin> set add_built_ins \<and>
     (\<exists>raw raw'. se_yaml env t = Inr raw \<and> set_tool (fst ne) (snd ne) raw = Inr raw' \<and>
        sh_config s' = se_yamlText env raw')"

lemma name_problem_None:
  "name_problem config name = None \<Longrightarrow> rx_test tool_name_rx name \<and> name \<notin> set add_built_ins"
  by (auto simp: name_problem_def split: if_splits)

lemma edits_write:
  assumes "rx_test tool_name_rx name" "name \<notin> set add_built_ins"
  shows "edits t (added env t)
     (bindM (read_raw_config env) (\<lambda>raw.
      bindM (liftR (set_tool name entry raw)) (\<lambda>raw'.
      bindM (write_config env raw') (\<lambda>_. ret (name, entry)))))"
  using assms
  by (auto simp: edits_def read_raw_config_def write_config_def added_def run_simps
      split: sum.splits)

lemma add_tool_edits: "edits t (added env t) (add_tool env)"
proof -
  have last: "edits t (added env t)
     (bindM (read_raw_config env) (\<lambda>raw.
      bindM (liftR (set_tool name entry raw)) (\<lambda>raw'.
      bindM (write_config env raw') (\<lambda>_. ret (name, entry)))))"
    if "ask_text (name_problem config) s = (Ret name, s')" for config name entry s s'
    using that by (auto dest!: ask_text_accepts name_problem_None intro!: edits_write)
  show ?thesis
    unfolding add_tool_def Let_def
    by (erule last | rule keeps_intros | rule edits_bindM)+
qed

text \<open>\<open>tools remove\<close> removes the chosen tool from the document, \<open>tools test\<close> leaves the file alone.\<close>

definition removed :: "'w shell_env \<Rightarrow> string \<Rightarrow> string option \<Rightarrow> 'w shell \<Rightarrow> bool" where
  "removed env t n s' \<longleftrightarrow>
     (case n of None \<Rightarrow> sh_config s' = t
      | Some name \<Rightarrow> \<exists>raw. se_yaml env t = Inr raw \<and> sh_config s' = se_yamlText env (delete_tool name raw))"

lemma remove_tool_edits: "edits t (removed env t) (remove_tool env)"
proof -
  have last: "edits t (removed env t)
     (bindM (read_raw_config env) (\<lambda>raw. bindM (write_config env (delete_tool n raw)) (\<lambda>_. ret (Some n))))" for n
    by (auto simp: edits_def read_raw_config_def write_config_def removed_def run_simps split: sum.splits)
  have none: "edits t (removed env t) (ret None)" by (simp add: edits_def ret_run removed_def)
  show ?thesis unfolding remove_tool_def
    by (intro edits_bindM keeps_intros) (auto intro!: edits_bindM keeps_intros last none)
qed

section \<open>Adding and removing\<close>

text \<open>Removing the tool that was added gives the document back.\<close>

lemma delete_fresh: "k \<notin> fst ` set kvs \<Longrightarrow> AList.delete k (obj_set k v kvs) = kvs"
  by (induction kvs) auto

lemma obj_set_fresh: "k \<notin> fst ` set kvs \<Longrightarrow> obj_set k v kvs \<noteq> []"
  by (cases kvs) auto

lemma obj_set_set: "obj_set k v (obj_set k w kvs) = obj_set k v kvs"
  by (induction kvs) auto

lemma obj_set_same: "map_of kvs k = Some v \<Longrightarrow> distinct (map fst kvs) \<Longrightarrow> obj_set k v kvs = kvs"
  by (induction kvs) auto

lemma add_then_delete:
  assumes keys: "distinct (map fst kvs)"
    and tools: "case map_of kvs ''tools'' of None \<Rightarrow> True
                | Some v \<Rightarrow> \<exists>ts. v = JObj ts \<and> ts \<noteq> [] \<and> name \<notin> fst ` set ts"
    and set: "set_tool name entry (JObj kvs) = Inr doc"
  shows "delete_tool name doc = JObj kvs"
proof (cases "map_of kvs ''tools''")
  case None
  then have "''tools'' \<notin> fst ` set kvs" by (simp add: map_of_eq_None_iff)
  then show ?thesis
    using None set by (auto simp: set_tool_def delete_tool_def delete_fresh update_conv)
next
  case (Some v)
  then obtain ts where ts: "v = JObj ts" "ts \<noteq> []" "name \<notin> fst ` set ts" using tools by auto
  then have "doc = JObj (obj_set ''tools'' (JObj (obj_set name entry ts)) kvs)"
    using Some set by (simp add: set_tool_def)
  then show ?thesis
    using ts Some keys by (simp add: delete_tool_def update_conv delete_fresh obj_set_set obj_set_same)
qed

end
