(* ===== verification/CommandLine.thy ===== *)
theory CommandLine
  imports ToolCommands AuditTrail JsNumber
begin

text \<open>
  The commands \<open>status\<close> (\<open>src/cli/status.ts\<close>) and \<open>audit\<close> (\<open>src/cli/audit.ts\<close>). The pings
  are started together by the code; here they run one after another, each to completion,
  with the clock read before and after. A line is styled by a parameter \<open>paint\<close>, which
  takes the style and the text. Following a growing log is the
  subject of \<open>AuditTail\<close>.
\<close>

section \<open>\<open>status\<close>\<close>

definition dsn_type_map :: "string obj" where
  "dsn_type_map =
     [(''pg'', ''postgres''), (''postgres'', ''postgres''), (''my'', ''mysql''), (''mysql'', ''mysql''),
      (''sqlite'', ''sqlite'')]"

text \<open>Prefixes named like an inherited property of an object (\<open>constructor\<close>) are not modelled.\<close>

definition detect_db_type :: "string \<Rightarrow> string" where
  "detect_db_type dsn =
     (let p = to_lower (hd (split_char CHR '':'' dsn)) in or_else (obj_get dsn_type_map p) p)"

record ping_result =
  pr_name :: string
  pr_dbType :: string
  pr_permission :: permission_level
  pr_latencyMs :: "int option"
  pr_ok :: bool
  pr_error :: "string option"

definition ping_outcome :: "connection_config \<Rightarrow> int result \<Rightarrow> ping_result" where
  "ping_outcome conn outcome =
     \<lparr>pr_name = cc_name conn, pr_dbType = detect_db_type (cc_dsn conn), pr_permission = cc_permission conn,
      pr_latencyMs = (case outcome of Inr ms \<Rightarrow> Some ms | Inl e \<Rightarrow> None),
      pr_ok = (case outcome of Inr ms \<Rightarrow> True | Inl e \<Rightarrow> False),
      pr_error = (case outcome of Inr ms \<Rightarrow> None | Inl e \<Rightarrow> Some (error_message e))\<rparr>"

definition timed_ping :: "('w \<Rightarrow> int) \<Rightarrow> 'w backend \<Rightarrow> connection_config \<Rightarrow> ('w sys, int result) io" where
  "timed_ping now bk conn =
     try_catch
       (bindM (gets (\<lambda>s. now (sys_world s))) (\<lambda>start.
        bindM (cm_ping bk conn) (\<lambda>_.
        bindM (gets (\<lambda>s. now (sys_world s))) (\<lambda>t. ret (Inr (t - start))))))
       (\<lambda>e. ret (Inl e))"

fun ping_each :: "('w \<Rightarrow> int) \<Rightarrow> 'w backend \<Rightarrow> connection_config list \<Rightarrow> ('w sys, ping_result list) io" where
  "ping_each now bk [] = ret []"
| "ping_each now bk (conn # conns) =
     bindM (timed_ping now bk conn) (\<lambda>outcome.
     bindM (ping_each now bk conns) (\<lambda>rs. ret (ping_outcome conn outcome # rs)))"

definition ping_all_connections ::
    "('w \<Rightarrow> int) \<Rightarrow> 'w backend \<Rightarrow> omnibase_config \<Rightarrow> ('w sys, ping_result list) io" where
  "ping_all_connections now bk config = ping_each now bk (map snd (oc_connections config))"

definition dashboard_row :: "(string \<Rightarrow> string \<Rightarrow> string) \<Rightarrow> ping_result \<Rightarrow> string list" where
  "dashboard_row paint r =
     [pr_name r, pr_dbType r, permission_str (pr_permission r),
      case pr_latencyMs r of None \<Rightarrow> ''--'' | Some ms \<Rightarrow> int_str ms @ ''ms'',
      if pr_ok r then paint ''green'' ''ok''
      else paint ''red'' (''error: '' @ or_else (pr_error r) ''unknown'')]"

text \<open>The summary of \<open>runStatus\<close>: how many pings failed.\<close>

definition failed_pings :: "ping_result list \<Rightarrow> nat" where
  "failed_pings results = length (List.filter (\<lambda>r. \<not> pr_ok r) results)"

definition status_summary :: "ping_result list \<Rightarrow> string" where
  "status_summary results =
     (if failed_pings results > 0 then nat_str (failed_pings results) @ '' connection(s) failed.''
      else ''All connections ok.'')"

text \<open>
  The start of the sidecar for a command, with a new connection manager; and the command: the
  rows of its table and its last line, or nothing when no connection is configured. The
  sidecar is stopped whatever the pings give.
\<close>

definition started_sidecar :: "('w, unit) effect \<Rightarrow> ('w, 'w sys) effect" where
  "started_sidecar start w =
     (case start w of (Inl e, w') \<Rightarrow> (Inl e, w') | (Inr u, w') \<Rightarrow> (Inr (initial_sys w'), w'))"

record 'w status_env =
  ste_start :: "('w, unit) effect"        \<comment> \<open>\<open>sidecar.start()\<close>\<close>
  ste_stop :: "'w \<Rightarrow> 'w"                  \<comment> \<open>\<open>sidecar.stop()\<close>\<close>
  ste_now :: "'w \<Rightarrow> int"
  ste_backend :: "'w backend"
  ste_paint :: "string \<Rightarrow> string \<Rightarrow> string"

definition ping_report ::
    "'w status_env \<Rightarrow> omnibase_config \<Rightarrow> 'w sys \<Rightarrow> (string list list \<times> string) outcome \<times> 'w sys" where
  "ping_report env config =
     bindM (ping_all_connections (ste_now env) (ste_backend env) config) (\<lambda>results.
       ret (map (dashboard_row (ste_paint env)) results, status_summary results))"

definition run_status ::
    "'w status_env \<Rightarrow> string option \<Rightarrow> omnibase_config result \<Rightarrow> ('w, (string list list \<times> string) option) io" where
  "run_status env configPath loaded w =
     (if nonempty configPath = None then (Throw (process_exit_code 1), w)
      else case loaded of
        Inl e \<Rightarrow> (Throw e, w)
      | Inr config \<Rightarrow>
          if oc_connections config = [] then (Ret None, w)
          else case started_sidecar (ste_start env) w of
            (Inl e, w') \<Rightarrow> (Throw e, w')
          | (Inr s, w') \<Rightarrow>
              (case ping_report env config s of
                 (Ret report, t) \<Rightarrow> (Ret (Some report), ste_stop env (sys_world t))
               | (Throw e, t) \<Rightarrow> (Throw e, ste_stop env (sys_world t))
               | (Hang, t) \<Rightarrow> (Hang, sys_world t)))"

section \<open>\<open>audit\<close>\<close>

text \<open>The path of the log: the configured one, or the one below the working directory.\<close>

definition get_log_path :: "process_env \<Rightarrow> omnibase_config option \<Rightarrow> string" where
  "get_log_path env config =
     (case Option.bind config oc_audit of
        Some audit \<Rightarrow>
          (if ac_path audit \<noteq> [] then pe_resolve env (ac_path audit)
           else pe_join env [pe_cwd env, ''.omnibase'', ''audit.log''])
      | None \<Rightarrow> pe_join env [pe_cwd env, ''.omnibase'', ''audit.log''])"

text \<open>
  \<open>entry.sql\<close>, shortened when its length is above 80: \<open>None\<close> where the access throws, on a
  missing value, and on an object with such a length and no \<open>slice\<close>.
\<close>

definition shown_sql :: "jsval \<Rightarrow> string option" where
  "shown_sql sql =
     (case sql of
        JStr t \<Rightarrow> Some (if length t > 80 then take 77 t @ ''...'' else t)
      | JArr vs \<Rightarrow>
          Some (if length vs > 80 then js_string (JArr (take 77 vs)) @ ''...'' else js_string sql)
      | JObj kvs \<Rightarrow>
          (if num_less (int_num 80) (js_number (js_prop sql ''length'')) then None else Some (js_string sql))
      | JNull \<Rightarrow> None
      | JUndef \<Rightarrow> None
      | _ \<Rightarrow> Some (js_string sql))"

definition format_entry :: "(string \<Rightarrow> string \<Rightarrow> string) \<Rightarrow> jsval \<Rightarrow> string option" where
  "format_entry paint entry =
     map_option (\<lambda>sql.
       paint ''dim'' (js_string (js_prop entry ''ts'')) @ '' ['' @
       (if js_prop entry ''status'' = JStr ''ok'' then paint ''green'' ''ok'' else paint ''red'' ''error'') @
       ''] '' @ paint ''cyan'' (js_string (js_prop entry ''tool'')) @ '' @ '' @
       paint ''yellow'' (js_string (js_prop entry ''connection'')) @ '' '' @
       paint ''dim'' (js_string (js_prop entry ''duration_ms'') @ ''ms'') @ '' '' @
       paint ''dim'' (js_string (js_prop entry ''rows'') @ '' row'' @
         (if js_prop entry ''rows'' = JNum (int_num 1) then [] else ''s'')) @ [newline] @ ''  '' @
       paint ''dim'' sql @
       (if truthy (js_prop entry ''error'') then '' '' @ paint ''red'' (js_string (js_prop entry ''error''))
        else []))
     (shown_sql (js_prop entry ''sql''))"

definition format_line :: "(string \<Rightarrow> string \<Rightarrow> string) \<Rightarrow> string \<Rightarrow> string" where
  "format_line paint raw =
     (case Option.bind (json_parse raw) (format_entry paint) of None \<Rightarrow> raw | Some t \<Rightarrow> t)"

text \<open>
  The lines that the reader delivers: separated by line feeds, carriage returns or both, with
  no empty line after the last separator. Blank lines are skipped in every command.
\<close>

fun read_lines :: "string \<Rightarrow> string list" where
  "read_lines [] = []"
| "read_lines [c] = (if c = newline \<or> c = CHR 0x0D then [[]] else [[c]])"
| "read_lines (c # d # cs) =
     (if c = CHR 0x0D \<and> d = newline then [] # read_lines cs
      else if c = newline \<or> c = CHR 0x0D then [] # read_lines (d # cs)
      else case read_lines (d # cs) of [] \<Rightarrow> [[c]] | l # ls \<Rightarrow> (c # l) # ls)"

definition log_lines_of :: "string \<Rightarrow> string list" where
  "log_lines_of content = List.filter (\<lambda>l. trim l \<noteq> []) (read_lines content)"

definition print_lines :: "(string \<Rightarrow> string \<Rightarrow> string) \<Rightarrow> (string \<Rightarrow> bool) option \<Rightarrow> string \<Rightarrow> string list" where
  "print_lines paint keep content =
     map (format_line paint)
       (List.filter (\<lambda>l. case keep of None \<Rightarrow> True | Some f \<Rightarrow> f l) (log_lines_of content))"

definition search_lines :: "string \<Rightarrow> string \<Rightarrow> string list" where
  "search_lines query content =
     List.filter (\<lambda>l. str_includes (to_lower l) (to_lower query)) (log_lines_of content)"

text \<open>What \<open>audit search\<close> prints; \<open>None\<close> is a missing log, and an empty query ends the process.\<close>

definition search_log ::
    "(string \<Rightarrow> string \<Rightarrow> string) \<Rightarrow> string \<Rightarrow> string option \<Rightarrow> string list result" where
  "search_log paint query content =
     (if query = [] then Inl (process_exit_code 1)
      else case content of
        None \<Rightarrow> Inr []
      | Some c \<Rightarrow>
          (let found = search_lines query c; matchCount = length found in
           Inr (map (format_line paint) found @
             [paint ''dim'' (if matchCount = 0 then ''No entries matching \"'' @ query @ ''\"''
                else newline # nat_str matchCount @ '' matching entries'')])))"

text \<open>\<open>audit clear\<close>: the content of the log afterwards, if the log exists.\<close>

definition clear_log :: "user_input list \<Rightarrow> string option \<Rightarrow> string option outcome" where
  "clear_log inputs content =
     (case content of
        None \<Rightarrow> Ret None
      | Some c \<Rightarrow>
          (case next_input (\<lambda>i. case i of Chosen b \<Rightarrow> Some b | _ \<Rightarrow> None) inputs of
             None \<Rightarrow> Hang
           | Some (Some True, _) \<Rightarrow> Ret (Some [])
           | Some _ \<Rightarrow> Throw (process_exit_code 0)))"

section \<open>Lemmas\<close>

text \<open>Pinging always returns, with one result per connection in the order of the file.\<close>

lemma ensure_connected_no_hang: "fst (ensure_connected bk conn s) \<noteq> Hang"
  by (auto simp: ensure_connected_def run_simps call_backend_def split: prod.splits sum.splits outcome.splits)

lemma cm_ping_no_hang: "fst (cm_ping bk conn s) \<noteq> Hang"
  using ensure_connected_no_hang [of bk conn s]
  by (auto simp: cm_ping_def run_simps call_backend_def split: prod.splits sum.splits outcome.splits)

lemma timed_ping_returns: "\<exists>o1. fst (timed_ping now bk conn s) = Ret o1"
  using cm_ping_no_hang [of bk conn s]
  by (auto simp: timed_ping_def run_simps split: prod.splits outcome.splits)

lemma ping_each_returns:
  "\<exists>rs. fst (ping_each now bk conns s) = Ret rs \<and> map pr_name rs = map cc_name conns"
proof (induction conns arbitrary: s)
  case (Cons conn conns)
  obtain o1 s1 where "timed_ping now bk conn s = (Ret o1, s1)"
    using timed_ping_returns [of now bk conn s] by (metis prod.collapse)
  moreover obtain rs s2 where "ping_each now bk conns s1 = (Ret rs, s2)" "map pr_name rs = map cc_name conns"
    using Cons.IH [of s1] by (metis prod.collapse)
  ultimately show ?case by (simp add: run_simps ping_outcome_def)
qed (simp add: run_simps)

text \<open>Once the sidecar runs, there is a row for every connection, and it is stopped at the end.\<close>

lemma run_status_stops:
  fixes env :: "'w status_env"
  assumes "configPath = Some (c # p)" "oc_connections config \<noteq> []" "ste_start env w = (Inr (), w1)"
  shows "\<exists>rows line (t :: 'w sys). run_status env configPath (Inr config) w = (Ret (Some (rows, line)), ste_stop env (sys_world t)) \<and>
     map hd rows = map cc_name (map snd (oc_connections config))"
proof -
  obtain rs t where "ping_all_connections (ste_now env) (ste_backend env) config (initial_sys w1) = (Ret rs, t)"
    "map pr_name rs = map cc_name (map snd (oc_connections config))"
    using ping_each_returns [of "ste_now env" "ste_backend env" "map snd (oc_connections config)" "initial_sys w1"]
    unfolding ping_all_connections_def by (metis prod.collapse)
  then show ?thesis
    using assms by (auto simp: run_status_def started_sidecar_def ping_report_def nonempty_def run_simps dashboard_row_def comp_def)
qed

lemma keeps_timed_ping [keeps_intros]: "keeps cm_inv (timed_ping now bk conn)"
  unfolding timed_ping_def by (intro keeps_intros)

lemma keeps_ping_each: "keeps cm_inv (ping_each now bk conns)"
  by (induction conns) (auto intro!: keeps_intros)

text \<open>The reader of the command line gives the lines that the logger wrote.\<close>

definition plain_line :: "string \<Rightarrow> bool" where
  "plain_line l \<longleftrightarrow> newline \<notin> set l \<and> CHR 0x0D \<notin> set l"

lemma read_lines_line: "plain_line l \<Longrightarrow> read_lines (l @ newline # s) = l # read_lines s"
proof (induction l)
  case Nil
  then show ?case by (cases s) simp_all
next
  case (Cons c l)
  then have "plain_line l" by (simp add: plain_line_def)
  with Cons show ?case by (cases l) (auto simp: plain_line_def)
qed

lemma read_lines_file_text: "list_all plain_line ls \<Longrightarrow> read_lines (file_text ls) = ls"
  by (induction ls) (simp_all add: file_text_def read_lines_line)

lemma log_lines_of_file_text:
  "list_all plain_line ls \<Longrightarrow> list_all clean_line ls \<Longrightarrow> log_lines_of (file_text ls) = ls"
  by (simp add: log_lines_of_def read_lines_file_text list_all_iff clean_line_def)

text \<open>The search finds exactly the lines that contain the query, in either case, in order.\<close>

lemma search_lines_exact:
  "list_all plain_line ls \<Longrightarrow> list_all clean_line ls \<Longrightarrow>
     search_lines query (file_text ls) = List.filter (\<lambda>l. sublist (to_lower query) (to_lower l)) ls"
  by (simp add: search_lines_def log_lines_of_file_text includes_iff_sublist)

end
