(* ===== verification/CliSamples.thy ===== *)
theory CliSamples
  imports Samples Startup Network CommandLine
begin

text \<open>
  Concrete environments for the commands, on which the witnesses of their properties run: an
  upgrade whose world is the list of the commands that were run, downloads that write a fixed
  content, and a configuration file with one tool.
\<close>

section \<open>Serving\<close>

definition sample_running :: "string list running" where
  "sample_running =
     \<lparr>rn_config = sample_config, rn_watcher = start_watching (new_watcher sample_config),
      rn_sys = snd (set_on_schema_fetched (initial_sys [])), rn_hints = register_hints True\<rparr>"

lemma sample_started: "start_server (Some ''omnibase.config.yaml'') (Inr sample_config) (Inr ()) [] = Serving sample_running"
  by (simp add: start_server_def sample_tools_ok sample_running_def nonempty_def) (simp add: sample_config_def)

section \<open>Upgrading\<close>

definition sample_upgrade :: "string list upgrade_deps" where
  "sample_upgrade =
     \<lparr>up_currentVersion = ''1.2.3'', up_fetchLatestVersion = (\<lambda>w. (Inr ''1.10.0'', w)),
      up_fetchVersionExists = (\<lambda>v w. (Inr True, w)), up_fetchChangelog = (\<lambda>v w. (Inr [], w)),
      up_detectInstall = GlobalInstall, up_execInstall = (\<lambda>c w. (Inr (), w @ [c])),
      up_verifyInstall = (\<lambda>w. (Inr ''1.10.0'', w)), up_paint = (\<lambda>style t. t)\<rparr>"

definition plain_upgrade :: upgrade_options where
  "plain_upgrade = \<lparr>uo_dryRun = False, uo_version = None, uo_allowMajor = False\<rparr>"

definition upgrade_start :: "string list upgrade_run" where
  "upgrade_start = \<lparr>ug_world = [], ug_log = []\<rparr>"

lemma sample_upgrade_records: "installs_recorded sample_upgrade id"
  by (simp add: installs_recorded_def sample_upgrade_def)

section \<open>Drivers\<close>

definition sample_checksums :: string where
  "sample_checksums = ''abc driver-h2-linux-amd64''"

text \<open>Every download writes \<open>abc\<close>, or the checksums file; the hash of a content is the content.\<close>

definition sample_drivers :: driver_env where
  "sample_drivers =
     \<lparr>dn_platform = ''linux-amd64'', dn_version = ''1.2.3'', dn_base = ''/d'',
      dn_root = ''/r'',
      dn_curl = (\<lambda>dest url f. (Inr (),
        f(dest \<mapsto> if dest = ''/d/1.2.3/driver-checksums-sha256.txt'' then sample_checksums else ''abc''))),
      dn_chmod = (\<lambda>p f. (Inr (), f)), dn_goVersion = (\<lambda>f. (Inl (JsError ''no go''), f)),
      dn_goBuild = (\<lambda>pkg dest f. (Inl (JsError ''no go''), f)), dn_hasSource = (\<lambda>pkg. False),
      dn_hasDrivers = True, dn_sha256 = (\<lambda>c. c)\<rparr>"

definition sample_manifest :: jsval where
  "sample_manifest = JObj [(''drivers'', JObj [(''h2'',
     JObj [(''binary'', JStr ''driver-h2''), (''schemes'', JArr [JStr ''h2''])])])]"

definition sample_files :: files where
  "sample_files = [''/r/sidecar/drivers.json'' \<mapsto> json sample_manifest]"

lemma sample_no_drivers: "no_drivers sample_drivers sample_files"
  by (simp add: no_drivers_def sample_files_def sample_drivers_def checksums_path_def dest_path_def path_join_def
      drivers_dir_def)

lemma sample_drivers_ok:
  "tidy_tools sample_drivers" "plain_platform sample_drivers" "publishes sample_drivers sample_checksums"
  by (simp_all add: tidy_tools_def tidy_def silent_def plain_platform_def publishes_def sample_drivers_def
      checksums_path_def path_join_def drivers_dir_def)

definition sample_commands :: "driver_command list" where
  "sample_commands = [InstallCommand ''h2'', CleanCommand [(''1.2.3'', True), (''1.2.2'', True)]]"

lemma sample_commands_plain: "list_all (plain_command sample_drivers) sample_commands"
  by (simp add: sample_commands_def plain_names_def sample_drivers_def)

lemma sample_drivers_installed:
  "fold (run_command sample_drivers) sample_commands sample_files (dest_path sample_drivers ''driver-h2'') = Some ''abc''"
  "fold (run_command sample_drivers) sample_commands sample_files
     (unverified_marker (dest_path sample_drivers ''driver-h2'')) = None"
  by code_simp+

text \<open>
  A network at installation time: the checksums are behind a redirect, everything else is
  \<open>abc\<close>. There is no configuration and no Go.
\<close>

definition sample_install :: install_env where
  "sample_install =
     \<lparr>pi_platform = ''linux'', pi_arch = ''x64'', pi_version = ''1.2.3'', pi_binDir = ''/b'', pi_driversDir = ''/d'',
      pi_configPaths = [], pi_download = (\<lambda>url dest f. (Inl (JsError ''offline''), f)),
      pi_downloadText = (\<lambda>url f. (Inl (JsError ''offline''), f)),
      pi_goVersion = (\<lambda>f. (Inl (JsError ''no go''), f)), pi_goBuild = (\<lambda>dest f. (Inl (JsError ''no go''), f)),
      pi_sha256 = (\<lambda>c. c)\<rparr>"

definition sample_net :: network where
  "sample_net url =
     (if url = ''mirror'' then Reply 200 None ''abc  omnibase-sidecar-linux-amd64''
      else if url = asset_url sample_install ''checksums-sha256.txt'' then Reply 302 (Some ''mirror'') []
      else Reply 200 None ''abc'')"

definition sample_body :: "string \<Rightarrow> string" where
  "sample_body url =
     (if url = ''mirror'' \<or> url = asset_url sample_install ''checksums-sha256.txt''
      then ''abc  omnibase-sidecar-linux-amd64'' else ''abc'')"

lemma sample_net_download: "download_to_string sample_net u = Some (Inr (sample_body u))"
proof -
  have mirror: "download_to_string sample_net ''mirror'' = Some (Inr ''abc  omnibase-sidecar-linux-amd64'')"
    by (subst download_to_string.simps) (simp add: sample_net_def)
  show ?thesis
  proof (cases "u = ''mirror''")
    case False
    then show ?thesis
      by (subst download_to_string.simps) (simp add: sample_net_def sample_body_def mirror)
  qed (simp add: mirror sample_body_def)
qed

lemma sample_net_settled: "settled_network sample_net"
  by (simp add: settled_network_def sample_net_download)

lemma on_sample_net:
  "on_network sample_net sample_install =
     sample_install\<lparr>pi_download := (\<lambda>url dest f. (Inr (), f(dest \<mapsto> sample_body url))),
       pi_downloadText := (\<lambda>url f. (Inr (sample_body url), f))\<rparr>"
proof -
  have "net_effect sample_net = (\<lambda>url dest f. (Inr (), f(dest \<mapsto> sample_body url)))"
    "net_text sample_net = (\<lambda>url f. (Inr (sample_body url), f))"
    by (simp_all add: fun_eq_iff net_effect_def net_text_def download_def sample_net_download)
  then show ?thesis by (simp add: on_network_def)
qed

lemma sample_install_ok:
  "\<exists>e. pi_goVersion sample_install f = (Inl e, f)"
  "path_join (pi_driversDir sample_install) n \<noteq> local_binary_path sample_install"
  by (simp_all add: sample_install_def local_binary_path_def path_join_def)

lemma sample_install_run:
  "snd (postinstall (on_network sample_net sample_install) Map.empty) (local_binary_path sample_install) = Some ''abc''"
  unfolding on_sample_net by code_simp

section \<open>Editing the configuration\<close>

definition sample_document :: "jsval obj" where
  "sample_document = [(''connections'', JObj [(''db'', JObj [(''dsn'', JStr ''sqlite:x.db'')])])]"

definition sample_raw :: raw_config where
  "sample_raw =
     \<lparr>raw_connections = [(''db'', \<lparr>rc_dsn = Some ''sqlite:x.db'', rc_permission = None, rc_timeout = None,
        rc_max_rows = None, rc_schema_filter = None, rc_allow_all_pragmas = None, rc_max_value_length = None,
        rc_read_only_tables = None\<rparr>)],
      raw_defaults_of = None,
      raw_tools = Some [(''one'', \<lparr>rt_connection = Some ''db'', rt_description = Some ''sample'',
        rt_sql = Some ''SELECT 1'', rt_steps = None, rt_compose = None, rt_permission = None,
        rt_max_rows = None, rt_timeout = None, rt_parameters = None\<rparr>)],
      raw_audit_of = None, raw_schema_hints = None\<rparr>"

definition sample_process :: process_env where
  "sample_process =
     \<lparr>pe_var = (\<lambda>n. None), pe_cwd = ''/w'', pe_exists = (\<lambda>p. False), pe_dirname = (\<lambda>p. p), pe_join = concat,
      pe_resolve = (\<lambda>p. p)\<rparr>"

text \<open>The file \<open>A\<close> holds the sample document, the file \<open>B\<close> the document with the tool \<open>one\<close>.\<close>

definition sample_entry_of_tool :: jsval where
  "sample_entry_of_tool = tool_entry ''db'' ''sample'' ''SELECT 1'' (JUndef, JUndef, JUndef) []"

definition sample_shell_env :: "string list shell_env" where
  "sample_shell_env =
     \<lparr>se_argv = [], se_configPath = Some ''/w/omnibase.config.yaml'', se_env = sample_process,
      se_yaml = (\<lambda>t. Inr (if t = ''A'' then JObj sample_document
        else JObj (sample_document @ [(''tools'', JObj [(''one'', sample_entry_of_tool)])]))),
      se_yamlText = (\<lambda>d. if d = JObj sample_document then ''A'' else ''B''),
      se_raw = (\<lambda>d. if d = JObj sample_document then sample_raw\<lparr>raw_tools := None\<rparr> else sample_raw),
      se_sqlFile = (\<lambda>p. Inl (JsError ''ENOENT'')), se_start = Inr (), se_backend = sample_backend\<rparr>"

definition sample_shell :: "user_input list \<Rightarrow> string \<Rightarrow> string list shell" where
  "sample_shell inputs config = \<lparr>sh_inputs = inputs, sh_config = config, sh_cm = initial_sys []\<rparr>"

text \<open>A name that is refused, then the answers of the dialogue.\<close>

definition sample_inputs :: "user_input list" where
  "sample_inputs =
     [Entered ''1x'', Entered ''one'', Entered ''db'', Entered ''sample'', Entered ''SELECT 1'', Chosen False, Chosen True]"

lemma sample_add:
  "fst (add_tool sample_shell_env (sample_shell sample_inputs ''A'')) = Ret (''one'', sample_entry_of_tool)"
  "sh_config (snd (add_tool sample_shell_env (sample_shell sample_inputs ''A''))) = ''B''"
  by code_simp+

lemma sample_remove:
  "fst (remove_tool sample_shell_env (sample_shell [Entered ''one'', Chosen True] ''B'')) = Ret (Some ''one'')"
  by code_simp

end
