(* ===== verification/AuditTail.thy ===== *)
theory AuditTail
  imports CommandLine
begin

text \<open>
  \<open>audit tail\<close> (\<open>src/cli/audit.ts\<close>): it prints the log, takes its size, and every half second
  prints what was appended since. The reads are asynchronous: between the size and the read,
  and while a read is under way, the log may grow and the timer may fire again. A read gets
  everything up to the end of the file at that moment. Sizes are counted in characters, so the
  log is taken to be ASCII.
\<close>

section \<open>The state\<close>

text \<open>
  What has been read, in the order of printing; the size taken last; the reads under way,
  each with its first byte and with the size that is recorded when it ends. \<open>tl_size\<close> is
  missing until the first size is taken.
\<close>

record tail_state =
  tl_content :: string
  tl_printed :: "string list"
  tl_size :: "nat option"
  tl_reads :: "(nat \<times> nat) list"

definition shown :: "tail_state \<Rightarrow> (string \<Rightarrow> string \<Rightarrow> string) \<Rightarrow> string list" where
  "shown s paint = map (format_line paint) (tl_printed s)"

text \<open>\<open>await printLines(logPath, null)\<close>\<close>

definition tail_start :: "string \<Rightarrow> tail_state" where
  "tail_start content = \<lparr>tl_content = content, tl_printed = log_lines_of content, tl_size = None, tl_reads = []\<rparr>"

text \<open>\<open>let lastSize = statSync(logPath).size\<close>\<close>

definition first_size :: "tail_state \<Rightarrow> tail_state" where
  "first_size s = s\<lparr>tl_size := Some (length (tl_content s))\<rparr>"

text \<open>The timer: a read starts when the log is larger than the size taken last.\<close>

definition tick :: "tail_state \<Rightarrow> tail_state" where
  "tick s =
     (case tl_size s of
        None \<Rightarrow> s
      | Some lastSize \<Rightarrow>
          (if length (tl_content s) > lastSize
           then s\<lparr>tl_reads := tl_reads s @ [(lastSize, length (tl_content s))]\<rparr> else s))"

text \<open>\<open>await printLinesFrom(logPath, lastSize); lastSize = currentSize\<close>\<close>

definition finish_read :: "nat \<times> nat \<Rightarrow> tail_state \<Rightarrow> tail_state" where
  "finish_read r s =
     s\<lparr>tl_printed := tl_printed s @ log_lines_of (drop (fst r) (tl_content s)),
       tl_size := Some (snd r), tl_reads := remove1 r (tl_reads s)\<rparr>"

text \<open>A failed read is ignored; the size stays as it is.\<close>

definition drop_read :: "nat \<times> nat \<Rightarrow> tail_state \<Rightarrow> tail_state" where
  "drop_read r s = s\<lparr>tl_reads := remove1 r (tl_reads s)\<rparr>"

text \<open>The command, on the log when there is one; without a log it ends after a message.\<close>

definition tail_command :: "string option \<Rightarrow> tail_state option" where
  "tail_command content = map_option tail_start content"

definition append_log :: "string \<Rightarrow> tail_state \<Rightarrow> tail_state" where
  "append_log t s = s\<lparr>tl_content := tl_content s @ t\<rparr>"

definition rewrite_log :: "string \<Rightarrow> tail_state \<Rightarrow> tail_state" where
  "rewrite_log content s = s\<lparr>tl_content := content\<rparr>"

text \<open>Whole lines: the audit logger appends entries that end with a line feed.\<close>

definition whole_lines :: "string \<Rightarrow> bool" where
  "whole_lines t \<longleftrightarrow> t = [] \<or> last t = newline"

text \<open>The log only grows by whole lines, in any order with the timer and the ends of reads.\<close>

inductive tail_step :: "tail_state \<Rightarrow> tail_state \<Rightarrow> bool" where
  tail_append: "whole_lines t \<Longrightarrow> tl_size s \<noteq> None \<Longrightarrow> tail_step s (append_log t s)"
| tail_tick: "tail_step s (tick s)"
| tail_read: "r \<in> set (tl_reads s) \<Longrightarrow> tail_step s (finish_read r s)"
| tail_drop: "r \<in> set (tl_reads s) \<Longrightarrow> tail_step s (drop_read r s)"

section \<open>Lines of a text in two parts\<close>

lemma read_lines_nonempty: "read_lines (c # cs) \<noteq> []"
  by (cases cs) (auto split: list.split)

lemma read_lines_append: "whole_lines xs \<Longrightarrow> read_lines (xs @ ys) = read_lines xs @ read_lines ys"
proof (induction xs rule: read_lines.induct)
  case (2 c)
  then show ?case by (cases ys) (auto simp: whole_lines_def)
next
  case (3 c d cs)
  have rest: "whole_lines (d # cs)" using 3(4) by (simp add: whole_lines_def)
  show ?case
  proof (cases "c = CHR 0x0D \<and> d = newline")
    case True
    then have "whole_lines cs" using 3(4) by (auto simp: whole_lines_def split: if_splits)
    then show ?thesis using 3(1) True by simp
  next
    case False
    then show ?thesis
      using 3(2,3) rest by (cases "c = newline \<or> c = CHR 0x0D") (auto split: list.split simp: whole_lines_def read_lines_nonempty)
  qed
qed simp

lemma log_lines_append: "whole_lines xs \<Longrightarrow> log_lines_of (xs @ ys) = log_lines_of xs @ log_lines_of ys"
  by (simp add: log_lines_of_def read_lines_append)

section \<open>Nothing is missed\<close>

text \<open>All lines before a position, which is the end of a line, have been printed.\<close>

definition line_end :: "string \<Rightarrow> nat \<Rightarrow> bool" where
  "line_end content x \<longleftrightarrow> x \<le> length content \<and> whole_lines (take x content)"

definition covered :: "tail_state \<Rightarrow> nat \<Rightarrow> bool" where
  "covered s x \<longleftrightarrow> line_end (tl_content s) x \<and> set (log_lines_of (take x (tl_content s))) \<subseteq> set (tl_printed s)"

definition tail_inv :: "tail_state \<Rightarrow> bool" where
  "tail_inv s \<longleftrightarrow> whole_lines (tl_content s) \<and>
     (\<exists>x. tl_size s = Some x \<and> covered s x) \<and>
     (\<forall>(st, cur) \<in> set (tl_reads s). covered s st \<and> line_end (tl_content s) cur \<and> st \<le> cur)"

lemma line_end_whole: "whole_lines t \<Longrightarrow> line_end t (length t)"
  by (simp add: line_end_def)

lemma whole_lines_append: "whole_lines xs \<Longrightarrow> whole_lines ys \<Longrightarrow> whole_lines (xs @ ys)"
  by (auto simp: whole_lines_def last_append)

lemma whole_lines_part: "whole_lines (xs @ ys) \<Longrightarrow> whole_lines ys"
  by (auto simp: whole_lines_def last_append split: if_splits)

lemma line_end_append: "line_end content x \<Longrightarrow> line_end (content @ t) x"
  by (simp add: line_end_def)

lemma covered_append: "covered s x \<Longrightarrow> covered (append_log t s) x"
  by (auto simp: covered_def append_log_def line_end_def)

lemma lines_between:
  assumes "line_end content st" "line_end content cur" "st \<le> cur"
  shows "set (log_lines_of (take cur content)) \<subseteq> set (log_lines_of (take st content)) \<union> set (log_lines_of (drop st content))"
proof -
  let ?mid = "take (cur - st) (drop st content)"
  have cur: "take cur content = take st content @ ?mid" using assms(3) by (metis le_add_diff_inverse take_add)
  have "whole_lines ?mid" using assms(2) whole_lines_part unfolding line_end_def cur by blast
  then have "log_lines_of (drop st content) = log_lines_of ?mid @ log_lines_of (drop (cur - st) (drop st content))"
    using log_lines_append by (metis append_take_drop_id)
  moreover have "log_lines_of (take cur content) = log_lines_of (take st content) @ log_lines_of ?mid"
    unfolding cur using assms(1) by (intro log_lines_append) (simp add: line_end_def)
  ultimately show ?thesis by auto
qed

lemma covered_read:
  assumes "covered s st" "line_end (tl_content s) cur" "st \<le> cur"
  shows "covered (finish_read (st, cur) s) cur"
  using lines_between [of "tl_content s" st cur] assms by (auto simp: covered_def finish_read_def)

lemma covered_more: "covered s x \<Longrightarrow> covered (finish_read r s) x"
  by (auto simp: covered_def finish_read_def)

lemma tail_inv_start: "whole_lines content \<Longrightarrow> tail_inv (first_size (tail_start content))"
  by (simp add: tail_inv_def first_size_def tail_start_def covered_def line_end_whole)

lemma tail_inv_tick: "tail_inv s \<Longrightarrow> tail_inv (tick s)"
  by (auto simp: tail_inv_def tick_def covered_def line_end_whole split: option.split)

lemma tail_inv_read:
  assumes "tail_inv s" "r \<in> set (tl_reads s)"
  shows "tail_inv (finish_read r s)"
proof -
  obtain st cur where r: "r = (st, cur)" by fastforce
  have "covered s st" "line_end (tl_content s) cur" "st \<le> cur" using assms r by (auto simp: tail_inv_def)
  then have "covered (finish_read r s) cur" using covered_read r by simp
  moreover have "covered (finish_read r s) x \<and> line_end (tl_content s) y \<and> x \<le> y"
    if "(x, y) \<in> set (tl_reads (finish_read r s))" for x y
  proof -
    have "(x, y) \<in> set (tl_reads s)" using that set_remove1_subset by (fastforce simp: finish_read_def)
    then show ?thesis using assms(1) by (auto simp: tail_inv_def intro: covered_more)
  qed
  ultimately show ?thesis using assms(1) r by (auto simp: tail_inv_def finish_read_def)
qed

lemma tail_inv_append: "tail_inv s \<Longrightarrow> whole_lines t \<Longrightarrow> tail_inv (append_log t s)"
  using covered_append [of s _ t] line_end_append [of "tl_content s" _ t]
  by (fastforce simp: tail_inv_def append_log_def intro: whole_lines_append)

lemma tail_inv_drop: "tail_inv s \<Longrightarrow> tail_inv (drop_read r s)"
proof -
  assume inv: "tail_inv s"
  have cov: "covered (drop_read r s) x = covered s x" for x by (simp add: covered_def drop_read_def)
  have "set (tl_reads (drop_read r s)) \<subseteq> set (tl_reads s)" by (simp add: drop_read_def set_remove1_subset)
  then show ?thesis using inv unfolding tail_inv_def cov by (simp add: drop_read_def) blast
qed

lemma tail_inv_step: "tail_inv s \<Longrightarrow> tail_step s t \<Longrightarrow> tail_inv t"
  by (erule tail_step.cases) (auto intro: tail_inv_append tail_inv_tick tail_inv_read tail_inv_drop)

interpretation at: invariant_machine "\<lambda>s. \<exists>c. whole_lines c \<and> s = first_size (tail_start c)" tail_step tail_inv
  by unfold_locales (auto intro: tail_inv_start tail_inv_step)

text \<open>The next time the timer fires, and its read ends, everything is printed.\<close>

lemma tail_catches_up:
  assumes "tail_inv s"
  shows "\<exists>t. tail_step\<^sup>*\<^sup>* s t \<and> tl_content t = tl_content s \<and> set (log_lines_of (tl_content s)) \<subseteq> set (tl_printed t)"
proof -
  obtain x where x: "tl_size s = Some x" "covered s x" using assms by (auto simp: tail_inv_def)
  show ?thesis
  proof (cases "length (tl_content s) > x")
    case False
    then show ?thesis using x by (intro exI [of _ s]) (auto simp: covered_def line_end_def)
  next
    case True
    let ?r = "(x, length (tl_content s))"
    let ?t = "finish_read ?r (tick s)"
    have tick: "tl_content (tick s) = tl_content s" "?r \<in> set (tl_reads (tick s))" using x True by (simp_all add: tick_def)
    have "tail_step\<^sup>*\<^sup>* s ?t" using tail_tick tail_read [OF tick(2)] by (meson r_into_rtranclp rtranclp.rtrancl_into_rtrancl)
    moreover have "covered ?t (length (tl_content s))"
      using covered_read [of "tick s" x "length (tl_content s)"] x tick True assms
      by (simp add: tail_inv_def covered_def line_end_whole tick_def)
    ultimately show ?thesis using tick by (intro exI [of _ ?t]) (auto simp: covered_def finish_read_def)
  qed
qed

section \<open>Quiet rounds are exact\<close>

text \<open>An appended text, the timer, and the read that it starts, without anything in between.\<close>

definition quiet_round :: "string \<Rightarrow> tail_state \<Rightarrow> tail_state" where
  "quiet_round t s =
     (let s1 = tick (append_log t s) in case tl_reads s1 of [] \<Rightarrow> s1 | r # rs \<Rightarrow> finish_read r s1)"

definition in_step :: "string \<Rightarrow> tail_state \<Rightarrow> bool" where
  "in_step content s \<longleftrightarrow> whole_lines content \<and> tl_content s = content \<and> tl_reads s = [] \<and>
     tl_size s = Some (length content) \<and> tl_printed s = log_lines_of content"

lemma in_step_round:
  assumes "in_step content s" "whole_lines t"
  shows "in_step (content @ t) (quiet_round t s)"
  using assms
  by (cases "t = []") (simp_all add: in_step_def quiet_round_def tick_def append_log_def finish_read_def
      whole_lines_append log_lines_append)

lemma quiet_rounds_exact:
  assumes "whole_lines content" "list_all whole_lines ts"
  shows "in_step (content @ concat ts) (fold quiet_round ts (first_size (tail_start content)))"
proof -
  have "in_step c s \<Longrightarrow> in_step (c @ concat ts) (fold quiet_round ts s)" for c s
    using assms(2)
  proof (induction ts arbitrary: c s)
    case (Cons t ts)
    then show ?case using in_step_round [of c s t] Cons.IH [of "c @ t" "quiet_round t s"] by simp
  qed simp
  moreover have "in_step content (first_size (tail_start content))"
    using assms(1) by (simp add: in_step_def first_size_def tail_start_def)
  ultimately show ?thesis .
qed

section \<open>What the timer gets wrong\<close>

text \<open>A line that is appended while a read is under way is printed twice.\<close>

definition two_lines :: tail_state where
  "two_lines =
     (let s = append_log (''b'' @ [newline]) (first_size (tail_start (''a'' @ [newline])));
          s1 = append_log (''c'' @ [newline]) (tick s); s2 = finish_read (2, 4) s1 in
      finish_read (4, 6) (tick s2))"

theorem tail_repeats_line: "tl_printed two_lines = [''a'', ''b'', ''c'', ''c'']"
  by code_simp

text \<open>A line that is appended between the first print and the first size is never printed.\<close>

theorem tail_loses_line:
  "tl_printed (tick (first_size (append_log (''b'' @ [newline]) (tail_start (''a'' @ [newline]))))) = [''a'']"
  by code_simp

text \<open>When the logger prunes the log, the size is above its length, and what follows is not printed.\<close>

definition pruned_log :: tail_state where
  "pruned_log =
     append_log (''d'' @ [newline])
       (rewrite_log (''c'' @ [newline]) (first_size (tail_start (concat [''a'', [newline], ''b'', [newline], ''c'', [newline]]))))"

theorem tail_stalls_after_prune: "tick pruned_log = pruned_log \<and> ''d'' \<notin> set (tl_printed pruned_log)"
  by (simp add: pruned_log_def tick_def append_log_def rewrite_log_def first_size_def tail_start_def)
    code_simp

end
