(* ===== verification/AuditRaces.thy ===== *)
theory AuditRaces
  imports AuditTrail "HOL-Library.Sublist"
begin

text \<open>
  The audit logger under interleaving (\<open>src/audit-logger.ts\<close>). The server does not wait for one
  request before it takes the next, so calls of \<open>log\<close> overlap: each is cut at every \<open>await\<close>, and
  a file operation may succeed or fail. One file operation is one step; an operation that fails
  leaves the log as it was.

  Every line of the log is still the line of some entry, in the order of the appends, but the
  newest lines are not always kept: what is appended while a prune is between its read and its
  write is lost (\<open>prune_loses_line\<close>).
\<close>

section \<open>Calls and their stages\<close>

text \<open>The file operation that a call of \<open>log\<close> waits for.\<close>

datatype audit_stage =
    MakingDir string audit_entry
  | Appending string
  | PruneReading
  | PruneWriting string
  | Logged

text \<open>\<open>am_history\<close> records the lines that have been appended (without their line feeds), for the
  statements below.\<close>

record audit_machine =
  am_content :: string
  am_writesSincePrune :: nat
  am_tasks :: "nat \<Rightarrow> audit_stage"
  am_history :: "string list"

definition put_audit :: "nat \<Rightarrow> audit_stage \<Rightarrow> audit_machine \<Rightarrow> audit_machine" where
  "put_audit p st M = M\<lparr>am_tasks := (am_tasks M)(p := st)\<rparr>"

text \<open>\<open>log\<close> up to its first \<open>await\<close>.\<close>

definition begin_log :: "audit_config \<Rightarrow> nat \<Rightarrow> string \<Rightarrow> audit_entry \<Rightarrow> audit_machine \<Rightarrow> audit_machine" where
  "begin_log config p ts entry M =
     put_audit p (if ac_enabled config then MakingDir ts entry else Logged) M"

text \<open>After the append: the write is counted, and the hundredth one goes on to the prune.\<close>

definition appended :: "audit_config \<Rightarrow> nat \<Rightarrow> string \<Rightarrow> audit_machine \<Rightarrow> audit_machine" where
  "appended config p line M =
     (let M1 = M\<lparr>am_content := am_content M @ line, am_history := am_history M @ [butlast line]\<rparr> in
      if ac_maxEntries config > 0 then
        let n = am_writesSincePrune M1 + 1 in
        if n \<ge> prune_interval then put_audit p PruneReading (M1\<lparr>am_writesSincePrune := 0\<rparr>)
        else put_audit p Logged (M1\<lparr>am_writesSincePrune := n\<rparr>)
      else put_audit p Logged M1)"

text \<open>What a prune does with the content that it has read.\<close>

definition prune_stage :: "audit_config \<Rightarrow> string \<Rightarrow> audit_stage" where
  "prune_stage config content =
     (let lines = nonblank_lines content in
      if int (length lines) > ac_maxEntries config then
        let pruned = js_slice (int (length lines) - ac_maxEntries config) (int (length lines)) lines in
        PruneWriting (join [newline] pruned @ [newline])
      else Logged)"

text \<open>The operation that a call waits for succeeds, or fails: a failure always ends the call.\<close>

fun resume_log :: "audit_config \<Rightarrow> nat \<Rightarrow> audit_stage \<Rightarrow> audit_machine \<Rightarrow> audit_machine" where
  "resume_log config p (MakingDir ts entry) M = put_audit p (Appending (audit_line (ac_format config) ts entry)) M"
| "resume_log config p (Appending line) M = appended config p line M"
| "resume_log config p PruneReading M = put_audit p (prune_stage config (am_content M)) M"
| "resume_log config p (PruneWriting text) M = put_audit p Logged (M\<lparr>am_content := text\<rparr>)"
| "resume_log config p Logged M = M"

definition fail_log :: "nat \<Rightarrow> audit_machine \<Rightarrow> audit_machine" where
  "fail_log p M = put_audit p Logged M"

inductive audit_step :: "audit_config \<Rightarrow> audit_machine \<Rightarrow> audit_machine \<Rightarrow> bool"
  for config :: audit_config where
  audit_begin: "am_tasks M p = Logged \<Longrightarrow> audit_step config M (begin_log config p ts entry M)"
| audit_resume: "audit_step config M (resume_log config p (am_tasks M p) M)"
| audit_fail: "audit_step config M (fail_log p M)"

definition audit_start :: "string \<Rightarrow> audit_machine" where
  "audit_start content =
     \<lparr>am_content = content, am_writesSincePrune = 0, am_tasks = (\<lambda>_. Logged), am_history = []\<rparr>"

lemmas audit_simps = put_audit_def begin_log_def appended_def prune_stage_def fail_log_def audit_start_def Let_def

section \<open>A call alone is the sequential one\<close>

text \<open>Four file operations at most: directory, append, read, write.\<close>

definition log_alone :: "audit_config \<Rightarrow> string \<Rightarrow> audit_entry \<Rightarrow> audit_machine \<Rightarrow> audit_machine" where
  "log_alone config ts entry M =
     ((\<lambda>M. resume_log config 0 (am_tasks M 0) M) ^^ 4) (begin_log config 0 ts entry M)"

lemma log_alone_steps: "am_tasks M 0 = Logged \<Longrightarrow> (audit_step config)\<^sup>*\<^sup>* M (log_alone config ts entry M)"
proof -
  assume "am_tasks M 0 = Logged"
  then have "audit_step config M (begin_log config 0 ts entry M)" by (rule audit_begin)
  moreover have "(audit_step config)\<^sup>*\<^sup>* N (((\<lambda>M. resume_log config 0 (am_tasks M 0) M) ^^ n) N)" for N n
    by (induction n) (auto intro: audit_resume rtranclp.rtrancl_into_rtrancl)
  ultimately show ?thesis unfolding log_alone_def by (rule converse_rtranclp_into_rtranclp)
qed

lemma funpow_4: "(f ^^ 4) x = f (f (f (f x)))"
  by (simp add: numeral_eq_Suc)

lemma log_alone_refines:
  assumes fs: "reliable fs content"
    and M: "am_content M = content (lg_world l)" "am_writesSincePrune M = lg_writesSincePrune l" "am_tasks M 0 = Logged"
  shows "content (lg_world (snd (log_entry fs config entry l))) =
      am_content (log_alone config (fs_now fs (lg_world l)) entry M) \<and>
    lg_writesSincePrune (snd (log_entry fs config entry l)) =
      am_writesSincePrune (log_alone config (fs_now fs (lg_world l)) entry M) \<and>
    am_tasks (log_alone config (fs_now fs (lg_world l)) entry M) 0 = Logged"
proof -
  let ?t = "audit_line (ac_format config) (fs_now fs (lg_world l)) entry"
  obtain w where mk: "fs_mkdir fs (lg_world l) = (Inr (), w)" "content w = content (lg_world l)"
    using fs unfolding reliable_def by (metis prod.collapse)
  obtain w1 where ap: "fs_append fs ?t w = (Inr (), w1)" "content w1 = content (lg_world l) @ ?t"
    using fs mk(2) unfolding reliable_def by (metis prod.collapse)
  obtain w2 where rd: "fs_read fs w1 = (Inr (content w1), w2)" "content w2 = content w1"
    using fs unfolding reliable_def by (metis prod.collapse)
  obtain w3 where wr: "\<And>t. fs_write fs t w2 = (Inr (), w3 t)" "\<And>t. content (w3 t) = t"
  proof (rule that [of "\<lambda>t. snd (fs_write fs t w2)"])
    show "fs_write fs t w2 = (Inr (), snd (fs_write fs t w2))" "content (snd (fs_write fs t w2)) = t" for t
      using fs by (simp_all add: reliable_def prod_eq_iff)
  qed
  let ?c = "content (lg_world l) @ ?t"
  note run = log_entry_def count_write_def prune_if_needed_def run_simps mk ap rd wr(1) Let_def
  note alone = log_alone_def funpow_4 put_audit_def begin_log_def appended_def Let_def M mk ap
  consider "\<not> ac_enabled config" | "ac_enabled config" "\<not> ac_maxEntries config > 0"
    | "ac_enabled config" "ac_maxEntries config > 0" "\<not> lg_writesSincePrune l + 1 \<ge> prune_interval"
    | "ac_enabled config" "ac_maxEntries config > 0" "lg_writesSincePrune l + 1 \<ge> prune_interval"
    by blast
  then show ?thesis
  proof cases
    case 1
    then show ?thesis by (simp add: run alone)
  next
    case 2
    then show ?thesis by (simp add: run alone)
  next
    case 3
    then show ?thesis by (simp add: run alone)
  next
    case 4
    show ?thesis
    proof (cases "int (length (nonblank_lines ?c)) > ac_maxEntries config")
      case True
      then show ?thesis using 4 by (simp add: run alone prune_stage_def wr)
    next
      case False
      then show ?thesis using 4 by (simp add: run alone prune_stage_def rd)
    qed
  qed
qed

section \<open>What the log may hold\<close>

text \<open>
  A view relates a text to the lines logged so far. It must survive a clean line at the end of
  both, and the pruning of the text; a view that also survives lines that only the history
  gains (\<open>lossy\<close>) holds under every interleaving, any other one as long as nothing is appended
  while a prune waits for its write.
\<close>

definition undisturbed :: "audit_machine \<Rightarrow> audit_machine \<Rightarrow> bool" where
  "undisturbed M N \<longleftrightarrow> am_history N = am_history M \<or> (\<forall>p t. am_tasks M p \<noteq> PruneWriting t)"

definition stage_ok :: "(string \<Rightarrow> bool) \<Rightarrow> audit_stage \<Rightarrow> bool" where
  "stage_ok V st \<longleftrightarrow>
     (\<forall>line. st = Appending line \<longrightarrow> (\<exists>l. clean_line l \<and> line = l @ [newline])) \<and> (\<forall>t. st = PruneWriting t \<longrightarrow> V t)"

lemma stage_ok_simps [simp]:
  "stage_ok V (MakingDir ts e)" "stage_ok V PruneReading" "stage_ok V Logged"
  "stage_ok V (Appending line) \<longleftrightarrow> (\<exists>l. clean_line l \<and> line = l @ [newline])" "stage_ok V (PruneWriting t) \<longleftrightarrow> V t"
  by (simp_all add: stage_ok_def)

definition view_inv :: "(string list \<Rightarrow> string \<Rightarrow> bool) \<Rightarrow> string list \<Rightarrow> audit_machine \<Rightarrow> bool" where
  "view_inv V old M \<longleftrightarrow> V (old @ am_history M) (am_content M) \<and> am_writesSincePrune M < prune_interval \<and>
     (\<forall>p. stage_ok (V (old @ am_history M)) (am_tasks M p))"

lemma view_inv_put:
  "view_inv V old M \<Longrightarrow> stage_ok (V (old @ am_history M)) st \<Longrightarrow> view_inv V old (put_audit p st M)"
  by (simp add: view_inv_def put_audit_def)

lemma view_inv_task: "view_inv V old M \<Longrightarrow> stage_ok (V (old @ am_history M)) (am_tasks M p)"
  by (simp add: view_inv_def)

definition prunes :: "audit_config \<Rightarrow> bool" where
  "prunes config \<longleftrightarrow> jsonl_audit config \<and> 0 < ac_maxEntries config"

locale audit_view =
  fixes V :: "audit_config \<Rightarrow> string list \<Rightarrow> string \<Rightarrow> bool" and lossy :: bool
  assumes view_append: "V config ls t \<Longrightarrow> clean_line l \<Longrightarrow> V config (ls @ [l]) (t @ l @ [newline])"
    and view_prune: "prunes config \<Longrightarrow> V config ls t \<Longrightarrow> prune_stage config t = PruneWriting u \<Longrightarrow> V config ls u"
    and view_lossy: "lossy \<Longrightarrow> V config ls t \<Longrightarrow> V config (ls @ [l]) t"
begin

lemma prune_stage_ok: "prunes config \<Longrightarrow> V config ls t \<Longrightarrow> stage_ok (V config ls) (prune_stage config t)"
  using view_prune by (auto simp: prune_stage_def Let_def)

lemma view_appended:
  assumes inv: "view_inv (V config) old M" and line: "am_tasks M p = Appending line"
    and quiet: "lossy \<or> (\<forall>q t. am_tasks M q \<noteq> PruneWriting t)"
  shows "view_inv (V config) old (appended config p line M)"
proof -
  obtain l where l: "clean_line l" "line = l @ [newline]"
    using view_inv_task [OF inv, of p] line by auto
  let ?ls = "old @ am_history M"
  have tasks: "stage_ok (V config (?ls @ [l])) (am_tasks M q)" for q
    using view_inv_task [OF inv, of q] view_lossy quiet unfolding stage_ok_def by blast
  have counted: "view_inv (V config) old
      (M\<lparr>am_content := am_content M @ line, am_history := am_history M @ [l], am_writesSincePrune := n\<rparr>)"
    if "n < prune_interval" for n
    using inv tasks view_append [OF _ l(1), of config ?ls "am_content M"] that l(2) by (simp add: view_inv_def)
  have bound: "am_writesSincePrune M < prune_interval" using inv by (simp add: view_inv_def)
  have "M\<lparr>am_content := am_content M @ line, am_history := am_history M @ [l]\<rparr> =
      M\<lparr>am_content := am_content M @ line, am_history := am_history M @ [l], am_writesSincePrune := am_writesSincePrune M\<rparr>"
    by simp
  with counted [OF bound] have "view_inv (V config) old (M\<lparr>am_content := am_content M @ line, am_history := am_history M @ [l]\<rparr>)"
    by metis
  then show ?thesis
    using counted [of 0] counted [of "am_writesSincePrune M + 1"] l(2)
    by (auto simp: appended_def Let_def prune_interval_def intro!: view_inv_put)
qed

lemma view_resume:
  assumes config: "prunes config" and inv: "view_inv (V config) old M" and quiet: "lossy \<or> undisturbed M (resume_log config p (am_tasks M p) M)"
  shows "view_inv (V config) old (resume_log config p (am_tasks M p) M)"
proof (cases "am_tasks M p")
  case (MakingDir ts e)
  have jsonl: "ac_format config = Jsonl" using assms(1) by (simp add: prunes_def jsonl_audit_def)
  have "stage_ok W (Appending (audit_line (ac_format config) ts e))" for W
    using audit_record_line by (auto simp: audit_line_def jsonl)
  then show ?thesis using inv MakingDir by (simp add: view_inv_put del: stage_ok_simps)
next
  case (Appending line)
  have "am_history (appended config p line M) \<noteq> am_history M" by (simp add: audit_simps)
  then have "lossy \<or> (\<forall>q t. am_tasks M q \<noteq> PruneWriting t)" using quiet Appending by (simp add: undisturbed_def)
  then show ?thesis using view_appended [OF inv Appending] Appending by simp
next
  case PruneReading
  then show ?thesis using inv by (simp add: view_inv_put prune_stage_ok [OF config] view_inv_def [of "V config" old M])
next
  case (PruneWriting t)
  then have "V config (old @ am_history M) t" using view_inv_task [OF inv, of p] by simp
  then have "view_inv (V config) old (M\<lparr>am_content := t\<rparr>)" using inv by (simp add: view_inv_def)
  then show ?thesis using PruneWriting by (simp add: view_inv_put)
qed (simp add: inv)

lemma view_step:
  assumes "audit_step config M N" "prunes config" "view_inv (V config) old M" "lossy \<or> undisturbed M N"
  shows "view_inv (V config) old N"
  using assms by cases (auto simp: begin_log_def fail_log_def intro: view_inv_put view_resume)

lemma view_start: "V config old content \<Longrightarrow> view_inv (V config) old (audit_start content)"
  by (simp add: view_inv_def audit_start_def prune_interval_def)

end

text \<open>The first view: some of the lines, in their order.\<close>

definition some_lines :: "string list \<Rightarrow> string \<Rightarrow> bool" where
  "some_lines ls t \<longleftrightarrow> (\<exists>ms. t = file_text ms \<and> subseq ms ls \<and> list_all clean_line ms)"

text \<open>The second: all but the first lines, the newest \<open>m\<close> among them.\<close>

definition newest_lines :: "nat \<Rightarrow> string list \<Rightarrow> string \<Rightarrow> bool" where
  "newest_lines m ls t \<longleftrightarrow> list_all clean_line ls \<and> (\<exists>k \<le> length ls - m. t = file_text (drop k ls))"

lemma prune_stage_lines:
  assumes "0 < ac_maxEntries config" "list_all clean_line ms"
  shows "prune_stage config (file_text ms) =
    (if length ms > nat (ac_maxEntries config)
     then PruneWriting (file_text (drop (length ms - nat (ac_maxEntries config)) ms)) else Logged)"
proof (cases "length ms > nat (ac_maxEntries config)")
  case True
  have "js_slice (int (length ms) - ac_maxEntries config) (int (length ms)) ms = drop (length ms - nat (ac_maxEntries config)) ms"
    using True assms(1) by (simp add: js_slice_nonneg nat_diff_distrib)
  moreover have "drop (length ms - nat (ac_maxEntries config)) ms \<noteq> []" using True assms(1) by simp
  ultimately show ?thesis
    using True assms by (simp add: prune_stage_def Let_def nonblank_file_text join_file_text)
next
  case False
  then show ?thesis using assms by (simp add: prune_stage_def Let_def nonblank_file_text)
qed

interpretation sv: audit_view "\<lambda>_. some_lines" True
proof
  show "some_lines (ls @ [l]) (t @ l @ [newline])" if h: "some_lines ls t" "clean_line l" for ls t l
  proof -
    obtain ms where "t = file_text ms" "subseq ms ls" "list_all clean_line ms" using h(1) by (auto simp: some_lines_def)
    then show ?thesis using h(2) by (auto simp: some_lines_def intro!: exI [of _ "ms @ [l]"] list_emb_append_mono)
  qed
  show "some_lines ls u" if h: "prunes config" "some_lines ls t" "prune_stage config t = PruneWriting u" for config ls t u
  proof -
    obtain ms where ms: "t = file_text ms" "subseq ms ls" "list_all clean_line ms" using h(2) by (auto simp: some_lines_def)
    then obtain k where "u = file_text (drop k ms)"
      using h(1,3) prune_stage_lines [of config ms] ms(1,3) by (auto simp: prunes_def split: if_splits)
    moreover have "subseq (drop k ms) ls" using ms(2) by (meson suffix_drop suffix_imp_subseq subseq_order.trans)
    ultimately show ?thesis using ms(3) by (auto simp: some_lines_def intro: list_all_take_drop)
  qed
  show "some_lines (ls @ [l]) t" if h: "some_lines ls t" for ls t l
    using h by (auto simp: some_lines_def intro: list_emb_append2 subseq_order.trans)
qed

interpretation nv: audit_view "\<lambda>config. newest_lines (nat (ac_maxEntries config))" False
proof
  show "newest_lines (nat (ac_maxEntries config)) (ls @ [l]) (t @ l @ [newline])" if h: "newest_lines (nat (ac_maxEntries config)) ls t" "clean_line l" for config ls t l
  proof -
    obtain k where "k \<le> length ls - nat (ac_maxEntries config)" "t = file_text (drop k ls)" "list_all clean_line ls"
      using h(1) by (auto simp: newest_lines_def)
    then show ?thesis using h(2) by (auto simp: newest_lines_def intro!: exI [of _ k])
  qed
  show "newest_lines (nat (ac_maxEntries config)) ls u" if h: "prunes config" "newest_lines (nat (ac_maxEntries config)) ls t" "prune_stage config t = PruneWriting u"
    for config ls t u
  proof -
    obtain k where k: "k \<le> length ls - nat (ac_maxEntries config)" "t = file_text (drop k ls)" "list_all clean_line ls"
      using h(2) by (auto simp: newest_lines_def)
    have "list_all clean_line (drop k ls)" using k(3) by (rule list_all_take_drop)
    then have "u = file_text (drop (length ls - nat (ac_maxEntries config)) ls)"
      using h(1,3) k(1,2) \<open>list_all clean_line (drop k ls)\<close> prune_stage_lines [of config "drop k ls"] by (auto simp: prunes_def split: if_splits)
    then show ?thesis using k(3) by (auto simp: newest_lines_def)
  qed
qed simp

section \<open>What it holds\<close>

lemma start_lines: "list_all clean_line old \<Longrightarrow> some_lines old (file_text old) \<and> newest_lines m old (file_text old)"
  by (auto simp: some_lines_def newest_lines_def intro: exI [of _ 0])

text \<open>Under every interleaving, and whatever fails: lines of entries, in the order of their appends.\<close>

theorem log_holds_logged_lines:
  assumes "prunes config" "list_all clean_line old" "(audit_step config)\<^sup>*\<^sup>* (audit_start (file_text old)) M"
  shows "\<exists>ms. am_content M = file_text ms \<and> subseq ms (old @ am_history M) \<and> nonblank_lines (am_content M) = ms"
proof -
  from assms(3) have "view_inv some_lines old M"
    using sv.view_step [OF _ assms(1)] sv.view_start start_lines [OF assms(2)]
    by (induction rule: rtranclp_induct) blast+
  then show ?thesis by (auto simp: view_inv_def some_lines_def nonblank_file_text)
qed

text \<open>As long as nothing is appended while a prune waits for its write, the newest lines stay.\<close>

theorem log_keeps_newest:
  assumes "prunes config" "list_all clean_line old"
    and "(\<lambda>M N. audit_step config M N \<and> undisturbed M N)\<^sup>*\<^sup>* (audit_start (file_text old)) M"
  shows "\<exists>k \<le> length (old @ am_history M) - nat (ac_maxEntries config).
    am_content M = file_text (drop k (old @ am_history M))"
proof -
  from assms(3) have "view_inv (newest_lines (nat (ac_maxEntries config))) old M"
    using nv.view_step [OF _ assms(1)] nv.view_start start_lines [OF assms(2)]
    by (induction rule: rtranclp_induct) blast+
  then show ?thesis by (auto simp: view_inv_def newest_lines_def)
qed

section \<open>What a prune loses\<close>

text \<open>
  A line that is appended between the read and the write of a prune is not in the log, though
  it is the newest one.
\<close>

definition keep_one :: audit_config where
  "keep_one = \<lparr>ac_enabled = True, ac_path = ''audit.log'', ac_format = Jsonl, ac_maxEntries = 1\<rparr>"

definition audit_sample :: "string \<Rightarrow> audit_entry" where
  "audit_sample sql =
     \<lparr>ae_tool = ''execute_sql'', ae_connection = ''db'', ae_sql = sql, ae_params = [], ae_durationMs = 1,
      ae_rows = 0, ae_status = AuditOk, ae_error = None\<rparr>"

definition resume_all :: "nat list \<Rightarrow> audit_machine \<Rightarrow> audit_machine" where
  "resume_all ps M = fold (\<lambda>p M. resume_log keep_one p (am_tasks M p) M) ps M"

text \<open>Ninety-nine lines were written; call 0 appends the hundredth and prunes, call 1 overlaps.\<close>

definition lost_line :: audit_machine where
  "lost_line =
     (let M = (audit_start [])\<lparr>am_writesSincePrune := 99, am_content := file_text (replicate 99 ''{}'')\<rparr>;
          M1 = begin_log keep_one 1 ''t'' (audit_sample ''B'') (begin_log keep_one 0 ''t'' (audit_sample ''A'') M) in
      resume_all [0, 0, 1, 0, 1, 0] M1)"

theorem prune_loses_line:
  "am_history lost_line =
     [json (audit_record ''t'' (audit_sample ''A'')), json (audit_record ''t'' (audit_sample ''B''))]"
  "am_content lost_line = file_text [json (audit_record ''t'' (audit_sample ''A''))]"
  "am_tasks lost_line 0 = Logged \<and> am_tasks lost_line 1 = Logged"
  by code_simp+

end
