(* ===== verification/Interleaving.thy ===== *)
theory Interleaving
  imports ConnectionManager
begin

text \<open>
  The connection manager under interleaving (\<open>src/connection-manager.ts\<close>). A task is a call of
  one of its methods, cut at every \<open>await\<close>: between two suspensions of one task any other task
  may run, the sidecar may crash, and a schema may be invalidated. The backend runs a call at
  some moment after it was sent, and the answer is delivered at a later one.

  What \<open>ConnectionManager\<close> proves for methods that run to completion is weaker here: a
  connection that is reported as connected is one, but not the other way round
  (\<open>concurrent_connects_disagree\<close>), and a schema that is fetched while it is invalidated is
  cached afterwards (\<open>stale_schema_cached\<close>).
\<close>

section \<open>Calls and their stages\<close>

datatype cm_method =
    DoExecute string "jsval list option" "execute_options option"
  | DoExplain string "bool option"
  | DoValidate string
  | DoPing
  | DoSchema bool "bool option"
  | DoDisconnect

datatype method_reply = RowsReply query_result | VerdictReply "bool \<times> string option" | SchemaReply schema_info | DoneReply

text \<open>
  \<open>Connecting\<close>: in \<open>ensureConnected\<close>, with the answer of the backend once it has run the call;
  \<open>Ready\<close>: \<open>ensureConnected\<close> has returned; \<open>Awaiting\<close>: the request of the method itself.
\<close>

datatype stage =
    Resting
  | Connecting connection_config cm_method "string result option"
  | Ready connection_config cm_method
  | Awaiting connection_config cm_method "method_reply result option"
  | Finished "method_reply result"

text \<open>\<open>mc_served\<close> records the schemas that the backend has reported, for the statements below.\<close>

record 'w machine =
  mc_sys :: "'w sys"
  mc_tasks :: "nat \<Rightarrow> stage"
  mc_served :: "(string \<times> schema_info) list"

definition put_task :: "nat \<Rightarrow> stage \<Rightarrow> 'w machine \<Rightarrow> 'w machine" where
  "put_task p st M = M\<lparr>mc_tasks := (mc_tasks M)(p := st)\<rparr>"

definition put_sys :: "'w sys \<Rightarrow> 'w machine \<Rightarrow> 'w machine" where
  "put_sys s M = M\<lparr>mc_sys := s\<rparr>"

definition as_reply :: "('a \<Rightarrow> method_reply) \<Rightarrow> ('w, 'a) effect \<Rightarrow> ('w, method_reply) effect" where
  "as_reply g f w = (case f w of (r, w') \<Rightarrow> (map_sum id g r, w'))"

text \<open>The request of a method, and what the method does with the answer.\<close>

fun method_request :: "'w backend \<Rightarrow> connection_config \<Rightarrow> cm_method \<Rightarrow> ('w, method_reply) effect" where
  "method_request bk config (DoExecute query params options) =
     as_reply RowsReply (bk_execute bk (cc_name config) query params
       \<lparr>eo_maxRows = Some (case Option.bind options eo_maxRows of None \<Rightarrow> cc_maxRows config | Some k \<Rightarrow> k),
        eo_timeoutMs = Some (case Option.bind options eo_timeoutMs of None \<Rightarrow> cc_timeout config | Some t \<Rightarrow> t)\<rparr>)"
| "method_request bk config (DoExplain query analyze) =
     as_reply RowsReply (bk_explainQuery bk (cc_name config) query analyze)"
| "method_request bk config (DoValidate query) = as_reply VerdictReply (bk_validateQuery bk (cc_name config) query)"
| "method_request bk config DoPing = as_reply (\<lambda>_. DoneReply) (bk_ping bk (cc_name config))"
| "method_request bk config (DoSchema force exact) =
     as_reply SchemaReply (bk_getSchema bk (cc_name config) (schema_request config exact))"
| "method_request bk config DoDisconnect = as_reply (\<lambda>_. DoneReply) (bk_disconnect bk (cc_name config))"

fun after_reply :: "connection_config \<Rightarrow> method_reply result \<Rightarrow> cm_method \<Rightarrow> 'w sys \<Rightarrow> 'w sys" where
  "after_reply config (Inr (SchemaReply schema)) (DoSchema force exact) s =
     notify_schema (cc_name config) schema
       (s\<lparr>cm_schemaCache := (cm_schemaCache s)(cc_name config \<mapsto> schema)\<rparr>)"
| "after_reply config (Inr r) DoDisconnect s =
     s\<lparr>cm_connectedIds := cm_connectedIds s - {cc_name config},
       cm_schemaCache := (cm_schemaCache s)(cc_name config := None),
       cm_driverMap := (cm_driverMap s)(cc_name config := None),
       cm_statusMap := (cm_statusMap s)(cc_name config \<mapsto> Available)\<rparr>"
| "after_reply config r m s = s"

fun after_connect :: "connection_config \<Rightarrow> string result \<Rightarrow> 'w sys \<Rightarrow> 'w sys" where
  "after_connect config (Inr driver) s =
     s\<lparr>cm_connectedIds := insert (cc_name config) (cm_connectedIds s),
       cm_statusMap := (cm_statusMap s)(cc_name config \<mapsto> Connected),
       cm_driverMap := (cm_driverMap s)(cc_name config \<mapsto> driver)\<rparr>"
| "after_connect config (Inl e) s = s\<lparr>cm_statusMap := (cm_statusMap s)(cc_name config \<mapsto> Errored)\<rparr>"

text \<open>The first segment of a method, and the one that follows \<open>ensureConnected\<close>.\<close>

definition first_stage :: "'w sys \<Rightarrow> connection_config \<Rightarrow> cm_method \<Rightarrow> stage" where
  "first_stage s config m =
     (if m = DoDisconnect then Awaiting config m None
      else if cc_name config \<in> cm_connectedIds s then Ready config m
      else Connecting config m None)"

definition next_stage :: "'w sys \<Rightarrow> connection_config \<Rightarrow> cm_method \<Rightarrow> stage" where
  "next_stage s config m =
     (case (m, cm_schemaCache s (cc_name config)) of
        (DoSchema False None, Some schema) \<Rightarrow> Finished (Inr (SchemaReply schema))
      | _ \<Rightarrow> Awaiting config m None)"

fun connect_stage :: "connection_config \<Rightarrow> cm_method \<Rightarrow> string result \<Rightarrow> stage" where
  "connect_stage config m (Inr driver) = Ready config m"
| "connect_stage config m (Inl e) = Finished (Inl e)"

text \<open>The exit of the sidecar rejects every request without an answer, and those of \<open>S\<close>.\<close>

definition crash_error :: error where
  "crash_error = OmnibaseError ''Sidecar process exited'' ''SIDECAR_CRASH'' None"

fun rejected :: "stage \<Rightarrow> stage" where
  "rejected (Connecting config m r) = Connecting config m (Some (Inl crash_error))"
| "rejected (Awaiting config m r) = Awaiting config m (Some (Inl crash_error))"
| "rejected st = st"

fun unanswered :: "stage \<Rightarrow> bool" where
  "unanswered (Connecting config m None) = True"
| "unanswered (Awaiting config m None) = True"
| "unanswered st = False"

section \<open>Steps\<close>

definition begin_call :: "nat \<Rightarrow> connection_config \<Rightarrow> cm_method \<Rightarrow> 'w machine \<Rightarrow> 'w machine" where
  "begin_call p config m M = put_task p (first_stage (mc_sys M) config m) M"

definition serve_connect :: "'w backend \<Rightarrow> nat \<Rightarrow> connection_config \<Rightarrow> cm_method \<Rightarrow> 'w machine \<Rightarrow> 'w machine" where
  "serve_connect bk p config m M =
     (case bk_connect bk (cc_name config) (cc_dsn config) (sys_world (mc_sys M)) of
        (r, w) \<Rightarrow> put_task p (Connecting config m (Some r)) (put_sys ((mc_sys M)\<lparr>sys_world := w\<rparr>) M))"

definition finish_connect :: "nat \<Rightarrow> connection_config \<Rightarrow> cm_method \<Rightarrow> string result \<Rightarrow> 'w machine \<Rightarrow> 'w machine" where
  "finish_connect p config m r M =
     put_task p (connect_stage config m r) (put_sys (after_connect config r (mc_sys M)) M)"

definition proceed_call :: "nat \<Rightarrow> connection_config \<Rightarrow> cm_method \<Rightarrow> 'w machine \<Rightarrow> 'w machine" where
  "proceed_call p config m M = put_task p (next_stage (mc_sys M) config m) M"

fun reported :: "connection_config \<Rightarrow> method_reply result \<Rightarrow> (string \<times> schema_info) list" where
  "reported config (Inr (SchemaReply schema)) = [(cc_name config, schema)]"
| "reported config r = []"

definition serve_call :: "'w backend \<Rightarrow> nat \<Rightarrow> connection_config \<Rightarrow> cm_method \<Rightarrow> 'w machine \<Rightarrow> 'w machine" where
  "serve_call bk p config m M =
     (case method_request bk config m (sys_world (mc_sys M)) of
        (r, w) \<Rightarrow> (put_task p (Awaiting config m (Some r)) (put_sys ((mc_sys M)\<lparr>sys_world := w\<rparr>) M))
           \<lparr>mc_served := mc_served M @ reported config r\<rparr>)"

definition finish_call :: "nat \<Rightarrow> connection_config \<Rightarrow> cm_method \<Rightarrow> method_reply result \<Rightarrow> 'w machine \<Rightarrow> 'w machine" where
  "finish_call p config m r M = put_task p (Finished r) (put_sys (after_reply config r m (mc_sys M)) M)"

definition crash_machine :: "nat set \<Rightarrow> 'w machine \<Rightarrow> 'w machine" where
  "crash_machine S M =
     put_sys (snd (handle_sidecar_crash (mc_sys M)))
       (M\<lparr>mc_tasks := (\<lambda>p. if p \<in> S \<or> unanswered (mc_tasks M p) then rejected (mc_tasks M p) else mc_tasks M p)\<rparr>)"

definition invalidate_machine :: "string \<Rightarrow> 'w machine \<Rightarrow> 'w machine" where
  "invalidate_machine n M = put_sys (snd (invalidate_schema_cache n (mc_sys M))) M"

inductive il_step :: "'w backend \<Rightarrow> 'w machine \<Rightarrow> 'w machine \<Rightarrow> bool" for bk where
  il_begin: "mc_tasks M p = Resting \<Longrightarrow> il_step bk M (begin_call p config m M)"
| il_serve_connect: "mc_tasks M p = Connecting config m None \<Longrightarrow> il_step bk M (serve_connect bk p config m M)"
| il_connected: "mc_tasks M p = Connecting config m (Some r) \<Longrightarrow> il_step bk M (finish_connect p config m r M)"
| il_proceed: "mc_tasks M p = Ready config m \<Longrightarrow> il_step bk M (proceed_call p config m M)"
| il_serve: "mc_tasks M p = Awaiting config m None \<Longrightarrow> il_step bk M (serve_call bk p config m M)"
| il_deliver: "mc_tasks M p = Awaiting config m (Some r) \<Longrightarrow> il_step bk M (finish_call p config m r M)"
| il_collect: "mc_tasks M p = Finished r \<Longrightarrow> il_step bk M (put_task p Resting M)"
| il_crash: "il_step bk M (crash_machine S M)"
| il_invalidate: "il_step bk M (invalidate_machine n M)"

inductive_cases il_stepE: "il_step bk M N"

definition initial_machine :: "'w sys \<Rightarrow> 'w machine" where
  "initial_machine s = \<lparr>mc_sys = s, mc_tasks = (\<lambda>_. Resting), mc_served = []\<rparr>"

lemmas machine_defs = begin_call_def serve_connect_def finish_connect_def proceed_call_def serve_call_def
  finish_call_def crash_machine_def invalidate_machine_def put_task_def put_sys_def

section \<open>What holds in every interleaving\<close>

text \<open>
  A connection that is reported as connected is one, and the driver of every connection is
  known.
\<close>

definition status_sound :: "'w sys \<Rightarrow> bool" where
  "status_sound s \<longleftrightarrow>
     (\<forall>n. cm_statusMap s n = Some Connected \<longrightarrow> n \<in> cm_connectedIds s) \<and>
     cm_connectedIds s \<subseteq> dom (cm_driverMap s)"

lemma status_sound_world [simp]: "status_sound (s\<lparr>sys_world := w\<rparr>) = status_sound s"
  by (simp add: status_sound_def)

lemma status_sound_connect: "status_sound s \<Longrightarrow> status_sound (after_connect config r s)"
  by (cases r) (auto simp: status_sound_def)

lemma status_sound_reply: "status_sound s \<Longrightarrow> status_sound (after_reply config r m s)"
  by (induction config r m s rule: after_reply.induct) (auto simp: status_sound_def notify_schema_def)

lemma status_sound_crash: "status_sound s \<Longrightarrow> status_sound (snd (handle_sidecar_crash s))"
  by (auto simp: status_sound_def handle_sidecar_crash_def run_simps)

lemma status_sound_invalidate: "status_sound s \<Longrightarrow> status_sound (snd (invalidate_schema_cache n s))"
  by (simp add: status_sound_def invalidate_schema_cache_def run_simps)

lemma il_step_sound: "il_step bk M N \<Longrightarrow> status_sound (mc_sys M) \<Longrightarrow> status_sound (mc_sys N)"
  by (erule il_stepE)
    (auto simp: machine_defs status_sound_connect status_sound_reply status_sound_crash status_sound_invalidate
      split: prod.split)

lemma status_sound_start: "status_sound (mc_sys (initial_machine (initial_sys w)))"
  by (simp add: initial_machine_def initial_sys_def status_sound_def)

interpretation il: invariant_machine "\<lambda>M. \<exists>w. M = initial_machine (initial_sys w)" "il_step bk"
    "\<lambda>M. status_sound (mc_sys M)" for bk
  by unfold_locales (auto intro: status_sound_start il_step_sound)

text \<open>
  Which schemas may be cached for a connection: those that the backend reported for it after
  the first \<open>k\<close> reports, provided that every answer that is still to be delivered is one of
  them too.
\<close>

fun carries :: "stage \<Rightarrow> (string \<times> schema_info) option" where
  "carries (Awaiting config (DoSchema force exact) (Some (Inr (SchemaReply schema)))) = Some (cc_name config, schema)"
| "carries st = None"

definition fresh_after :: "string \<Rightarrow> nat \<Rightarrow> 'w machine \<Rightarrow> bool" where
  "fresh_after n k M \<longleftrightarrow> k \<le> length (mc_served M) \<and>
     (\<forall>schema. cm_schemaCache (mc_sys M) n = Some schema \<longrightarrow> (n, schema) \<in> set (drop k (mc_served M))) \<and>
     (\<forall>p schema. carries (mc_tasks M p) = Some (n, schema) \<longrightarrow> (n, schema) \<in> set (drop k (mc_served M)))"

lemma carries_rejected [simp]: "carries (rejected st) = None"
  by (cases st) simp_all

lemma carries_stages [simp]:
  "carries (first_stage s config m) = None" "carries (next_stage s config m) = None"
  "carries (connect_stage config m r) = None"
  by (simp add: first_stage_def)
    (simp add: next_stage_def split: cm_method.split option.split bool.split, cases r, simp_all)

lemma cache_connect [simp]: "cm_schemaCache (after_connect config r s) = cm_schemaCache s"
  by (cases r) simp_all

lemma cache_reply:
  "cm_schemaCache (after_reply config r m s) n = Some schema \<Longrightarrow>
     cm_schemaCache s n = Some schema \<or> carries (Awaiting config m (Some r)) = Some (n, schema)"
  by (induction config r m s rule: after_reply.induct) (auto simp: notify_schema_def split: if_splits)

lemma carries_reported: "carries (Awaiting config m (Some r)) = Some x \<Longrightarrow> x \<in> set (reported config r)"
  by (cases "Awaiting config m (Some r)" rule: carries.cases) auto

lemma fresh_after_step: "il_step bk M N \<Longrightarrow> fresh_after n k M \<Longrightarrow> fresh_after n k N"
proof (induction rule: il_step.induct)
  case (il_deliver M p config m r)
  then have "cm_schemaCache (after_reply config r m (mc_sys M)) n = Some schema \<Longrightarrow>
      (n, schema) \<in> set (drop k (mc_served M))" for schema
    using cache_reply [of config r m "mc_sys M" n schema] by (metis fresh_after_def)
  then show ?case using il_deliver by (simp add: fresh_after_def finish_call_def put_task_def put_sys_def)
next
  case (il_serve M p config m)
  then show ?case
    by (auto simp: fresh_after_def serve_call_def put_task_def put_sys_def split: prod.split dest: carries_reported)
qed (auto simp: fresh_after_def machine_defs handle_sidecar_crash_def invalidate_schema_cache_def run_simps
    split: prod.split if_splits)

lemma fresh_after_steps: "(il_step bk)\<^sup>*\<^sup>* M N \<Longrightarrow> fresh_after n k M \<Longrightarrow> fresh_after n k N"
  by (induction rule: rtranclp_induct) (auto intro: fresh_after_step)

lemma fresh_after_invalidation:
  "(\<And>p schema. carries (mc_tasks M p) \<noteq> Some (n, schema)) \<Longrightarrow> fresh_after n (length (mc_served M)) (invalidate_machine n M)"
  by (simp add: fresh_after_def invalidate_machine_def put_sys_def invalidate_schema_cache_def run_simps)

section \<open>A method that runs alone\<close>

fun run_call :: "'w backend \<Rightarrow> connection_config \<Rightarrow> cm_method \<Rightarrow> ('w sys, method_reply) io" where
  "run_call bk config (DoExecute query params options) =
     bindM (cm_execute bk config query params options) (\<lambda>r. ret (RowsReply r))"
| "run_call bk config (DoExplain query analyze) = bindM (explain_query bk config query analyze) (\<lambda>r. ret (RowsReply r))"
| "run_call bk config (DoValidate query) = bindM (validate_query bk config query) (\<lambda>r. ret (VerdictReply r))"
| "run_call bk config DoPing = bindM (cm_ping bk config) (\<lambda>_. ret DoneReply)"
| "run_call bk config (DoSchema force exact) = bindM (get_schema bk config force exact) (\<lambda>r. ret (SchemaReply r))"
| "run_call bk config DoDisconnect = bindM (disconnect bk config) (\<lambda>_. ret DoneReply)"

definition outcome_of :: "method_reply result \<Rightarrow> method_reply outcome" where
  "outcome_of r = (case r of Inl e \<Rightarrow> Throw e | Inr a \<Rightarrow> Ret a)"

definition request_alone :: "'w backend \<Rightarrow> connection_config \<Rightarrow> cm_method \<Rightarrow> 'w sys \<Rightarrow> method_reply result \<times> 'w sys" where
  "request_alone bk config m s =
     (case method_request bk config m (sys_world s) of (r, w) \<Rightarrow> (r, after_reply config r m (s\<lparr>sys_world := w\<rparr>)))"

definition ready_alone :: "'w backend \<Rightarrow> connection_config \<Rightarrow> cm_method \<Rightarrow> 'w sys \<Rightarrow> method_reply result \<times> 'w sys" where
  "ready_alone bk config m s =
     (case next_stage s config m of Finished r \<Rightarrow> (r, s) | st \<Rightarrow> request_alone bk config m s)"

definition call_alone :: "'w backend \<Rightarrow> connection_config \<Rightarrow> cm_method \<Rightarrow> 'w sys \<Rightarrow> method_reply result \<times> 'w sys" where
  "call_alone bk config m s =
     (if m = DoDisconnect then request_alone bk config m s
      else if cc_name config \<in> cm_connectedIds s then ready_alone bk config m s
      else case bk_connect bk (cc_name config) (cc_dsn config) (sys_world s) of
        (Inl e, w) \<Rightarrow> (Inl e, after_connect config (Inl e) (s\<lparr>sys_world := w\<rparr>))
      | (Inr d, w) \<Rightarrow> ready_alone bk config m (after_connect config (Inr d) (s\<lparr>sys_world := w\<rparr>)))"

lemma next_stage_cases:
  "next_stage s config m = Awaiting config m None \<or>
   (\<exists>schema. next_stage s config m = Finished (Inr (SchemaReply schema)) \<and>
      m = DoSchema False None \<and> cm_schemaCache s (cc_name config) = Some schema)"
  by (auto simp: next_stage_def split: cm_method.split option.split bool.split)

lemma call_backend_reply:
  "(case call_backend f t of (Ret a, v) \<Rightarrow> ret (g a) v | (Throw e, v) \<Rightarrow> (Throw e, v) | (Hang, v) \<Rightarrow> (Hang, v)) =
   (case as_reply g f (sys_world t) of (r, w) \<Rightarrow> (outcome_of r, t\<lparr>sys_world := w\<rparr>))"
proof -
  obtain x w where "f (sys_world t) = (x, w)" by fastforce
  then show ?thesis by (cases x) (simp_all add: as_reply_def outcome_of_def run_simps)
qed

lemma schema_call_ready:
  assumes "ensure_connected bk config s = (Ret (), t)"
  shows "run_call bk config (DoSchema force exact) s =
    (case ready_alone bk config (DoSchema force exact) t of (r, v) \<Rightarrow> (outcome_of r, v))"
proof -
  obtain x w where x: "bk_getSchema bk (cc_name config) (schema_request config exact) (sys_world t) = (x, w)" by fastforce
  show ?thesis
    by (cases x; cases force; cases exact; cases "cm_schemaCache t (cc_name config)")
      (use x assms in \<open>simp_all add: get_schema_def ready_alone_def request_alone_def next_stage_def outcome_of_def
        as_reply_def run_simps\<close>)
qed

lemma run_call_ready:
  assumes "m \<noteq> DoDisconnect"
  shows "run_call bk config m s =
    (case ensure_connected bk config s of
       (Ret u, t) \<Rightarrow> (case ready_alone bk config m t of (r, v) \<Rightarrow> (outcome_of r, v))
     | (Throw e, t) \<Rightarrow> (Throw e, t)
     | (Hang, t) \<Rightarrow> (Hang, t))"
proof -
  obtain o1 t where t: "ensure_connected bk config s = (o1, t)" by fastforce
  note defs = cm_execute_def explain_query_def validate_query_def cm_ping_def get_schema_def bindM_run t
  show ?thesis
  proof (cases o1)
    case (Ret u)
    show ?thesis
    proof (cases "\<exists>force exact. m = DoSchema force exact")
      case True
      then show ?thesis using schema_call_ready t Ret by auto
    next
      case False
      then show ?thesis
        using assms Ret by (cases m) (simp_all add: defs call_backend_reply ready_alone_def request_alone_def
            next_stage_def, simp_all add: case_prod_beta)
    qed
  qed (use assms in \<open>cases m; simp add: defs\<close>)+
qed

lemma run_call_alone: "run_call bk config m s = (case call_alone bk config m s of (r, t) \<Rightarrow> (outcome_of r, t))"
proof (cases "m = DoDisconnect")
  case True
  obtain x w where "bk_disconnect bk (cc_name config) (sys_world s) = (x, w)" by fastforce
  then show ?thesis
    using True by (cases x) (simp_all add: call_alone_def request_alone_def outcome_of_def as_reply_def run_simps disconnect_def)
next
  case False
  then show ?thesis
    by (simp add: run_call_ready call_alone_def ensure_connected_run outcome_of_def split: prod.split sum.split)
qed

text \<open>The steps of a task from its request on, the rest of the machine standing still.\<close>

definition lone :: "nat \<Rightarrow> stage \<Rightarrow> 'w sys \<Rightarrow> 'w machine \<Rightarrow> 'w machine \<Rightarrow> bool" where
  "lone p st s M N \<longleftrightarrow> mc_sys N = s \<and> mc_tasks N = (mc_tasks M)(p := st)"

lemma request_steps:
  assumes "lone p (Awaiting config m None) s M N" and "request_alone bk config m s = (r, t)"
  shows "\<exists>N'. (il_step bk)\<^sup>*\<^sup>* N N' \<and> lone p (Finished r) t M N'"
proof -
  let ?A = "serve_call bk p config m N" and ?r = "fst (method_request bk config m (sys_world s))"
  have "il_step bk N ?A" using assms(1) by (intro il_serve) (simp add: lone_def)
  moreover have A: "lone p (Awaiting config m (Some ?r)) (s\<lparr>sys_world := snd (method_request bk config m (sys_world s))\<rparr>) M ?A"
    using assms(1) by (simp add: lone_def serve_call_def put_task_def put_sys_def split: prod.split)
  then have "il_step bk ?A (finish_call p config m ?r ?A)" by (intro il_deliver) (simp add: lone_def)
  moreover have "lone p (Finished r) t M (finish_call p config m ?r ?A)"
    using A assms(2) by (auto simp: lone_def finish_call_def put_task_def put_sys_def request_alone_def split: prod.splits)
  ultimately show ?thesis by (meson converse_rtranclp_into_rtranclp r_into_rtranclp)
qed

lemma ready_steps:
  assumes "lone p (Ready config m) s M N" and "ready_alone bk config m s = (r, t)"
  shows "\<exists>N'. (il_step bk)\<^sup>*\<^sup>* N N' \<and> lone p (Finished r) t M N'"
proof -
  let ?A = "proceed_call p config m N"
  have step: "il_step bk N ?A" using assms(1) by (intro il_proceed) (simp add: lone_def)
  have A: "lone p (next_stage s config m) s M ?A"
    using assms(1) by (simp add: lone_def proceed_call_def put_task_def)
  show ?thesis
    using next_stage_cases [of s config m]
  proof
    assume st: "next_stage s config m = Awaiting config m None"
    then obtain N' where "(il_step bk)\<^sup>*\<^sup>* ?A N'" "lone p (Finished r) t M N'"
      using request_steps [of p config m s M ?A bk r t] A assms(2) by (auto simp: ready_alone_def)
    then show ?thesis using step by (meson converse_rtranclp_into_rtranclp)
  next
    assume "\<exists>schema. next_stage s config m = Finished (Inr (SchemaReply schema)) \<and>
      m = DoSchema False None \<and> cm_schemaCache s (cc_name config) = Some schema"
    then show ?thesis using A step assms(2) by (auto simp: ready_alone_def)
  qed
qed

text \<open>Each method of the sequential model is one of the interleavings.\<close>

lemma call_steps:
  assumes "mc_tasks M p = Resting" and "call_alone bk config m (mc_sys M) = (r, t)"
  shows "\<exists>N. (il_step bk)\<^sup>*\<^sup>* M N \<and> lone p (Finished r) t M N"
proof -
  let ?s = "mc_sys M" and ?A = "begin_call p config m M"
  have step: "il_step bk M ?A" using assms(1) by (rule il_begin)
  have A: "lone p (first_stage ?s config m) ?s M ?A" by (simp add: lone_def begin_call_def put_task_def)
  consider "m = DoDisconnect" | "m \<noteq> DoDisconnect" "cc_name config \<in> cm_connectedIds ?s"
    | "m \<noteq> DoDisconnect" "cc_name config \<notin> cm_connectedIds ?s" by blast
  then have "\<exists>N. (il_step bk)\<^sup>*\<^sup>* ?A N \<and> lone p (Finished r) t M N"
  proof cases
    case 1
    then show ?thesis using request_steps A assms(2) by (simp add: first_stage_def call_alone_def)
  next
    case 2
    then show ?thesis using ready_steps A assms(2) by (simp add: first_stage_def call_alone_def)
  next
    case 3
    obtain x w where x: "bk_connect bk (cc_name config) (cc_dsn config) (sys_world ?s) = (x, w)" by fastforce
    let ?B = "serve_connect bk p config m ?A" and ?C = "finish_connect p config m x (serve_connect bk p config m ?A)"
    let ?t = "after_connect config x (?s\<lparr>sys_world := w\<rparr>)"
    have A': "lone p (Connecting config m None) ?s M ?A" using A 3 by (simp add: first_stage_def)
    then have "il_step bk ?A ?B" by (intro il_serve_connect) (simp add: lone_def)
    moreover have B: "lone p (Connecting config m (Some x)) (?s\<lparr>sys_world := w\<rparr>) M ?B"
      using A' x by (simp add: lone_def serve_connect_def put_task_def put_sys_def)
    then have "il_step bk ?B ?C" by (intro il_connected) (simp add: lone_def)
    moreover have C: "lone p (connect_stage config m x) ?t M ?C"
      using B by (simp add: lone_def finish_connect_def put_task_def put_sys_def)
    moreover have "\<exists>N. (il_step bk)\<^sup>*\<^sup>* ?C N \<and> lone p (Finished r) t M N"
    proof (cases x)
      case (Inl e)
      then show ?thesis using C assms(2) 3 x by (auto simp: call_alone_def)
    next
      case (Inr d)
      then show ?thesis using ready_steps [of p config m ?t M ?C] C assms(2) 3 x
        by (auto simp: call_alone_def)
    qed
    ultimately show ?thesis by (meson converse_rtranclp_into_rtranclp)
  qed
  then show ?thesis using step by (meson converse_rtranclp_into_rtranclp)
qed

end
