(* ===== verification/Publish.thy ===== *)
theory Publish
  imports UpdateCache
begin

text \<open>
  The publishing script (\<open>scripts/publish.js\<close>): it packs the package, and sends the tarball with
  its metadata to the registry in one request. The package manager, the hash functions and the
  registry are parameters; a tarball is a text of bytes. The registry gets the tarball as it is:
  \<open>published_reads_back\<close>.
\<close>

section \<open>Base 64\<close>

definition base64_alphabet :: string where
  "base64_alphabet = ''ABCDEFGHIJKLMNOPQRSTUVWXYZabcdefghijklmnopqrstuvwxyz0123456789+/''"

definition base64_char :: "nat \<Rightarrow> char" where
  "base64_char n = base64_alphabet ! n"

abbreviation byte :: "char \<Rightarrow> nat" where
  "byte c \<equiv> of_char c"

text \<open>\<open>Buffer.toString("base64")\<close>\<close>

fun base64 :: "string \<Rightarrow> string" where
  "base64 [] = []"
| "base64 [a] = [base64_char (byte a div 4), base64_char (byte a mod 4 * 16), CHR ''='', CHR ''='']"
| "base64 [a, b] =
     [base64_char (byte a div 4), base64_char (byte a mod 4 * 16 + byte b div 16), base64_char (byte b mod 16 * 4),
      CHR ''='']"
| "base64 (a # b # c # r) =
     base64_char (byte a div 4) # base64_char (byte a mod 4 * 16 + byte b div 16) #
     base64_char (byte b mod 16 * 4 + byte c div 64) # base64_char (byte c mod 64) # base64 r"

text \<open>A reader, as the registry has one.\<close>

definition base64_value :: "char \<Rightarrow> nat" where
  "base64_value c = length (takeWhile (\<lambda>d. d \<noteq> c) base64_alphabet)"

fun read_base64 :: "string \<Rightarrow> string" where
  "read_base64 (p # q # r # s # rest) =
     (let a = char_of (base64_value p * 4 + base64_value q div 16);
          b = char_of (base64_value q mod 16 * 16 + base64_value r div 4);
          c = char_of (base64_value r mod 4 * 64 + base64_value s) in
      if r = CHR ''='' then [a] else if s = CHR ''='' then [a, b] else a # b # c # read_base64 rest)"
| "read_base64 t = []"

lemma base64_value_char: "n < 64 \<Longrightarrow> base64_value (base64_char n) = n"
proof -
  have "\<forall>n \<in> set [0..<64]. base64_value (base64_char n) = n" by code_simp
  then show "n < 64 \<Longrightarrow> base64_value (base64_char n) = n" by simp
qed

lemma base64_char_pad: "n < 64 \<Longrightarrow> base64_char n \<noteq> CHR ''=''"
proof -
  have "\<forall>n \<in> set [0..<64]. base64_char n \<noteq> CHR ''=''" by code_simp
  then show "n < 64 \<Longrightarrow> base64_char n \<noteq> CHR ''=''" by simp
qed

lemma byte_less: "byte c < (256::nat)"
  by (metis mod_less_divisor of_char_mod_256 zero_less_numeral)

lemma byte_parts: "byte c div 4 < (64::nat)" "byte c div 16 < (16::nat)" "byte c div 64 < (4::nat)"
  by (rule less_mult_imp_div_less, simp add: byte_less)+

text \<open>The groups of six bits, and the bytes that they make up.\<close>

lemma sextets:
  "byte a div 4 < (64::nat)" "byte a mod 4 * 16 + byte b div 16 < (64::nat)" "byte a mod 4 * 16 < (64::nat)"
  "byte b mod 16 * 4 + byte c div 64 < (64::nat)" "byte b mod 16 * 4 < (64::nat)" "byte c mod 64 < (64::nat)"
proof -
  note byte_parts(1) [of a] byte_parts(2) [of b] byte_parts(3) [of c]
  moreover have "byte a mod 4 < (4::nat)" "byte b mod 16 < (16::nat)" "byte c mod 64 < (64::nat)" by simp_all
  ultimately show "byte a div 4 < (64::nat)" "byte a mod 4 * 16 + byte b div 16 < (64::nat)" "byte a mod 4 * 16 < (64::nat)"
    "byte b mod 16 * 4 + byte c div 64 < (64::nat)" "byte b mod 16 * 4 < (64::nat)" "byte c mod 64 < (64::nat)"
    by linarith+
qed

lemma octets:
  "char_of (byte a div 4 * 4 + (byte a mod 4 * 16 + byte b div 16) div 16 :: nat) = a"
  "char_of ((byte a mod 4 * 16 + byte b div 16) mod 16 * 16 + (byte b mod 16 * 4 + byte c div 64) div 4 :: nat) = b"
  "char_of ((byte b mod 16 * 4 + byte c div 64) mod 4 * 64 + byte c mod 64 :: nat) = c"
proof -
  have bytes: "byte b div 16 < (16::nat)" "byte c div 64 < (4::nat)" by (rule byte_parts)+
  then have "(byte a mod 4 * 16 + byte b div 16) div 16 = (byte a mod 4 :: nat)"
    "(byte a mod 4 * 16 + byte b div 16) mod 16 = (byte b div 16 :: nat)"
    "(byte b mod 16 * 4 + byte c div 64) div 4 = (byte b mod 16 :: nat)"
    "(byte b mod 16 * 4 + byte c div 64) mod 4 = (byte c div 64 :: nat)"
    by simp_all
  then show "char_of (byte a div 4 * 4 + (byte a mod 4 * 16 + byte b div 16) div 16 :: nat) = a"
    "char_of ((byte a mod 4 * 16 + byte b div 16) mod 16 * 16 + (byte b mod 16 * 4 + byte c div 64) div 4 :: nat) = b"
    "char_of ((byte b mod 16 * 4 + byte c div 64) mod 4 * 64 + byte c mod 64 :: nat) = c"
    by simp_all
qed

lemma padded_octets:
  "char_of (byte a div 4 * 4 + byte a mod 4 * 16 div 16 :: nat) = a"
  "char_of ((byte a mod 4 * 16 + byte b div 16) mod 16 * 16 + byte b mod 16 * 4 div 4 :: nat) = b"
proof -
  have "byte b div 16 < (16::nat)" by (rule byte_parts)
  then have "(byte a mod 4 * 16 + byte b div 16) mod 16 = (byte b div 16 :: nat)" by simp
  then show "char_of ((byte a mod 4 * 16 + byte b div 16) mod 16 * 16 + byte b mod 16 * 4 div 4 :: nat) = b" by simp
qed simp

lemma read_base64_round_trip: "read_base64 (base64 t) = t"
  by (induction t rule: base64.induct)
    (simp_all only: base64.simps read_base64.simps Let_def base64_value_char base64_char_pad sextets octets padded_octets
      if_True if_False simp_thms)

section \<open>Addresses\<close>

definition percent_digit :: "nat \<Rightarrow> char" where
  "percent_digit n = ''0123456789ABCDEF'' ! n"

definition percent :: "nat \<Rightarrow> string" where
  "percent n = [CHR ''%'', percent_digit (n div 16), percent_digit (n mod 16)]"

text \<open>\<open>encodeURIComponent\<close>: the bytes of a character above ASCII are those of UTF-8.\<close>

definition unreserved :: "char \<Rightarrow> bool" where
  "unreserved c \<longleftrightarrow> is_alpha c \<or> is_digit c \<or> c \<in> set ''-_.!~*()'' \<or> c = CHR 0x27"

definition encode_char :: "char \<Rightarrow> string" where
  "encode_char c =
     (if unreserved c then [c]
      else if byte c < (128::nat) then percent (byte c)
      else percent (192 + byte c div 64) @ percent (128 + byte c mod 64))"

definition encode_uri_component :: "string \<Rightarrow> string" where
  "encode_uri_component s = concat (map encode_char s)"

definition byte_length :: "string \<Rightarrow> nat" where
  "byte_length s = sum_list (map (\<lambda>c. if byte c < (128::nat) then 1 else 2) s)"

section \<open>The body of the request\<close>

text \<open>\<open>...pkgJson\<close>\<close>

fun json_fields :: "jsval \<Rightarrow> jsval obj" where
  "json_fields (JObj kvs) = kvs"
| "json_fields v = []"

definition tarball_name :: "jsval \<Rightarrow> string" where
  "tarball_name pkg = js_string (js_prop pkg ''name'') @ ''-'' @ js_string (js_prop pkg ''version'') @ ''.tgz''"

definition package_dist :: "jsval \<Rightarrow> string \<Rightarrow> string \<Rightarrow> jsval" where
  "package_dist pkg shasum integrity =
     JObj [(''shasum'', JStr shasum), (''integrity'', JStr integrity),
       (''tarball'', JStr (''https://registry.npmjs.org/'' @ js_string (js_prop pkg ''name'') @ ''/-/'' @ tarball_name pkg))]"

definition package_version :: "jsval \<Rightarrow> string \<Rightarrow> string \<Rightarrow> jsval" where
  "package_version pkg shasum integrity =
     JObj (obj_set ''dist'' (package_dist pkg shasum integrity)
       (obj_set ''_id'' (JStr (js_string (js_prop pkg ''name'') @ ''@'' @ js_string (js_prop pkg ''version'')))
         (json_fields pkg)))"

definition package_attachment :: "string \<Rightarrow> jsval" where
  "package_attachment tgz =
     JObj [(''content_type'', JStr ''application/octet-stream''), (''data'', JStr (base64 tgz)),
       (''length'', JNum (int_num (int (length tgz))))]"

definition publish_body :: "jsval \<Rightarrow> string \<Rightarrow> string \<Rightarrow> string \<Rightarrow> jsval" where
  "publish_body pkg tgz shasum integrity =
     JObj [(''_id'', js_prop pkg ''name''), (''name'', js_prop pkg ''name''), (''description'', js_prop pkg ''description''),
       (''dist-tags'', JObj [(''latest'', js_prop pkg ''version'')]),
       (''versions'', JObj [(js_string (js_prop pkg ''version''), package_version pkg shasum integrity)]),
       (''_attachments'', JObj [(tarball_name pkg, package_attachment tgz)]),
       (''access'', JStr ''public'')]"

section \<open>The script\<close>

record publish_request =
  pq_path :: string
  pq_length :: nat
  pq_authorization :: string
  pq_body :: string

datatype registry_reply = RegistryReply nat string | RegistryError error

record publish_env =
  pb_token :: "string option"                     \<comment> \<open>\<open>NODE_AUTH_TOKEN\<close>\<close>
  pb_cwd :: string
  pb_pack :: "(files, string) effect"             \<comment> \<open>\<open>npm pack --json\<close>, with what it prints\<close>
  pb_sha1 :: "string \<Rightarrow> string"
  pb_sha512 :: "string \<Rightarrow> string"                  \<comment> \<open>in base 64\<close>
  pb_put :: "publish_request \<Rightarrow> (files, registry_reply) effect"

text \<open>\<open>packInfo[0].filename\<close>\<close>

definition packed_name :: "string \<Rightarrow> string result" where
  "packed_name out =
     (case json_parse out of
        Some (JArr (JObj kvs # r)) \<Rightarrow> Inr (js_string (js_prop (JObj kvs) ''filename''))
      | None \<Rightarrow> Inl (JsError ''Unexpected token in JSON'')
      | _ \<Rightarrow> Inl (JsError ''Cannot read properties of undefined (reading 'filename')''))"

definition read_package :: "string \<Rightarrow> jsval result" where
  "read_package txt =
     (case json_parse txt of
        None \<Rightarrow> Inl (JsError ''Unexpected token in JSON'')
      | Some JNull \<Rightarrow> Inl (JsError ''Cannot read properties of null (reading 'name')'')
      | Some pkg \<Rightarrow> Inr pkg)"

definition publish_request_of :: "publish_env \<Rightarrow> string \<Rightarrow> jsval \<Rightarrow> string \<Rightarrow> publish_request" where
  "publish_request_of env token pkg tgz =
     (let body = json (publish_body pkg tgz (pb_sha1 env tgz) (''sha512-'' @ pb_sha512 env tgz)) in
      \<lparr>pq_path = CHR ''/'' # encode_uri_component (js_string (js_prop pkg ''name'')),
       pq_length = byte_length body, pq_authorization = ''Bearer '' @ token, pq_body = body\<rparr>)"

text \<open>The result is the exit code; an error that is thrown ends the process with 1 as well.\<close>

definition publish :: "publish_env \<Rightarrow> (files, nat) io" where
  "publish env =
     (case nonempty (pb_token env) of
        None \<Rightarrow> ret 1
      | Some token \<Rightarrow>
          bindM (call_world (pb_pack env)) (\<lambda>out.
          bindM (liftR (packed_name out)) (\<lambda>filename.
          bindM (read_file (path_join (pb_cwd env) ''package.json'')) (\<lambda>txt.
          bindM (liftR (read_package txt)) (\<lambda>pkg.
          bindM (read_file (path_join (pb_cwd env) filename)) (\<lambda>tgz.
          bindM (call_world (pb_put env (publish_request_of env token pkg tgz))) (\<lambda>answer.
          case answer of
            RegistryError e \<Rightarrow> ret 1
          | RegistryReply status data \<Rightarrow>
              bindM (unlink (path_join (pb_cwd env) filename)) (\<lambda>_.
              ret (if status \<in> {200, 201} then 0 else 1)))))))))"

section \<open>The registry gets the tarball\<close>

lemma json_ok_prop: "json_ok v \<Longrightarrow> json_ok (js_prop v k)"
  by (cases v) (auto simp: list_all_iff split: option.split dest: map_of_SomeD)

lemma in_update: "kv \<in> set (obj_set k v kvs) \<Longrightarrow> kv = (k, v) \<or> kv \<in> set kvs"
  by (induction kvs) (auto split: if_splits)

lemma json_ok_set: "json_ok (JObj kvs) \<Longrightarrow> json_ok v \<Longrightarrow> json_ok (JObj (obj_set k v kvs))"
  by (auto simp: list_all_iff distinct_update dest!: in_update)

lemma json_ok_fields: "json_ok v \<Longrightarrow> json_ok (JObj (json_fields v))"
  by (cases v) simp_all

lemma publish_body_ok:
  assumes "json_ok pkg"
  shows "json_ok (publish_body pkg tgz shasum integrity)"
proof -
  have "json_ok (package_version pkg shasum integrity)"
    unfolding package_version_def package_dist_def by (intro json_ok_set json_ok_fields assms) simp_all
  then show ?thesis
    using json_ok_prop [OF assms] by (simp add: publish_body_def package_attachment_def canonical_int_num)
qed

lemma json_norm_prop: "js_prop (json_norm (JObj kvs)) k = (if js_prop (JObj kvs) k = JUndef then JUndef else json_norm (js_prop (JObj kvs) k))"
  if "distinct (map fst kvs)"
  using that
proof (induction kvs)
  case (Cons kv kvs)
  have "map_of (concat (map (\<lambda>kv. if snd kv = JUndef then [] else [(fst kv, json_norm (snd kv))]) kvs)) (fst kv) = None"
    using Cons.prems by (auto simp: map_of_eq_None_iff) (metis fst_conv image_eqI)
  then show ?case using Cons by (auto split: option.splits)
qed simp

lemma published_reads_back:
  assumes "json_ok pkg" "b = publish_body pkg tgz shasum integrity"
  shows "\<exists>v data. json_parse (json b) = Some v \<and>
     js_prop (js_prop (js_prop v ''_attachments'') (tarball_name pkg)) ''data'' = JStr data \<and> read_base64 data = tgz \<and>
     js_prop (js_prop (js_prop v ''_attachments'') (tarball_name pkg)) ''length'' = JNum (int_num (int (length tgz)))"
proof -
  have "json_parse (json b) = Some (json_norm b)"
    unfolding assms(2) by (rule json_round_trip [OF publish_body_ok [OF assms(1)]])
  moreover have "\<exists>neg m e. int_num (int (length tgz)) = Fin neg m e" using int_num_fin by blast
  then have "json_norm (package_attachment tgz) = package_attachment tgz" by (auto simp: package_attachment_def)
  then have "js_prop (json_norm b) ''_attachments'' = JObj [(tarball_name pkg, package_attachment tgz)]"
    unfolding assms(2) publish_body_def by (subst json_norm_prop) (simp_all add: package_attachment_def)
  ultimately show ?thesis by (simp add: package_attachment_def read_base64_round_trip)
qed

end
