(* ===== verification/ToolRegistry.thy ===== *)
theory ToolRegistry
  imports Startup
begin

text \<open>
  The tools that the server registers (\<open>main\<close> in \<open>src/index.ts\<close>): their descriptions, the
  schemas of their arguments, and how a handler takes its arguments apart. The zod package
  checks the arguments of a call before the handler runs; \<open>admits\<close> states what it lets
  through. Arguments that a schema admits always make a request (\<open>handler_arguments\<close>), and the
  arguments of a custom tool reach the statement as they are (\<open>admitted_arguments_arrive\<close>).
\<close>

section \<open>What a schema admits\<close>

text \<open>The documented meaning of the constructors; a missing argument is \<open>JUndef\<close>.\<close>

fun admits :: "zod \<Rightarrow> jsval \<Rightarrow> bool" where
  "admits (ZString d) v = (typeof v = ''string'')"
| "admits (ZNumber d) v = (typeof v = ''number'' \<and> v \<noteq> JNum NaN)"
| "admits (ZBoolean d) v = (typeof v = ''boolean'')"
| "admits (ZEnum vs d) v = (case v of JStr s \<Rightarrow> s \<in> set vs | _ \<Rightarrow> False)"
| "admits (ZOptional z) v = (v = JUndef \<or> admits z v)"
| "admits ZUnknown v = True"
| "admits (ZArray z d) v = (case v of JArr vs \<Rightarrow> list_all (admits z) vs | _ \<Rightarrow> False)"

definition argument_of :: "jsval obj \<Rightarrow> string \<Rightarrow> jsval" where
  "argument_of args name = or_else (obj_get args name) JUndef"

definition admits_all :: "zod obj \<Rightarrow> jsval obj \<Rightarrow> bool" where
  "admits_all schema args \<longleftrightarrow> (\<forall>(name, z) \<in> set schema. admits z (argument_of args name))"

section \<open>The built-in tools\<close>

record builtin =
  bt_description :: string
  bt_schema :: "zod obj"

definition connection_argument :: "string \<times> zod" where
  "connection_argument = (''connection'', ZString ''Connection name from config'')"

definition list_connections_tool :: builtin where
  "list_connections_tool =
     \<lparr>bt_description = join '' ''
         [''List all configured database connections with their status, permission levels, and database type (postgresql, mysql, sqlite, sqlserver).'',
          ''Use the database type to write dialect-correct SQL.''],
      bt_schema = []\<rparr>"

definition test_connection_tool :: builtin where
  "test_connection_tool =
     \<lparr>bt_description = join '' ''
         [''Test a specific database connection.'',
          ''Returns status, latency, and the actual driver error on failure.'',
          ''Use this to diagnose connection issues.''],
      bt_schema = [connection_argument]\<rparr>"

definition get_schema_tool :: builtin where
  "get_schema_tool =
     \<lparr>bt_description = join '' ''
         [''Get database schema.'',
          ''Without tables param: returns summary (table names, column counts, PKs).'',
          ''With tables param: returns full column details for specified tables.''],
      bt_schema = [connection_argument,
        (''tables'', ZOptional (ZArray (ZString []) ''Specific tables for detailed schema'')),
        (''force_refresh'', ZOptional (ZBoolean ''Force refresh cached schema''))]\<rparr>"

definition execute_sql_tool :: builtin where
  "execute_sql_tool =
     \<lparr>bt_description = execute_description,
      bt_schema = [connection_argument,
        (''query'', ZString ''SQL query to execute''),
        (''params'', ZOptional (ZArray ZUnknown ''Query parameters for parameterized queries'')),
        (''limit'', ZOptional (ZNumber ''Max rows to return (overrides connection default). Use with offset for pagination.'')),
        (''offset'', ZOptional (ZNumber ''Skip this many rows before returning results. Use with limit for pagination.''))]\<rparr>"

definition explain_query_tool :: builtin where
  "explain_query_tool =
     \<lparr>bt_description = explain_description,
      bt_schema = [connection_argument,
        (''query'', ZString ''SQL query to explain''),
        (''analyze'', ZOptional (ZBoolean (join '' ''
          [''When true, actually execute the query to get real timing and row counts instead of estimates.'',
           ''Default false.''])))]\<rparr>"

definition get_sample_tool :: builtin where
  "get_sample_tool =
     \<lparr>bt_description = sample_description,
      bt_schema = [connection_argument,
        (''table'', ZString ''Table name to sample''),
        (''limit'', ZOptional (ZNumber ''Number of rows to return (default 10)'')),
        (''where'', ZOptional (ZString (join '' ''
          [''WHERE clause condition (without the WHERE keyword).'',
           concat [''Example: '', [CHR 0x22], ''status = '', [CHR 0x27], ''active'', [CHR 0x27], '' AND created_at > '', [CHR 0x27], ''2024-01-01'', [CHR 0x27], [CHR 0x22]]]))),
        (''order_by'', ZOptional (ZString (concat [''ORDER BY expression (without the ORDER BY keyword). Example: '', [CHR 0x22], ''created_at DESC'', [CHR 0x22]])))]\<rparr>"

definition search_schema_tool :: builtin where
  "search_schema_tool =
     \<lparr>bt_description = join '' ''
         [''Search for tables and columns by keyword.'',
          ''Searches names and comments.'',
          ''Returns up to 20 results ranked by relevance.''],
      bt_schema = [connection_argument,
        (''query'', ZString ''Search keyword'')]\<rparr>"

definition list_tables_tool :: builtin where
  "list_tables_tool =
     \<lparr>bt_description = join '' ''
         [''List all tables with row counts.'',
          concat [''Faster than get_schema for a quick overview of what'', [CHR 0x27], ''s in the database.''],
          concat [''By default uses exact counts (COUNT('', ''*)); set exact_counts=false for faster approximate counts on large databases.'']],
      bt_schema = [connection_argument,
        (''exact_counts'', ZOptional (ZBoolean (join '' ''
          [concat [''When true (default), returns exact row counts via COUNT('', ''*).''],
           ''When false, returns approximate counts from database statistics (faster but may be stale).''])))]\<rparr>"

definition get_relationships_tool :: builtin where
  "get_relationships_tool =
     \<lparr>bt_description = join '' ''
         [''Map foreign key relationships across the database.'',
          ''Returns a list of relationships and a graph showing what each table references and what references it.'',
          ''Optionally filter to a specific table.''],
      bt_schema = [connection_argument,
        (''table'', ZOptional (ZString ''Filter to relationships involving this table''))]\<rparr>"

definition get_indexes_tool :: builtin where
  "get_indexes_tool =
     \<lparr>bt_description = join '' ''
         [''List indexes across the database or for a specific table.'',
          ''Shows index name, columns, uniqueness, index type (btree/hash/gin/etc.), and partial index filter expressions.''],
      bt_schema = [connection_argument,
        (''table'', ZOptional (ZString ''Filter to indexes on this table''))]\<rparr>"

definition validate_query_tool :: builtin where
  "validate_query_tool =
     \<lparr>bt_description = validate_description,
      bt_schema = [connection_argument,
        (''query'', ZString ''SQL query to validate'')]\<rparr>"

definition get_table_stats_tool :: builtin where
  "get_table_stats_tool =
     \<lparr>bt_description = join '' ''
         [''Column-level statistics for a table: null counts/percentages, distinct values, min/max.'',
          ''Uses a sample (default 10,000 rows) to avoid full table scans on large databases.''],
      bt_schema = [connection_argument,
        (''table'', ZString ''Table name''),
        (''sample_size'', ZOptional (ZNumber ''Max rows to sample (default 10000)''))]\<rparr>"

definition get_distinct_values_tool :: builtin where
  "get_distinct_values_tool =
     \<lparr>bt_description = join '' ''
         [''Show distinct values and their counts for a column.'',
          ''Useful for understanding enums, statuses, categories, and other low-cardinality columns.''],
      bt_schema = [connection_argument,
        (''table'', ZString ''Table name''),
        (''column'', ZString ''Column name''),
        (''limit'', ZOptional (ZNumber ''Max distinct values to return (default 50)''))]\<rparr>"

definition query_history_tool :: builtin where
  "query_history_tool =
     \<lparr>bt_description = join '' ''
         [''View recent query execution history.'',
          ''Shows tool name, connection, SQL, duration, row count, and status.'',
          ''Useful for debugging and understanding what queries have been run.''],
      bt_schema = [(''connection'', ZOptional (ZString ''Filter by connection name'')),
        (''status'', ZOptional (ZEnum [''ok'', ''error''] ''Filter by status'')),
        (''limit'', ZOptional (ZNumber ''Max entries to return (default 50)'')),
        (''offset'', ZOptional (ZNumber ''Skip N entries for pagination (default 0)''))]\<rparr>"

definition builtin_tools :: "builtin obj" where
  "builtin_tools =
     [(''list_connections'', list_connections_tool),
      (''test_connection'', test_connection_tool),
      (''get_schema'', get_schema_tool),
      (''execute_sql'', execute_sql_tool),
      (''explain_query'', explain_query_tool),
      (''get_sample'', get_sample_tool),
      (''search_schema'', search_schema_tool),
      (''list_tables'', list_tables_tool),
      (''get_relationships'', get_relationships_tool),
      (''get_indexes'', get_indexes_tool),
      (''validate_query'', validate_query_tool),
      (''get_table_stats'', get_table_stats_tool),
      (''get_distinct_values'', get_distinct_values_tool),
      (''query_history'', query_history_tool)]"

text \<open>The names under which the server offers tools.\<close>

definition registered_names :: "omnibase_config \<Rightarrow> string list" where
  "registered_names config = obj_keys builtin_tools @ obj_keys (register_custom_tools config)"

section \<open>The arguments of a handler\<close>

text \<open>
  The fields that a handler takes out of its arguments, at the types of the code: \<open>None\<close> where a
  value has another type. Numbers are the whole ones, as everywhere in the model.
\<close>

definition as_string :: "jsval \<Rightarrow> string option" where
  "as_string v = (case v of JStr s \<Rightarrow> Some s | _ \<Rightarrow> None)"

definition as_flag :: "jsval \<Rightarrow> bool option" where
  "as_flag v = (case v of JBool b \<Rightarrow> Some b | _ \<Rightarrow> None)"

definition as_whole :: "jsval \<Rightarrow> int option" where
  "as_whole v =
     (case v of JNum (Fin neg m e) \<Rightarrow> if 0 \<le> e then Some (as_int 0 (JNum (Fin neg m e))) else None | _ \<Rightarrow> None)"

definition as_items :: "jsval \<Rightarrow> jsval list option" where
  "as_items v = (case v of JArr vs \<Rightarrow> Some vs | _ \<Rightarrow> None)"

definition as_texts :: "jsval \<Rightarrow> string list option" where
  "as_texts v = (case v of JArr vs \<Rightarrow> those (map as_string vs) | _ \<Rightarrow> None)"

definition as_status :: "jsval \<Rightarrow> audit_status option" where
  "as_status v = (if v = JStr ''ok'' then Some AuditOk else if v = JStr ''error'' then Some AuditError else None)"

definition required_arg :: "(jsval \<Rightarrow> 'a option) \<Rightarrow> string \<Rightarrow> jsval obj \<Rightarrow> 'a option" where
  "required_arg f name args = f (argument_of args name)"

definition optional_arg :: "(jsval \<Rightarrow> 'a option) \<Rightarrow> string \<Rightarrow> jsval obj \<Rightarrow> 'a option option" where
  "optional_arg f name args =
     (if argument_of args name = JUndef then Some None else map_option Some (f (argument_of args name)))"

datatype client_call =
    ServerCall request
  | HistoryCall "string option" "audit_status option" "int option" "int option"

definition with_connection :: "jsval obj \<Rightarrow> (string \<Rightarrow> client_call option) \<Rightarrow> client_call option" where
  "with_connection args f = Option.bind (required_arg as_string ''connection'' args) f"

definition take_get_schema :: "jsval obj \<Rightarrow> client_call option" where
  "take_get_schema args =
     with_connection args (\<lambda>c.
     Option.bind (optional_arg as_texts ''tables'' args) (\<lambda>tables.
     Option.bind (optional_arg as_flag ''force_refresh'' args) (\<lambda>force.
     Some (ServerCall (GetSchema c tables force)))))"

definition take_execute_sql :: "jsval obj \<Rightarrow> client_call option" where
  "take_execute_sql args =
     with_connection args (\<lambda>c.
     Option.bind (required_arg as_string ''query'' args) (\<lambda>query.
     Option.bind (optional_arg as_items ''params'' args) (\<lambda>params.
     Option.bind (optional_arg as_whole ''limit'' args) (\<lambda>limit.
     Option.bind (optional_arg as_whole ''offset'' args) (\<lambda>offset.
     Some (ServerCall (ExecuteSql
       \<lparr>xa_connection = c, xa_query = query, xa_params = params, xa_limit = limit, xa_offset = offset\<rparr>)))))))"

definition take_explain_query :: "jsval obj \<Rightarrow> client_call option" where
  "take_explain_query args =
     with_connection args (\<lambda>c.
     Option.bind (required_arg as_string ''query'' args) (\<lambda>query.
     Option.bind (optional_arg as_flag ''analyze'' args) (\<lambda>analyze.
     Some (ServerCall (ExplainQuery c query analyze)))))"

definition take_get_sample :: "jsval obj \<Rightarrow> client_call option" where
  "take_get_sample args =
     with_connection args (\<lambda>c.
     Option.bind (required_arg as_string ''table'' args) (\<lambda>table.
     Option.bind (optional_arg as_whole ''limit'' args) (\<lambda>limit.
     Option.bind (optional_arg as_string ''where'' args) (\<lambda>whr.
     Option.bind (optional_arg as_string ''order_by'' args) (\<lambda>order_by.
     Some (ServerCall (GetSample c table limit whr order_by)))))))"

definition take_table :: "(string \<Rightarrow> string option \<Rightarrow> request) \<Rightarrow> jsval obj \<Rightarrow> client_call option" where
  "take_table f args =
     with_connection args (\<lambda>c.
     Option.bind (optional_arg as_string ''table'' args) (\<lambda>table. Some (ServerCall (f c table))))"

definition take_query :: "(string \<Rightarrow> string \<Rightarrow> request) \<Rightarrow> jsval obj \<Rightarrow> client_call option" where
  "take_query f args =
     with_connection args (\<lambda>c.
     Option.bind (required_arg as_string ''query'' args) (\<lambda>query. Some (ServerCall (f c query))))"

definition take_list_tables :: "jsval obj \<Rightarrow> client_call option" where
  "take_list_tables args =
     with_connection args (\<lambda>c.
     Option.bind (optional_arg as_flag ''exact_counts'' args) (\<lambda>exact. Some (ServerCall (ListTables c exact))))"

definition take_get_table_stats :: "jsval obj \<Rightarrow> client_call option" where
  "take_get_table_stats args =
     with_connection args (\<lambda>c.
     Option.bind (required_arg as_string ''table'' args) (\<lambda>table.
     Option.bind (optional_arg as_whole ''sample_size'' args) (\<lambda>size.
     Some (ServerCall (GetTableStats c table size)))))"

definition take_get_distinct_values :: "jsval obj \<Rightarrow> client_call option" where
  "take_get_distinct_values args =
     with_connection args (\<lambda>c.
     Option.bind (required_arg as_string ''table'' args) (\<lambda>table.
     Option.bind (required_arg as_string ''column'' args) (\<lambda>column.
     Option.bind (optional_arg as_whole ''limit'' args) (\<lambda>limit.
     Some (ServerCall (GetDistinctValues c table column limit))))))"

definition take_query_history :: "jsval obj \<Rightarrow> client_call option" where
  "take_query_history args =
     Option.bind (optional_arg as_string ''connection'' args) (\<lambda>c.
     Option.bind (optional_arg as_status ''status'' args) (\<lambda>status.
     Option.bind (optional_arg as_whole ''limit'' args) (\<lambda>limit.
     Option.bind (optional_arg as_whole ''offset'' args) (\<lambda>offset.
     Some (HistoryCall c status limit offset)))))"

definition handlers :: "(jsval obj \<Rightarrow> client_call option) obj" where
  "handlers =
     [(''list_connections'', \<lambda>args. Some (ServerCall ListConnections)),
      (''test_connection'', \<lambda>args. with_connection args (\<lambda>c. Some (ServerCall (TestConnection c)))),
      (''get_schema'', take_get_schema), (''execute_sql'', take_execute_sql),
      (''explain_query'', take_explain_query), (''get_sample'', take_get_sample),
      (''search_schema'', take_query SearchSchema), (''list_tables'', take_list_tables),
      (''get_relationships'', take_table GetRelationships), (''get_indexes'', take_table GetIndexes),
      (''validate_query'', take_query ValidateQuery), (''get_table_stats'', take_get_table_stats),
      (''get_distinct_values'', take_get_distinct_values), (''query_history'', take_query_history)]"

definition client_call_of :: "string \<Rightarrow> jsval obj \<Rightarrow> client_call option" where
  "client_call_of name args = Option.bind (obj_get handlers name) (\<lambda>h. h args)"

section \<open>Names\<close>

lemma builtin_names: "obj_keys builtin_tools = built_in_tool_names" "obj_keys handlers = built_in_tool_names"
  by (simp_all add: builtin_tools_def handlers_def built_in_tool_names_def)

lemma builtin_names_plain:
  "distinct built_in_tool_names" "name \<in> set built_in_tool_names \<Longrightarrow> take 7 name \<noteq> ''custom_''"
  by (auto simp: built_in_tool_names_def)

lemma custom_names: "obj_keys (register_custom_tools config) = map (\<lambda>(name, tool). ''custom_'' @ name) (config_tools config)"
  by (simp add: register_custom_tools_def comp_def case_prod_beta)

text \<open>No name is registered twice, so that the MCP package accepts every tool.\<close>

lemma registered_names_distinct:
  assumes "distinct (map fst (config_tools config))"
  shows "distinct (registered_names config)"
proof -
  have "distinct (map (\<lambda>(name, tool). ''custom_'' @ name) (config_tools config))"
    using assms by (simp add: distinct_map inj_on_def case_prod_beta)
  moreover have "name \<notin> set built_in_tool_names" if "name \<in> set (obj_keys (register_custom_tools config))" for name
    using that builtin_names_plain(2) [of name] by (auto simp: custom_names)
  ultimately show ?thesis
    using builtin_names_plain(1) by (auto simp: registered_names_def builtin_names custom_names)
qed

section \<open>Admitted arguments make a request\<close>

definition whole_numbers :: "jsval obj \<Rightarrow> bool" where
  "whole_numbers args \<longleftrightarrow> (\<forall>name. typeof (argument_of args name) = ''number'' \<longrightarrow> as_whole (argument_of args name) \<noteq> None)"

named_theorems taken \<open>arguments that a schema admits are found by the handler\<close>

lemma take_string [taken]: "admits (ZString d) (argument_of args n) \<Longrightarrow> \<exists>s. required_arg as_string n args = Some s"
  by (cases "argument_of args n") (simp_all add: required_arg_def as_string_def)

lemma take_optional_string [taken]:
  "admits (ZOptional (ZString d)) (argument_of args n) \<Longrightarrow> \<exists>s. optional_arg as_string n args = Some s"
  by (cases "argument_of args n") (simp_all add: optional_arg_def as_string_def)

lemma take_optional_flag [taken]:
  "admits (ZOptional (ZBoolean d)) (argument_of args n) \<Longrightarrow> \<exists>b. optional_arg as_flag n args = Some b"
  by (cases "argument_of args n") (simp_all add: optional_arg_def as_flag_def)

lemma take_optional_whole:
  "admits (ZOptional (ZNumber d)) (argument_of args n) \<Longrightarrow> whole_numbers args \<Longrightarrow> \<exists>i. optional_arg as_whole n args = Some i"
  by (auto simp: optional_arg_def whole_numbers_def)

lemma take_optional_items [taken]:
  "admits (ZOptional (ZArray z d)) (argument_of args n) \<Longrightarrow> \<exists>i. optional_arg as_items n args = Some i"
  by (cases "argument_of args n") (simp_all add: optional_arg_def as_items_def)

lemma those_texts: "list_all (admits (ZString d)) vs \<Longrightarrow> \<exists>ts. those (map as_string vs) = Some ts"
proof (induction vs)
  case (Cons v vs)
  then show ?case by (cases v) (auto simp: as_string_def)
qed simp

lemma take_optional_texts [taken]:
  "admits (ZOptional (ZArray (ZString d) e)) (argument_of args n) \<Longrightarrow> \<exists>ts. optional_arg as_texts n args = Some ts"
  using those_texts by (cases "argument_of args n") (auto simp: optional_arg_def as_texts_def)

lemma take_optional_status [taken]:
  "admits (ZOptional (ZEnum [''ok'', ''error''] d)) (argument_of args n) \<Longrightarrow> \<exists>st. optional_arg as_status n args = Some st"
  by (cases "argument_of args n") (auto simp: optional_arg_def as_status_def)

lemmas take_defs = take_get_schema_def take_execute_sql_def take_explain_query_def take_get_sample_def take_table_def
  take_query_def take_list_tables_def take_get_table_stats_def take_get_distinct_values_def take_query_history_def
  with_connection_def

lemmas tool_defs = list_connections_tool_def test_connection_tool_def get_schema_tool_def execute_sql_tool_def
  explain_query_tool_def get_sample_tool_def search_schema_tool_def list_tables_tool_def get_relationships_tool_def
  get_indexes_tool_def validate_query_tool_def get_table_stats_tool_def get_distinct_values_tool_def
  query_history_tool_def connection_argument_def

text \<open>Each handler finds its arguments: the schema gives one fact for each.\<close>

lemma handlers_find:
  "admits_all (bt_schema test_connection_tool) args \<Longrightarrow> \<exists>c. with_connection args (\<lambda>c. Some (ServerCall (TestConnection c))) = Some c"
  "admits_all (bt_schema get_schema_tool) args \<Longrightarrow> \<exists>c. take_get_schema args = Some c"
  "admits_all (bt_schema explain_query_tool) args \<Longrightarrow> \<exists>c. take_explain_query args = Some c"
  "admits_all (bt_schema search_schema_tool) args \<Longrightarrow> \<exists>c. take_query SearchSchema args = Some c"
  "admits_all (bt_schema validate_query_tool) args \<Longrightarrow> \<exists>c. take_query ValidateQuery args = Some c"
  "admits_all (bt_schema list_tables_tool) args \<Longrightarrow> \<exists>c. take_list_tables args = Some c"
  "admits_all (bt_schema get_relationships_tool) args \<Longrightarrow> \<exists>c. take_table GetRelationships args = Some c"
  "admits_all (bt_schema get_indexes_tool) args \<Longrightarrow> \<exists>c. take_table GetIndexes args = Some c"
  by (auto simp: admits_all_def tool_defs take_defs simp del: admits.simps dest!: taken)

lemma handlers_find_numbers:
  assumes "whole_numbers args"
  shows "admits_all (bt_schema execute_sql_tool) args \<Longrightarrow> \<exists>c. take_execute_sql args = Some c"
    "admits_all (bt_schema get_sample_tool) args \<Longrightarrow> \<exists>c. take_get_sample args = Some c"
    "admits_all (bt_schema get_table_stats_tool) args \<Longrightarrow> \<exists>c. take_get_table_stats args = Some c"
    "admits_all (bt_schema get_distinct_values_tool) args \<Longrightarrow> \<exists>c. take_get_distinct_values args = Some c"
    "admits_all (bt_schema query_history_tool) args \<Longrightarrow> \<exists>c. take_query_history args = Some c"
  by (auto simp: admits_all_def tool_defs take_defs simp del: admits.simps
      dest!: taken take_optional_whole [OF _ assms])

lemma handler_arguments:
  assumes "obj_get builtin_tools name = Some t" "admits_all (bt_schema t) args" "whole_numbers args"
  shows "\<exists>call. client_call_of name args = Some call"
  using assms(1,2) handlers_find [of args] handlers_find_numbers [OF assms(3)]
  by (auto simp: builtin_tools_def client_call_of_def handlers_def split: if_splits)

section \<open>The arguments of a custom tool\<close>

text \<open>The schema of a parameter when it is required, for a default value.\<close>

definition value_schema :: "tool_parameter \<Rightarrow> zod" where
  "value_schema param = parameter_schema (param\<lparr>tp_required := Some True\<rparr>)"

definition defaults_admitted :: "tool_parameter obj \<Rightarrow> bool" where
  "defaults_admitted defs \<longleftrightarrow> (\<forall>(n, def) \<in> set defs. tp_required def = Some False \<longrightarrow> admits (value_schema def) (tp_default def))"

lemma coerce_admitted: "admits (value_schema def) v \<Longrightarrow> coerce_parameter name v def = Inr v"
  by (cases v; cases "tp_values def") (auto simp: value_schema_def parameter_schema_def Let_def coerce_parameter_def
      split: param_type.splits)

lemma argument_admitted:
  assumes "admits (parameter_schema def) (argument_of args n)"
    and "tp_required def = Some False \<Longrightarrow> admits (value_schema def) (tp_default def)"
  shows "admits (value_schema def) (arg_value args n def)"
proof (cases "tp_required def = Some False")
  case True
  then have "parameter_schema def = ZOptional (value_schema def)"
    by (simp add: parameter_schema_def value_schema_def Let_def split: param_type.split)
  then show ?thesis
    using assms True by (auto simp: arg_value_def argument_of_def Let_def split: option.splits)
next
  case False
  then have "parameter_schema def = value_schema def"
    by (simp add: parameter_schema_def value_schema_def Let_def split: param_type.split)
  then show ?thesis using assms(1) False by (auto simp: arg_value_def argument_of_def Let_def split: option.splits)
qed

text \<open>The values of the placeholders that are declared, in the order of the text.\<close>

fun tok_values :: "jsval obj \<Rightarrow> tool_parameter obj \<Rightarrow> tok \<Rightarrow> jsval list" where
  "tok_values args defs (Chr c) = []"
| "tok_values args defs (Mat m cs) =
     (case obj_get defs (captured 1 cs) of None \<Rightarrow> [] | Some def \<Rightarrow> [arg_value args (captured 1 cs) def])"

definition placeholder_values :: "string \<Rightarrow> jsval obj \<Rightarrow> tool_parameter obj \<Rightarrow> jsval list" where
  "placeholder_values sql args defs = concat (map (tok_values args defs) (rx_tokens placeholder_rx [] sql))"

lemma admitted_arguments_arrive:
  assumes "admits_all (build_zod_schema (Some defs)) args" "defaults_admitted defs"
  shows "\<exists>w. substitute_parameters sql args defs = Inr (w, placeholder_values sql args defs)"
proof -
  have coerce: "coerce_parameter n (arg_value args n def) def = Inr (arg_value args n def)" if "obj_get defs n = Some def" for n def
  proof (rule coerce_admitted, rule argument_admitted)
    have mem: "(n, def) \<in> set defs" using that by (rule map_of_SomeD)
    then show "admits (parameter_schema def) (argument_of args n)"
      using assms(1) by (force simp: admits_all_def build_zod_schema_def)
    show "admits (value_schema def) (tp_default def)" if "tp_required def = Some False"
      using assms(2) mem that by (auto simp: defaults_admitted_def)
  qed
  have tok: "\<exists>w. substitute_tok args defs t = Inr (w, tok_values args defs t)" for t
    using coerce by (cases t) (auto split: option.split)
  have "\<exists>parts. mapR (substitute_tok args defs) ts = Inr parts \<and>
      concat (map snd parts) = concat (map (tok_values args defs) ts)" for ts
  proof (induction ts)
    case (Cons t ts)
    then obtain parts where "mapR (substitute_tok args defs) ts = Inr parts"
      "concat (map snd parts) = concat (map (tok_values args defs) ts)" by blast
    moreover obtain w where "substitute_tok args defs t = Inr (w, tok_values args defs t)" using tok by blast
    ultimately show ?case by simp
  qed simp
  then obtain parts where "mapR (substitute_tok args defs) (rx_tokens placeholder_rx [] sql) = Inr parts"
    "concat (map snd parts) = placeholder_values sql args defs"
    unfolding placeholder_values_def by blast
  then show ?thesis by (simp add: substitute_parameters_def)
qed

lemma registered_schema:
  "obj_get (register_custom_tools config) mcpName = Some r \<Longrightarrow> rg_schema r = build_zod_schema (Some (tool_params (rg_tool r)))"
  by (auto simp: register_custom_tools_def build_zod_schema_def dest!: map_of_SomeD split: option.splits)

end
