(* ===== verification/Gaps.thy ===== *)
theory Gaps
  imports CliSamples AuditTail AuditRaces Interleaving Publish ToolRegistry
begin

text \<open>
  Concrete inputs on which the guards do not do what the documentation of the program
  says. Each theorem evaluates the model of the code.
\<close>

section \<open>Inputs that the rules let through\<close>

text \<open>
  The content rules accept two texts that they are meant to refuse: a query of the
  sensitive table SYS.USER$ (the dollar sign is not a word character, so the closing
  boundary never matches there) and a COMMIT that ends with a semicolon (the first word is
  then not the keyword).
\<close>

theorem content_rule_gaps:
  "check_sql_security ''SELECT * FROM SYS.USER$'' None = Inr () \<and>
   check_sql_security ''COMMIT;'' None = Inr () \<and>
   check_sql_security ''COMMIT'' None \<noteq> Inr ()"
proof (intro conjI)
  show "check_sql_security ''SELECT * FROM SYS.USER$'' None = Inr ()" by code_simp
  show "check_sql_security ''COMMIT;'' None = Inr ()" by code_simp
  show "check_sql_security ''COMMIT'' None \<noteq> Inr ()" by code_simp
qed

text \<open>
  DROP TABLE of a read-only table is refused, but the same statement with IF EXISTS, and
  TRUNCATE without TABLE, are accepted.
\<close>

theorem read_only_table_gap:
  "check_read_only_tables ''DROP TABLE users'' Ddl (Some [''users'']) \<noteq> Inr () \<and>
   check_read_only_tables ''DROP TABLE IF EXISTS users'' Ddl (Some [''users'']) = Inr () \<and>
   check_read_only_tables ''TRUNCATE users'' Ddl (Some [''users'']) = Inr ()"
proof (intro conjI)
  show "check_read_only_tables ''DROP TABLE users'' Ddl (Some [''users'']) \<noteq> Inr ()" by code_simp
  show "check_read_only_tables ''DROP TABLE IF EXISTS users'' Ddl (Some [''users'']) = Inr ()" by code_simp
  show "check_read_only_tables ''TRUNCATE users'' Ddl (Some [''users'']) = Inr ()" by code_simp
qed

text \<open>
  A write inside a WITH clause is detected, but not when the clause says MATERIALIZED;
  the keyword fallback then counts the query as a read.
\<close>

theorem materialized_cte_gap:
  "classify_query no_parser ''WITH t AS (DELETE FROM u) SELECT 1'' = Write \<and>
   classify_query no_parser ''WITH t AS MATERIALIZED (DELETE FROM u) SELECT 1'' = Read"
proof (intro conjI)
  show "classify_query no_parser ''WITH t AS (DELETE FROM u) SELECT 1'' = Write" by code_simp
  show "classify_query no_parser ''WITH t AS MATERIALIZED (DELETE FROM u) SELECT 1'' = Read" by code_simp
qed

text \<open>
  A steps tool takes a table that is only mentioned in a comment for a temporary table
  that it created. The statement is an admitted read, and the clean-up that follows it
  sends a DROP of that table, under a read-only permission.
\<close>

theorem comment_drops_table:
  "classify_query no_parser ''SELECT 1 -- CREATE TEMP TABLE users'' = Read \<and>
   check_sql_security ''SELECT 1 -- CREATE TEMP TABLE users'' None = Inr () \<and>
   committed_log [''SELECT 1 -- CREATE TEMP TABLE users''] =
     [''SELECT 1 -- CREATE TEMP TABLE users'', ''COMMIT'', ''DROP TABLE IF EXISTS users'']"
proof (intro conjI)
  show "classify_query no_parser ''SELECT 1 -- CREATE TEMP TABLE users'' = Read" by code_simp
  show "check_sql_security ''SELECT 1 -- CREATE TEMP TABLE users'' None = Inr ()" by code_simp
  have "temp_table_of ''SELECT 1 -- CREATE TEMP TABLE users'' = Some ''users''" by code_simp
  then show "committed_log [''SELECT 1 -- CREATE TEMP TABLE users''] =
     [''SELECT 1 -- CREATE TEMP TABLE users'', ''COMMIT'', ''DROP TABLE IF EXISTS users'']"
    by (simp add: committed_log_def List.map_filter_simps)
qed

text \<open>
  A pipeline substitutes its parameters after it has inlined the results of earlier
  steps, so that a stored text which looks like a placeholder is replaced as if the
  template contained it.
\<close>

theorem stored_text_is_substituted:
  "expand_compose_references ''SELECT {a.n}'' [(''a'', sample_result\<lparr>qr_rows := [[JStr ''{id}'']]\<rparr>)]
     = Inr (''SELECT '' @ quote_single ''{id}'') \<and>
   substitute_parameters (''SELECT '' @ quote_single ''{id}'') [(''id'', JStr ''7'')] sample_params
     = Inr (''SELECT '' @ quote_single ''?'', [JStr ''7''])"
proof
  have "rx_tokens compose_ref_rx [] ''SELECT {a.n}'' =
      map Chr ''SELECT '' @ [Mat ''{a.n}'' [(1, ''a''), (2, ''n'')]]"
    by code_simp
  moreover have "sql_quote ''{id}'' = quote_single ''{id}''" by code_simp
  ultimately show "expand_compose_references ''SELECT {a.n}'' [(''a'', sample_result\<lparr>qr_rows := [[JStr ''{id}'']]\<rparr>)]
     = Inr (''SELECT '' @ quote_single ''{id}'')"
    by (simp add: expand_compose_references_def captured_def expand_reference_def sample_result_def cell_def
        expand_value_def)
  have "rx_tokens placeholder_rx [] (''SELECT '' @ quote_single ''{id}'') =
      map Chr (''SELECT '' @ [CHR 0x27]) @ [Mat ''{id}'' [(1, ''id'')]] @ map Chr [CHR 0x27]"
    by code_simp
  then show "substitute_parameters (''SELECT '' @ quote_single ''{id}'') [(''id'', JStr ''7'')] sample_params
     = Inr (''SELECT '' @ quote_single ''?'', [JStr ''7''])"
    by (simp add: substitute_parameters_def captured_def sample_params_def coerce_parameter_def arg_value_def
        quote_single_def)
qed

section \<open>Statements that other tools send unchecked\<close>

text \<open>
  \<open>validate_query\<close> estimates the affected rows with a statement that carries the WHERE
  clause of the query: on a read-only connection, and although the content rules refuse
  that clause.
\<close>

definition loading_query :: string where
  "loading_query = ''DELETE FROM users WHERE LOAD_FILE(1)''"

theorem validation_sends_where_clause:
  "sys_world (snd (handle_validate_query no_parser sample_backend sample_config ''db'' loading_query ready_sys)) =
     [''SELECT COUNT(*) FROM users WHERE LOAD_FILE(1)''] \<and>
   check_sql_security ''SELECT COUNT(*) FROM users WHERE LOAD_FILE(1)'' (Some False) \<noteq> Inr ()"
proof
  have facts: "trim loading_query \<noteq> []" "loading_query \<noteq> []" "\<not> is_multi_statement no_parser loading_query"
    "classify_query no_parser loading_query = Write"
    "count_query_from_regex loading_query = Some ''SELECT COUNT(*) FROM users WHERE LOAD_FILE(1)''"
    by code_simp+
  then show "sys_world (snd (handle_validate_query no_parser sample_backend sample_config ''db'' loading_query ready_sys)) =
     [''SELECT COUNT(*) FROM users WHERE LOAD_FILE(1)'']"
    by (simp add: handle_validate_query_def sample_lookup run_simps no_parser_def [of "number_marks _ _"] ask_database_def
        validate_query_def ensure_connected_run call_backend_run ready_sys_def initial_sys_def sample_connection_simps
        sample_backend_def check_permission_def Let_def add_estimate_def estimate_affected_rows_def
        build_count_query_def cm_execute_def)
  show "check_sql_security ''SELECT COUNT(*) FROM users WHERE LOAD_FILE(1)'' (Some False) \<noteq> Inr ()" by code_simp
qed

text \<open>
  \<open>get_sample\<close> checks the table name but sends the condition as it is, here a UNION with a
  table that the content rules protect.
\<close>

theorem sample_sends_condition:
  "sys_world (snd (handle_get_sample sample_backend sample_config ''db'' ''users'' None
       (Some ''1=0 UNION SELECT * FROM pg_shadow'') None ready_sys)) =
     [''SELECT * FROM users WHERE 1=0 UNION SELECT * FROM pg_shadow LIMIT 10''] \<and>
   check_sql_security ''SELECT * FROM users WHERE 1=0 UNION SELECT * FROM pg_shadow LIMIT 10'' (Some False) \<noteq> Inr ()"
proof
  have "find_table ''users'' \<lparr>si_tables = sample_tables\<rparr> = Some (sample_table ''users'' ''id'')"
    by (simp add: find_table_def sample_tables_def sample_table_def) code_simp
  moreover have "select_with_limit ''*'' ''users'' 10 (get_dialect sample_connection)
      (Some ''1=0 UNION SELECT * FROM pg_shadow'') None =
      ''SELECT * FROM users WHERE 1=0 UNION SELECT * FROM pg_shadow LIMIT 10''" by code_simp
  ultimately show "sys_world (snd (handle_get_sample sample_backend sample_config ''db'' ''users'' None
       (Some ''1=0 UNION SELECT * FROM pg_shadow'') None ready_sys)) =
     [''SELECT * FROM users WHERE 1=0 UNION SELECT * FROM pg_shadow LIMIT 10'']"
    unfolding get_sample_ready [OF sample_lookup ready_sys_ready]
    by (simp add: bindM_run call_backend_run ret_run sample_table_def sample_backend_def sample_connection_simps
        ready_sys_def initial_sys_def)
  have "rx_test (sensitive_rx ''PG_SHADOW'')
      (to_upper (trim ''SELECT * FROM users WHERE 1=0 UNION SELECT * FROM pg_shadow LIMIT 10''))" by code_simp
  then show "check_sql_security ''SELECT * FROM users WHERE 1=0 UNION SELECT * FROM pg_shadow LIMIT 10'' (Some False) \<noteq> Inr ()"
    by (rule names_sensitive_table) (simp add: sensitive_tables_def)
qed

section \<open>Smaller slips\<close>

text \<open>Two columns whose names differ in a character that is no word character share their aliases.\<close>

theorem statistics_alias_collision:
  "safe_alias ''_null_'' ''a-b'' = safe_alias ''_null_'' ''a_b''"
  by code_simp

text \<open>A sidecar line that is the JSON value \<open>null\<close> is not ignored as other noise is: reading it throws.\<close>

theorem null_line_throws: "handle_response ''null'' c = None"
proof -
  have "json_parse ''null'' = Some JNull" by code_simp
  then show ?thesis by (simp add: handle_response_def)
qed

text \<open>
  A pipeline step that has both a tool and a statement loses its statement when the file is
  read, so that the validation never sees the contradiction it is meant to refuse.
\<close>

theorem step_with_both_loses_statement:
  "cs_sql (parse_compose_step \<lparr>rs_tool = Some ''one'', rs_sql = Some ''SELECT 2'', rs_args = None, rs_as = Some ''a''\<rparr>) = None"
  by code_simp

section \<open>The command line\<close>

text \<open>
  The dialogue of \<open>tools add\<close> accepts the name of a built-in tool that its own list lacks; the
  validation then refuses the whole configuration.
\<close>

theorem added_name_is_refused:
  "name_problem sample_config ''query_history'' = None"
  "sum.isl (validate_tool sample_config (''query_history'', single_tool))"
  by code_simp+

text \<open>
  \<open>tools test\<close> sends the statement of a tool without the checks of the server, here a DROP on
  a connection that is read-only.
\<close>

definition drop_tool :: tool_config where
  "drop_tool = no_tool\<lparr>ct_sql := Some ''DROP TABLE t''\<rparr>"

theorem tested_tool_is_executed:
  "sys_world (sh_cm (snd (run_template sample_shell_env sample_config drop_tool ''DROP TABLE t'' [] (sample_shell [] ''A'')))) =
     [''DROP TABLE t'']"
  "sum.isl (single_guards sample_env drop_tool [])"
  by code_simp+

text \<open>A tool whose name starts with \<open>custom_\<close> cannot be tested: the prefix of its own name is cut.\<close>

theorem prefixed_tool_not_found: "strip_custom ''custom_x'' = ''x''"
  by code_simp

text \<open>
  A transfer that breaks off leaves a partial file behind; it is later listed as installed,
  without the marker, and is not downloaded again.
\<close>

definition broken_drivers :: driver_env where
  "broken_drivers = sample_drivers\<lparr>dn_curl := (\<lambda>dest url f. (Inl (JsError ''curl: (18)''), f(dest \<mapsto> ''a'')))\<rparr>"

theorem partial_download_installed:
  "driver_status broken_drivers (run_command broken_drivers (InstallCommand ''h2'') sample_files) ''driver-h2'' = ''installed''"
  by code_simp

text \<open>A pre-release of a newer version counts as equal to the current one.\<close>

theorem prerelease_counts_as_equal: "compare_versions ''1.2.4-rc.1'' ''1.2.3'' = 0"
  by code_simp

text \<open>
  On Windows the build from source writes a file without the suffix that the script then
  makes executable, so that no version is recorded although the build succeeded.
\<close>

definition windows_install :: install_env where
  "windows_install = sample_install\<lparr>pi_platform := ''win32'', pi_goVersion := (\<lambda>f. (Inr (), f)),
     pi_goBuild := (\<lambda>dest f. (Inr (), f(dest \<mapsto> ''abc'')))\<rparr>"

theorem windows_build_is_lost:
  "get_installed_version windows_install (snd (build_binary windows_install Map.empty)) = None"
  by code_simp

text \<open>
  The hint manager knows \<open>explain_query\<close> by a description without the sentence about
  \<open>analyze\<close>, so the first schema that is fetched removes it.
\<close>

theorem hint_drops_analyze:
  "str_includes explain_description ''analyze=true''" "\<not> str_includes explain_base_description ''analyze=true''"
  by code_simp+

section \<open>Overlapping calls\<close>

text \<open>A backend that accepts one connection, and counts the columns of its only table by its statements.\<close>

definition race_backend :: "string list backend" where
  "race_backend = sample_backend
     \<lparr>bk_connect := (\<lambda>i d w. if w = [] then (Inr ''sqlite'', [''connect'']) else (Inl (JsError ''too many connections''), w)),
      bk_getSchema := (\<lambda>i f w. (Inr \<lparr>si_tables = map (sample_table ''t'') w\<rparr>, w))\<rparr>"

text \<open>
  Two first calls for a connection connect it twice. When the second attempt fails after the
  first one succeeded, the connection is reported as failed although it is connected, and it
  stays so, because no later call connects again.
\<close>

definition both_connecting :: "string list machine" where
  "both_connecting = serve_connect race_backend 1 sample_connection DoPing
     (serve_connect race_backend 0 sample_connection DoPing
       (begin_call 1 sample_connection DoPing (begin_call 0 sample_connection DoPing (initial_machine (initial_sys [])))))"

definition connected_once :: "string list machine" where
  "connected_once = finish_connect 0 sample_connection DoPing (Inr ''sqlite'') both_connecting"

definition connected_twice :: "string list machine" where
  "connected_twice = finish_connect 1 sample_connection DoPing (Inl (JsError ''too many connections'')) connected_once"

lemmas race_simps = machine_defs initial_machine_def initial_sys_def first_stage_def race_backend_def sample_backend_def
  sample_connection_def

lemma both_connecting_reached: "(il_step race_backend)\<^sup>*\<^sup>* (initial_machine (initial_sys [])) both_connecting"
proof -
  let ?M = "initial_machine (initial_sys [])"
  let ?A = "begin_call 0 sample_connection DoPing ?M" and ?B = "begin_call 1 sample_connection DoPing (begin_call 0 sample_connection DoPing ?M)"
  let ?C = "serve_connect race_backend 0 sample_connection DoPing ?B"
  have "il_step race_backend ?M ?A" by (rule il_begin) (simp add: race_simps)
  moreover have "il_step race_backend ?A ?B" by (rule il_begin) (simp add: race_simps)
  moreover have "il_step race_backend ?B ?C" by (rule il_serve_connect) (simp add: race_simps)
  moreover have "il_step race_backend ?C both_connecting"
    unfolding both_connecting_def by (rule il_serve_connect) (simp add: race_simps)
  ultimately show ?thesis by (meson rtranclp.rtrancl_into_rtrancl rtranclp.rtrancl_refl)
qed

lemma connected_once_reached: "(il_step race_backend)\<^sup>*\<^sup>* (initial_machine (initial_sys [])) connected_once"
proof -
  have "il_step race_backend both_connecting connected_once"
    unfolding connected_once_def by (rule il_connected) (simp add: race_simps both_connecting_def)
  then show ?thesis using both_connecting_reached by (meson rtranclp.rtrancl_into_rtrancl)
qed

lemma connected_twice_reached: "(il_step race_backend)\<^sup>*\<^sup>* (initial_machine (initial_sys [])) connected_twice"
proof -
  have "il_step race_backend connected_once connected_twice"
    unfolding connected_twice_def by (rule il_connected) (simp add: race_simps both_connecting_def connected_once_def)
  then show ?thesis using connected_once_reached by (meson rtranclp.rtrancl_into_rtrancl)
qed

theorem concurrent_connects_disagree:
  "\<exists>M. (il_step race_backend)\<^sup>*\<^sup>* (initial_machine (initial_sys [])) M \<and>
     ''db'' \<in> cm_connectedIds (mc_sys M) \<and> get_status (mc_sys M) ''db'' = Errored"
  by (intro exI [of _ connected_twice] conjI connected_twice_reached)
    (simp_all add: connected_twice_def connected_once_def both_connecting_def race_simps get_status_def)

text \<open>
  A schema that the backend reported before a statement is cached after the statement has
  invalidated the cache, if the answer is delivered only then.
\<close>

definition connected_start :: "string list machine" where
  "connected_start = initial_machine ((initial_sys [])\<lparr>cm_connectedIds := {''db''}, cm_driverMap := [''db'' \<mapsto> ''sqlite'']\<rparr>)"

definition fetching :: "string list machine" where
  "fetching = serve_call race_backend 0 sample_connection (DoSchema False None)
     (proceed_call 0 sample_connection (DoSchema False None)
       (begin_call 0 sample_connection (DoSchema False None) connected_start))"

definition altered :: "string list machine" where
  "altered = invalidate_machine ''db''
     (finish_call 1 sample_connection (DoExecute ''ALTER TABLE t'' None None)
       (Inr (RowsReply (sample_result\<lparr>qr_rows := take 3 sample_rows\<rparr>)))
       (serve_call race_backend 1 sample_connection (DoExecute ''ALTER TABLE t'' None None)
         (proceed_call 1 sample_connection (DoExecute ''ALTER TABLE t'' None None)
           (begin_call 1 sample_connection (DoExecute ''ALTER TABLE t'' None None) fetching))))"

definition late_schema :: "string list machine" where
  "late_schema = finish_call 0 sample_connection (DoSchema False None) (Inr (SchemaReply \<lparr>si_tables = []\<rparr>)) altered"

lemmas fetch_simps = race_simps connected_start_def fetching_def altered_def late_schema_def next_stage_def as_reply_def
  invalidate_schema_cache_def notify_schema_def run_simps

lemma fetching_reached: "(il_step race_backend)\<^sup>*\<^sup>* connected_start fetching"
proof -
  let ?A = "begin_call 0 sample_connection (DoSchema False None) connected_start"
  let ?B = "proceed_call 0 sample_connection (DoSchema False None) ?A"
  have "il_step race_backend connected_start ?A" by (rule il_begin) (simp add: fetch_simps)
  moreover have "il_step race_backend ?A ?B" by (rule il_proceed) (simp add: fetch_simps)
  moreover have "il_step race_backend ?B fetching" unfolding fetching_def by (rule il_serve) (simp add: fetch_simps)
  ultimately show ?thesis by (meson rtranclp.rtrancl_into_rtrancl rtranclp.rtrancl_refl)
qed

lemma altered_reached: "(il_step race_backend)\<^sup>*\<^sup>* connected_start altered"
proof -
  let ?m = "DoExecute ''ALTER TABLE t'' None None"
  let ?A = "begin_call 1 sample_connection ?m fetching"
  let ?B = "proceed_call 1 sample_connection ?m ?A"
  let ?C = "serve_call race_backend 1 sample_connection ?m ?B"
  let ?D = "finish_call 1 sample_connection ?m (Inr (RowsReply (sample_result\<lparr>qr_rows := take 3 sample_rows\<rparr>))) ?C"
  have "il_step race_backend fetching ?A" by (rule il_begin) (simp add: fetch_simps)
  moreover have "il_step race_backend ?A ?B" by (rule il_proceed) (simp add: fetch_simps)
  moreover have "il_step race_backend ?B ?C" by (rule il_serve) (simp add: fetch_simps)
  moreover have "il_step race_backend ?C ?D" by (rule il_deliver) (simp add: fetch_simps)
  moreover have "il_step race_backend ?D altered" unfolding altered_def by (rule il_invalidate)
  ultimately show ?thesis using fetching_reached by (meson rtranclp.rtrancl_into_rtrancl)
qed

theorem stale_schema_cached:
  "cm_schemaCache (mc_sys altered) ''db'' = None"
  "mc_tasks altered 0 = Awaiting sample_connection (DoSchema False None) (Some (Inr (SchemaReply \<lparr>si_tables = []\<rparr>)))"
  "il_step race_backend altered late_schema"
  "cm_schemaCache (mc_sys late_schema) ''db'' = Some \<lparr>si_tables = []\<rparr>"
  "fst (bk_getSchema race_backend ''db'' None (sys_world (mc_sys late_schema))) = Inr \<lparr>si_tables = [sample_table ''t'' ''ALTER TABLE t'']\<rparr>"
proof -
  show task: "mc_tasks altered 0 = Awaiting sample_connection (DoSchema False None) (Some (Inr (SchemaReply \<lparr>si_tables = []\<rparr>)))"
    by (simp add: fetch_simps)
  show "il_step race_backend altered late_schema" unfolding late_schema_def using task by (rule il_deliver)
qed (simp_all add: fetch_simps)

text \<open>Without the statement, the schema that is cached is the one that was fetched.\<close>

definition fetched :: "string list machine" where
  "fetched = finish_call 0 sample_connection (DoSchema False None) (Inr (SchemaReply \<lparr>si_tables = []\<rparr>)) fetching"

lemma fetched_reached: "(il_step race_backend)\<^sup>*\<^sup>* (invalidate_machine ''db'' connected_start) fetched"
proof -
  have "invalidate_machine ''db'' connected_start = connected_start" by (simp add: fetch_simps)
  moreover have "il_step race_backend fetching fetched" unfolding fetched_def by (rule il_deliver) (simp add: fetch_simps)
  ultimately show ?thesis using fetching_reached by (simp add: rtranclp.rtrancl_into_rtrancl)
qed

lemma fetched_schema: "cm_schemaCache (mc_sys fetched) ''db'' = Some \<lparr>si_tables = []\<rparr>"
  by (simp add: fetched_def fetch_simps)

section \<open>Defaults, and a missing package manager\<close>

text \<open>
  The validation does not compare a default with the type of its parameter: a default that is
  no number makes every call fail that leaves the number out, and \<open>null\<close> as the default of a
  text is sent as the text \<open>null\<close>.
\<close>

definition odd_default :: "jsval \<Rightarrow> param_type \<Rightarrow> tool_parameter" where
  "odd_default v t = \<lparr>tp_type = t, tp_description = ''p'', tp_required = Some False, tp_default = v, tp_values = None\<rparr>"

theorem default_not_checked:
  "check_parameter ''t'' (''p'', odd_default (JStr ''all'') PNumber) = Inr ()"
  "sum.isl (coerce_parameter ''p'' (arg_value [] ''p'' (odd_default (JStr ''all'') PNumber)) (odd_default (JStr ''all'') PNumber))"
  "check_parameter ''t'' (''p'', odd_default JNull PString) = Inr ()"
  "coerce_parameter ''p'' (arg_value [] ''p'' (odd_default JNull PString)) (odd_default JNull PString) = Inr (JStr ''null'')"
  by code_simp+

text \<open>When the prefix of the package manager cannot be found out, every installation counts as global.\<close>

theorem unknown_prefix_is_global:
  "detect_install_method ''/home/u/app/node_modules/.bin/omnibase-mcp'' (npm_prefix (Inl (JsError ''npm: not found''))) = GlobalInstall"
  by code_simp

text \<open>When the request to the registry fails, the packed tarball stays behind.\<close>

definition offline_publish :: publish_env where
  "offline_publish =
     \<lparr>pb_token = Some ''t'', pb_cwd = ''/p'', pb_pack = (\<lambda>f. (Inr (json (JArr [JObj [(''filename'', JStr ''x.tgz'')]])), f(''/p/x.tgz'' \<mapsto> ''abc''))),
      pb_sha1 = (\<lambda>c. c), pb_sha512 = (\<lambda>c. c), pb_put = (\<lambda>r f. (Inr (RegistryError (JsError ''offline'')), f))\<rparr>"

theorem tarball_stays_behind:
  "case publish offline_publish [''/p/package.json'' \<mapsto> json (JObj [(''name'', JStr ''x'')])] of
     (r, f) \<Rightarrow> r = Ret 1 \<and> f ''/p/x.tgz'' = Some ''abc''"
  by code_simp

section \<open>A tool with a parameter\<close>

definition keyed_tool :: tool_config where
  "keyed_tool = no_tool\<lparr>ct_sql := Some ''SELECT {id}'', ct_parameters := Some sample_params\<rparr>"

definition keyed_registration :: registration where
  "keyed_registration =
     \<lparr>rg_description = or_else (ct_description keyed_tool) [], rg_schema = build_zod_schema (Some sample_params),
      rg_name = ''t'', rg_tool = keyed_tool\<rparr>"

lemma keyed_registered:
  "obj_get (register_custom_tools (sample_config\<lparr>oc_tools := Some [(''t'', keyed_tool)]\<rparr>)) ''custom_t'' = Some keyed_registration"
  by (simp add: register_custom_tools_def keyed_registration_def keyed_tool_def)

end
