(* ===== verification/Spec2Isabelle.thy ===== *)
theory Spec2Isabelle
  imports Gaps
begin

text \<open>
  Verification of the OmniBase server: an MCP server (TypeScript, under \<open>src/src\<close>) that
  gives language-model clients access to SQL databases through a sidecar process, with
  permission levels per connection, content rules on SQL, custom tools read from a YAML
  file, and an audit log.

  \<^bold>\<open>How the program works.\<close> \<open>config.ts\<close> loads the connections and the custom tools.
  A client calls a tool: a built-in one (\<open>tools/*.ts\<close>) or a custom one
  (\<open>custom-tools.ts\<close>). The handler looks the connection up, checks what is asked
  (\<open>query-analyzer.ts\<close>, \<open>permission-enforcer.ts\<close>, \<open>checkSqlSecurity\<close>), sends statements
  through the connection manager (\<open>connection-manager.ts\<close>) to the backend
  (\<open>sidecar-client.ts\<close>), formats the answer (\<open>output-formatter.ts\<close>) and writes an audit
  entry (\<open>audit-logger.ts\<close>). Custom tools are one statement, several statements in a
  transaction under a lock, or a pipeline of statements and other tools.

  \<^bold>\<open>Theories, bottom up.\<close>
  \<^item> \<open>Prelude\<close>: thrown errors as sums, the state effect with its three outcomes, objects as
    association lists, the contracts \<open>invariant_machine\<close> and \<open>guarded_handler\<close>.
  \<^item> \<open>JsString\<close>, \<open>JsRegex\<close>, \<open>JsValue\<close>: the string operations, the regular expressions and
    the dynamic values of the language, as far as the program uses them.
  \<^item> \<open>Domain\<close> (\<open>types.ts\<close>), \<open>Permissions\<close> (\<open>permission-enforcer.ts\<close>), \<open>ConfigLoader\<close>
    (\<open>config.ts\<close>), \<open>QueryAnalyzer\<close> (\<open>query-analyzer.ts\<close>), \<open>SqlSecurity\<close> and \<open>ExecuteSql\<close>
    (\<open>tools/execute-sql.ts\<close>), \<open>OutputFormatter\<close> (\<open>output-formatter.ts\<close>),
    \<open>ConnectionManager\<close> and \<open>TransactionLock\<close> (\<open>connection-manager.ts\<close>).
  \<^item> \<open>ToolTemplates\<close>, \<open>CustomToolConfig\<close>, \<open>CustomToolExec\<close> (\<open>custom-tools.ts\<close>: parameters
    and substitution; validation; execution) and \<open>ComposeExpander\<close> (\<open>compose-expander.ts\<close>).
  \<^item> \<open>ComposeGraph\<close>, \<open>ToolValidation\<close>: what the validation accepts. \<open>ToolExecution\<close>,
    \<open>StepsTools\<close>, \<open>ComposedTools\<close>, \<open>ToolCalls\<close>: what the execution of custom tools sends,
    and when it ends.
  \<^item> \<open>JsNumber\<close>, \<open>NumberText\<close>, \<open>Json\<close>: arithmetic and comparison of numbers, their text, and
    JSON with its parser and the round trip.
  \<^item> \<open>SqlDialect\<close> (\<open>sql-dialect.ts\<close>), \<open>TableTools\<close> (the ten schema and table tools of
    \<open>tools/\<close>), \<open>ExplainTool\<close> (\<open>tools/explain-query.ts\<close>), \<open>ValidateTool\<close>
    (\<open>tools/validate-query.ts\<close>); \<open>TableLookup\<close> and \<open>QueryValidation\<close> hold their lemmas.
  \<^item> \<open>AuditLogger\<close> (\<open>audit-logger.ts\<close>) and its lemmas in \<open>AuditTrail\<close>; \<open>AuditRaces\<close>
    its calls overlapping, which lose lines; \<open>SidecarClient\<close>
    (\<open>sidecar-client.ts\<close>); \<open>Server\<close> (\<open>index.ts\<close>): what each registered tool runs, and the
    server as a state machine.
  \<^item> \<open>SchemaHints\<close> (\<open>schema-hint-manager.ts\<close>): the text that tool descriptions carry, and its
    length. \<open>ConfigWatcher\<close> (\<open>config-watcher.ts\<close> and its callbacks in \<open>index.ts\<close>): reloading
    while serving.
  \<^item> \<open>Startup\<close> (\<open>index.ts\<close>): the choice of a command, the start of the server, its shutdown.
    \<open>ToolRegistry\<close> (\<open>index.ts\<close>): the descriptions and argument schemas of the tools, and how a
    handler takes its arguments apart.
  \<^item> \<open>Interleaving\<close> (\<open>connection-manager.ts\<close>): its methods cut at every \<open>await\<close>, overlapping in
    any order; what \<open>ConnectionManager\<close> proves for methods that run to completion holds there in
    part.
  \<^item> The command line: \<open>Versions\<close> and \<open>UpdateCache\<close> (\<open>update-checker.ts\<close>), \<open>Upgrade\<close> (\<open>cli/upgrade.ts\<close>),
    \<open>DriverFiles\<close> (\<open>cli/drivers.ts\<close>) with its lemmas in \<open>DriverTrust\<close>, \<open>Postinstall\<close>
    (\<open>scripts/postinstall.js\<close>), \<open>Network\<close> (their requests), \<open>ToolCommands\<close> (\<open>cli/tools.ts\<close>), \<open>CommandLine\<close>
    (\<open>cli/status.ts\<close>, \<open>cli/audit.ts\<close>), \<open>AuditTail\<close> (following the log) and \<open>Publish\<close>
    (\<open>scripts/publish.js\<close>). Prompts read the list of what the user enters; files
    are a map from paths to contents; external programs are parameters.
  \<^item> \<open>Samples\<close>, \<open>CliSamples\<close>: concrete inputs for the witnesses. \<open>Gaps\<close>: inputs on which the rules let
    through what the documentation says they refuse.

  \<^bold>\<open>Correspondence.\<close> An interface of the code is a record, a string union a datatype, a
  thrown error the left of a sum (\<open>OmnibaseError\<close> with its code, or \<open>JsError\<close>). An async
  method is a function from a state to an outcome and the new state; the outcome
  \<open>Hang\<close> stands for a promise that never settles. The state of the server (\<open>'w sys\<close>) has
  the fields of the connection manager, the entries handed to the audit logger, and the
  world \<open>'w\<close> behind the backend. The backend, the SQL parser, the YAML parser, the file
  system, the clock and the network are parameters: functions that return or fail, of which
  nothing is assumed but what a property names.

  \<^bold>\<open>What the lemmas show.\<close> Contracts: \<open>guarded_handler\<close> is interpreted for \<open>execute_sql\<close> and
  for tool calls (a refused request changes nothing behind the backend);
  \<open>invariant_machine\<close> for the connection manager, the lock, the sidecar client, the watcher and
  the server with and without reloading. Refinement: the
  executable checks (regular expressions, content rules, validation, cycle search) are
  proved equal to declarative specifications. The properties C1 to C40 below are stated
  over these definitions; each one with hypotheses is applied to a concrete input by the
  lemma that follows it.

  \<^bold>\<open>Bounds.\<close> The depth-first search runs with as much fuel as there are tools plus one: the
  path of open nodes never repeats one. A pipeline runs with two more than the number of
  tools: nesting follows the acyclic reference relation. A regular-expression star runs with
  the number of characters left: each round consumes one.
  The JSON parser runs with twice the length of its input plus two: each nested
  call consumes a character or is followed by one that does.

  \<^bold>\<open>Not modelled.\<close> Characters outside Latin-1 and case mapping of non-ASCII letters.
  Floating-point rounding: numbers are exact decimals, and counts, limits and clocks are
  integers. Interleaving of whole tool calls: the methods of the
  connection manager overlap, those of the audit logger, and the callers of the transaction lock, but a handler runs to its end.
  Console output and usage texts, and the MCP package with its transport.
  HTTP beyond status, location and body. The pings of \<open>status\<close> run one after another here.
\<close>

section \<open>What reaches the database\<close>

text \<open>
  C1: execute_sql touches the world behind the backend only for a query that passed every
  guard: the connection is known, the query is not blank and not several statements, the
  content rules accept it, its category is allowed by the permission of the connection,
  and it writes to no read-only table.
\<close>

theorem execute_sql_guarded:
  assumes "sys_world (snd (handle_execute_sql astify bk config auditLogger args s)) \<noteq> sys_world s"
  shows "\<exists>conn. get_connection config (Some (xa_connection args)) = Inr conn \<and>
     trim (xa_query args) \<noteq> [] \<and> \<not> is_multi_statement astify (xa_query args) \<and>
     check_sql_security (xa_query args) (cc_allowAllPragmas conn) = Inr () \<and>
     classify_query astify (xa_query args) \<in> permission_hierarchy (cc_permission conn) \<and>
     check_read_only_tables (xa_query args) (classify_query astify (xa_query args)) (cc_readOnlyTables conn) = Inr ()"
  using xs.world_change_admitted [OF assms] by (auto simp: execute_admits_def execute_guards_Inr)

definition sample_request :: execute_args where
  "sample_request = \<lparr>xa_connection = ''db'', xa_query = ''SELECT 1'', xa_params = None,
     xa_limit = Some 2, xa_offset = Some 3\<rparr>"

lemma sample_request_runs:
  "sys_world (snd (handle_execute_sql no_parser sample_backend sample_config True sample_request (initial_sys [])))
     = [''SELECT 1'']"
  by (simp add: handle_execute_sql_def execute_body_def sample_request_def sample_lookup run_simps
      sample_execute_guards invalidate_on_change_def cm_execute_def ensure_connected_run initial_sys_def
      sample_backend_def execute_log_def audit_log_def Let_def sample_connection_simps effective_limit_def)

lemma execute_sql_guarded_witness:
  "\<exists>conn. get_connection sample_config (Some (xa_connection sample_request)) = Inr conn \<and>
     trim (xa_query sample_request) \<noteq> [] \<and> \<not> is_multi_statement no_parser (xa_query sample_request) \<and>
     check_sql_security (xa_query sample_request) (cc_allowAllPragmas conn) = Inr () \<and>
     classify_query no_parser (xa_query sample_request) \<in> permission_hierarchy (cc_permission conn) \<and>
     check_read_only_tables (xa_query sample_request) (classify_query no_parser (xa_query sample_request))
       (cc_readOnlyTables conn) = Inr ()"
  by (rule execute_sql_guarded [of no_parser sample_backend sample_config True sample_request "initial_sys []"])
    (simp add: sample_request_runs, simp add: initial_sys_def)





text \<open>
  C4: a custom tool with a single statement or with steps is checked as a whole before
  anything happens: if the world changed, every guard of the tool accepted the call.
\<close>

theorem custom_tool_checked_first:
  assumes "sys_world (snd (execute_custom_tool n env name tool args s)) \<noteq> sys_world s"
  shows "is_composed tool \<or>
     (ct_steps tool \<noteq> None \<and> (\<exists>conn sub. steps_guards env tool args = Inr (conn, sub))) \<or>
     (ct_steps tool = None \<and> (\<exists>conn sql vs category. single_guards env tool args = Inr (conn, sql, vs, category)))"
  using tc.world_change_admitted [of n env "\<lparr>tc_name = name, tc_tool = tool, tc_args = args\<rparr>" s] assms
  by (auto simp: handle_tool_call_def tool_admits_def split: if_splits)

lemma sample_single_runs:
  "sys_world (snd (execute_custom_tool 5 sample_env ''one'' single_tool [] (initial_sys []))) = [''SELECT 1'']"
  using sample_read
  by (simp add: execute_custom_tool_def execute_single_tool_def single_guards_def statement_guards_def
      single_tool_def no_tool_def is_composed_def sample_env_def sample_lookup sample_substitution sample_not_multi
      sample_security sample_category Let_def enforce_permission_def run_simps sample_connection_simps
      invalidate_on_change_def tool_execute_def cm_execute_def ensure_connected_run initial_sys_def sample_backend_def
      tool_log_def audit_log_def tool_options_def)

lemma custom_tool_checked_first_witness:
  "is_composed single_tool \<or>
     (ct_steps single_tool \<noteq> None \<and> (\<exists>conn sub. steps_guards sample_env single_tool [] = Inr (conn, sub))) \<or>
     (ct_steps single_tool = None \<and>
       (\<exists>conn sql vs category. single_guards sample_env single_tool [] = Inr (conn, sql, vs, category)))"
  by (rule custom_tool_checked_first [of 5 sample_env "''one''" single_tool "[]" "initial_sys []"])
    (subst sample_single_runs, simp add: initial_sys_def)



section \<open>Steps in a transaction\<close>

text \<open>
  C6: a steps tool whose BEGIN succeeds either sends all its statements and COMMIT, and
  returns, or it sends some first statements (at least one, COMMIT counted as the last)
  and ROLLBACK, and throws. In both cases the temporary tables of the statements that
  succeeded are then dropped, nothing else is sent, and the lock is free again.
\<close>

theorem steps_tool_transaction:
  assumes "records (te_backend env) tr"
    and "steps_guards env tool args = Inr (conn, sub)" and "sub \<noteq> []"
    and "cc_name conn \<notin> cm_transactionLocks s"
    and "tool_execute env conn tool ''BEGIN'' [] (lock_taken (cc_name conn) s) = (Ret b, s1)"
    and "execute_steps_raw env tool args s = (r, s')"
  shows "cm_transactionLocks s' = cm_transactionLocks s \<and>
     ((\<exists>res. r = Ret res) \<and> tr (sys_world s') = tr (sys_world s) @ ''BEGIN'' # committed_log (map fst sub) \<or>
      (\<exists>e k. r = Throw e \<and> k \<le> length sub \<and>
         tr (sys_world s') = tr (sys_world s) @ ''BEGIN'' # rolled_back_log (map fst sub) k))"
  using assms by (intro steps_raw_transaction)

lemma sample_begin:
  "\<exists>b s1. tool_execute sample_env sample_connection steps_tool ''BEGIN'' [] (lock_taken ''db'' (initial_sys [])) = (Ret b, s1)"
  by (simp add: tool_execute_def cm_execute_def ensure_connected_run run_simps lock_taken_def initial_sys_def
      sample_env_def sample_backend_def sample_connection_simps)

lemma steps_tool_transaction_witness:
  "\<exists>r s'. execute_steps_raw sample_env steps_tool [] (initial_sys []) = (r, s') \<and> cm_transactionLocks s' = {} \<and>
     ((\<exists>res. r = Ret res) \<and> sys_world s' = ''BEGIN'' # committed_log [''SELECT 1''] \<or>
      (\<exists>e k. r = Throw e \<and> k \<le> 1 \<and> sys_world s' = ''BEGIN'' # rolled_back_log [''SELECT 1''] k))"
proof -
  obtain r s' where run: "execute_steps_raw sample_env steps_tool [] (initial_sys []) = (r, s')" by fastforce
  obtain b s1 where begun: "tool_execute sample_env sample_connection steps_tool ''BEGIN'' []
      (lock_taken (cc_name sample_connection) (initial_sys [])) = (Ret b, s1)"
    using sample_begin by (auto simp: sample_connection_simps)
  have "records (te_backend sample_env) id" using sample_records by (simp add: sample_env_def)
  from steps_tool_transaction [OF this sample_steps_guards _ _ begun run]
  show ?thesis using run by (simp add: initial_sys_def)
qed

text \<open>
  C7: when BEGIN fails, the call throws but the transaction lock of the connection is
  never released, so that every later call of a steps tool on that connection waits
  forever.
\<close>

theorem begin_failure_keeps_lock:
  assumes "steps_guards env tool args = Inr (conn, sub)"
    and "cc_name conn \<notin> cm_transactionLocks s"
    and "tool_execute env conn tool ''BEGIN'' [] (lock_taken (cc_name conn) s) = (Throw e, s1)"
    and "steps_guards env tool' args' = Inr (conn', sub')" and "cc_name conn' = cc_name conn"
  shows "execute_steps_raw env tool args s = (Throw e, s1) \<and>
     execute_steps_raw env tool' args' s1 = (Hang, s1)"
proof -
  note failed = steps_raw_begin_fails [OF assms(1-3)]
  then have "cc_name conn' \<in> cm_transactionLocks s1" using assms(5) by simp
  from steps_raw_locked [OF assms(4) this] failed show ?thesis by simp
qed

definition failing_env :: "string list tool_env" where
  "failing_env = sample_env\<lparr>te_backend := failing_backend\<rparr>"

lemma failing_guards: "steps_guards failing_env steps_tool [] = Inr (sample_connection, [(''SELECT 1'', [])])"
  using sample_steps_guards by (simp add: steps_guards_def failing_env_def)

lemma begin_failure_keeps_lock_witness:
  "\<exists>e s1. execute_steps_raw failing_env steps_tool [] (initial_sys []) = (Throw e, s1) \<and>
     execute_steps_raw failing_env steps_tool [] s1 = (Hang, s1)"
proof -
  have "\<exists>e s1. tool_execute failing_env sample_connection steps_tool ''BEGIN'' []
      (lock_taken (cc_name sample_connection) (initial_sys [])) = (Throw e, s1)"
    by (simp add: tool_execute_def cm_execute_def ensure_connected_run run_simps lock_taken_def initial_sys_def
        failing_env_def failing_backend_def sample_backend_def sample_connection_simps)
  then obtain e s1 where failed: "tool_execute failing_env sample_connection steps_tool ''BEGIN'' []
      (lock_taken (cc_name sample_connection) (initial_sys [])) = (Throw e, s1)" by blast
  have "cc_name sample_connection \<notin> cm_transactionLocks (initial_sys ([] :: string list))"
    by (simp add: initial_sys_def)
  from begin_failure_keeps_lock [OF failing_guards this failed failing_guards refl] show ?thesis by blast
qed

section \<open>Pipelines end\<close>

text \<open>
  C8: under a configuration that the validation accepts, every call of a custom tool made
  while no transaction lock is held returns or throws, however deep the pipelines nest,
  and if it returns no lock is left behind. Fuel of two more than the number of tools is
  enough.
\<close>

theorem custom_tool_terminates:
  assumes "validate_custom_tools (te_config env) = Some (Inr ())"
    and "length (config_tools (te_config env)) + 2 \<le> n"
    and "cm_transactionLocks s = {}"
  shows "(\<exists>res s'. execute_custom_tool n env name tool args s = (Ret res, s') \<and> cm_transactionLocks s' = {}) \<or>
     (\<exists>e s'. execute_custom_tool n env name tool args s = (Throw e, s'))"
proof -
  have ok: "tools_ok (te_config env)" using assms(1) by (simp add: validate_custom_tools_accepts)
  then have "acyclic (refers_to (compose_edges (te_config env)))" by (simp add: tools_ok_def)
  then have neutral: "lock_neutral (execute_custom_tool n env name tool args)"
    using enough_fuel_tools [OF ok assms(2)] by (rule lock_neutral_custom_tool)
  obtain r s' where run: "execute_custom_tool n env name tool args s = (r, s')" by fastforce
  from lock_neutral_run [OF neutral assms(3) run] show ?thesis using run by (cases r) auto
qed

lemma custom_tool_terminates_witness:
  "(\<exists>res s'. execute_custom_tool 5 sample_env ''pipe'' pipe_tool [] (initial_sys []) = (Ret res, s') \<and>
      cm_transactionLocks s' = {}) \<or>
   (\<exists>e s'. execute_custom_tool 5 sample_env ''pipe'' pipe_tool [] (initial_sys []) = (Throw e, s'))"
proof (rule custom_tool_terminates)
  show "validate_custom_tools (te_config sample_env) = Some (Inr ())"
    using sample_tools_ok by (simp add: sample_env_def)
  show "length (config_tools (te_config sample_env)) + 2 \<le> 5" by (simp add: sample_env_def sample_config_def)
  show "cm_transactionLocks (initial_sys ([] :: string list)) = {}" by (simp add: initial_sys_def)
qed

text \<open>
  C9: the validation of the custom tools always answers, and it accepts exactly the
  configurations in which every tool is well formed (name, description, connection, one
  body, steps, pipeline, placeholders, parameters) and no pipeline refers to itself,
  directly or through others.
\<close>

theorem validation_accepts_exactly:
  "(\<exists>r. validate_custom_tools config = Some r) \<and>
   (validate_custom_tools config = Some (Inr ()) \<longleftrightarrow>
      list_all (tool_ok config) (config_tools config) \<and> acyclic (refers_to (compose_edges config)))"
  using validate_custom_tools_total [of config] validate_custom_tools_accepts [of config]
  by (auto simp: tools_ok_def list_all_iff)

text \<open>
  C10: a rejection has the code INVALID_TOOL_CONFIG and names a configured tool, or it
  reports a chain of references that really exists and ends where it starts.
\<close>

theorem validation_rejects_with_reason:
  assumes "validate_custom_tools config = Some (Inl e)"
  shows "(\<exists>name \<in> set (obj_keys (config_tools config)). \<exists>msg. e = invalid_tool name msg) \<or>
     (\<exists>c. is_cycle (compose_edges config) c \<and> e = cycle_error c)"
  using validate_custom_tools_error [OF assms] by (simp add: is_invalid_tool_def)

lemma validation_rejects_with_reason_witness:
  "(\<exists>name \<in> set (obj_keys (config_tools loop_config)).
      \<exists>msg. cycle_error [''f'', ''g'', ''f''] = invalid_tool name msg) \<or>
   (\<exists>c. is_cycle (compose_edges loop_config) c \<and> cycle_error [''f'', ''g'', ''f''] = cycle_error c)"
  by (rule validation_rejects_with_reason [OF loop_rejected])

section \<open>Connections and locks\<close>

text \<open>
  C11: in every interleaving of tasks that take and release the transaction lock of a
  connection, at most one task holds it.
\<close>

theorem lock_mutual_exclusion:
  assumes "lock_step\<^sup>*\<^sup>* lock_start s" and "lk_tasks s p = Holding c t" and "p \<noteq> q"
  shows "lk_tasks s q \<noteq> Holding c u"
  using lock_exclusive [OF lk.inv_reachable [OF refl assms(1)] assms(2), of q u] assms(3) by blast

lemma sample_interleaving:
  "lock_step\<^sup>*\<^sup>* lock_start (try_acquire 1 ''db'' (try_acquire 0 ''db'' lock_start))"
proof -
  have "lock_step lock_start (try_acquire 0 ''db'' lock_start)"
    by (rule lock_request) (simp add: lock_start_def)
  moreover have "lock_step (try_acquire 0 ''db'' lock_start) (try_acquire 1 ''db'' (try_acquire 0 ''db'' lock_start))"
    by (rule lock_request) (simp add: lock_start_def try_acquire_def)
  ultimately show ?thesis by (meson converse_rtranclp_into_rtranclp r_into_rtranclp)
qed

lemma lock_mutual_exclusion_witness:
  "lk_tasks (try_acquire 1 ''db'' (try_acquire 0 ''db'' lock_start)) 1 \<noteq> Holding ''db'' 0"
  by (rule lock_mutual_exclusion [OF sample_interleaving, of 0 "''db''" 0])
    (simp_all add: lock_start_def try_acquire_def)



text \<open>
  C13: after any sequence of requests, custom tool calls, disconnections and sidecar
  crashes, a connection is reported as connected exactly when the manager will not
  reconnect it; its driver is then known, and a schema is cached only for a connection
  whose driver is known.
\<close>

theorem server_state_consistent:
  assumes "(server_step bk)\<^sup>*\<^sup>* (initial_sys w) s"
  shows "(get_status s n = Connected \<longleftrightarrow> n \<in> cm_connectedIds s) \<and>
     cm_connectedIds s \<subseteq> dom (cm_driverMap s) \<and> dom (cm_schemaCache s) \<subseteq> dom (cm_driverMap s)"
proof -
  have "cm_inv s" by (rule sv.inv_reachable [OF _ assms]) blast
  then show ?thesis by (auto simp: cm_inv_def get_status_def split: option.splits)
qed

lemma server_state_consistent_witness:
  "let s = snd (cm_execute sample_backend sample_connection ''SELECT 1'' None None (initial_sys [])) in
     (get_status s ''db'' = Connected \<longleftrightarrow> ''db'' \<in> cm_connectedIds s) \<and>
     cm_connectedIds s \<subseteq> dom (cm_driverMap s) \<and> dom (cm_schemaCache s) \<subseteq> dom (cm_driverMap s)"
  unfolding Let_def
  by (rule server_state_consistent [of sample_backend "[]"])
    (rule r_into_rtranclp, rule server_manager, rule step_execute)

text \<open>
  C14: when execute_sql admits a statement that is not a read, no schema of that connection
  is cached afterwards, whether the statement succeeds or fails.
\<close>

theorem write_clears_schema_cache:
  assumes "get_connection config (Some (xa_connection args)) = Inr conn"
    and "execute_guards astify conn (xa_query args) = Inr category" and "category \<noteq> Read"
  shows "cm_schemaCache (snd (handle_execute_sql astify bk config auditLogger args s)) (cc_name conn) = None"
  by (rule execute_clears_cache [OF assms])

definition admin_connection :: connection_config where
  "admin_connection = sample_connection\<lparr>cc_permission := Admin\<rparr>"

definition admin_config :: omnibase_config where
  "admin_config = sample_config\<lparr>oc_connections := [(''db'', admin_connection)]\<rparr>"

lemma admin_drop_guards: "execute_guards no_parser admin_connection ''DROP TABLE t'' = Inr Ddl"
proof -
  have "trim ''DROP TABLE t'' \<noteq> []" by code_simp
  moreover have "\<not> is_multi_statement no_parser ''DROP TABLE t''" by code_simp
  moreover have "check_sql_security ''DROP TABLE t'' (Some False) = Inr ()" by code_simp
  moreover have "classify_query no_parser ''DROP TABLE t'' = Ddl" by code_simp
  ultimately show ?thesis
    by (simp add: execute_guards_Inr admin_connection_def sample_connection_def check_read_only_tables_def)
qed

lemma write_clears_schema_cache_witness:
  "cm_schemaCache (snd (handle_execute_sql no_parser sample_backend admin_config True
      (sample_request\<lparr>xa_query := ''DROP TABLE t''\<rparr>)
      ((initial_sys [])\<lparr>cm_schemaCache := [''db'' \<mapsto> \<lparr>si_tables = []\<rparr>]\<rparr>))) (cc_name admin_connection) = None"
proof (rule write_clears_schema_cache)
  show "get_connection admin_config (Some (xa_connection (sample_request\<lparr>xa_query := ''DROP TABLE t''\<rparr>))) = Inr admin_connection"
    by (simp add: get_connection_def admin_config_def sample_request_def sample_config_def)
  show "execute_guards no_parser admin_connection (xa_query (sample_request\<lparr>xa_query := ''DROP TABLE t''\<rparr>)) = Inr Ddl"
    by (simp add: admin_drop_guards)
qed simp

text \<open>
  C15: when the methods of the connection manager overlap in any way, with crashes of the
  sidecar in between, a connection that is reported as connected is one, and the driver of
  every connection is known.
\<close>

theorem overlapping_status_sound:
  assumes "(il_step bk)\<^sup>*\<^sup>* (initial_machine (initial_sys w)) M"
  shows "(get_status (mc_sys M) n = Connected \<longrightarrow> n \<in> cm_connectedIds (mc_sys M)) \<and>
     (n \<in> cm_connectedIds (mc_sys M) \<longrightarrow> (\<exists>d. cm_driverMap (mc_sys M) n = Some d))"
  using il.inv_reachable [OF _ assms] by (auto simp: status_sound_def get_status_def split: option.splits)

lemma overlapping_status_sound_witness:
  "''db'' \<in> cm_connectedIds (mc_sys connected_once) \<and> (\<exists>d. cm_driverMap (mc_sys connected_once) ''db'' = Some d)"
proof -
  have "get_status (mc_sys connected_once) ''db'' = Connected"
    by (simp add: connected_once_def both_connecting_def race_simps get_status_def)
  then show ?thesis using overlapping_status_sound [OF connected_once_reached, of "''db''"] by simp
qed

text \<open>
  C16: when the schema of a connection is invalidated while no schema of it is on its way from
  the backend, every schema that is cached for it later, however the calls overlap, was
  reported by the backend after that.
\<close>

theorem invalidated_schema_stays_away:
  assumes "\<And>p schema. carries (mc_tasks M p) \<noteq> Some (n, schema)"
    and "(il_step bk)\<^sup>*\<^sup>* (invalidate_machine n M) N" and "cm_schemaCache (mc_sys N) n = Some schema"
  shows "(n, schema) \<in> set (drop (length (mc_served M)) (mc_served N))"
  using fresh_after_steps [OF assms(2) fresh_after_invalidation] assms(1,3) by (simp add: fresh_after_def)

lemma invalidated_schema_stays_away_witness:
  "(''db'', \<lparr>si_tables = []\<rparr>) \<in> set (drop (length (mc_served connected_start)) (mc_served fetched))"
proof (rule invalidated_schema_stays_away)
  show "carries (mc_tasks connected_start p) \<noteq> Some (''db'', schema)" for p schema
    by (simp add: connected_start_def initial_machine_def)
  show "(il_step race_backend)\<^sup>*\<^sup>* (invalidate_machine ''db'' connected_start) fetched" by (rule fetched_reached)
  show "cm_schemaCache (mc_sys fetched) ''db'' = Some \<lparr>si_tables = []\<rparr>" by (rule fetched_schema)
qed



section \<open>Requests and answers\<close>

text \<open>
  C18: when the custom tools have been validated, every request is answered: built-in tools
  and custom tools alike return an answer or an error response, and nothing is thrown out of
  the registered handler or waits forever, provided that no steps tool holds a lock.
\<close>

theorem server_answers_every_request:
  assumes "validate_custom_tools (te_config env) = Some (Inr ())"
    and "length (config_tools (te_config env)) + 2 \<le> n" and "cm_transactionLocks s = {}"
  shows "\<exists>r s'. respond n env req s = (Ret r, s')"
  using custom_answers [OF assms] builtin_answers [of req n env s] by (cases req) blast+

lemma server_answers_every_request_witness:
  "\<exists>r s'. respond 5 sample_env (CustomTool ''custom_pipe'' []) (initial_sys []) = (Ret r, s')"
  by (rule server_answers_every_request)
    (simp_all add: sample_env_def sample_tools_ok, simp_all add: sample_config_def initial_sys_def)

text \<open>
  C19: once the server has started, whatever the order of edits of the configuration file,
  reloads, requests, connection events and crashes: the active configuration is one that was
  validated, the registered custom tools are exactly its tools, no reload is scheduled without
  a running watcher, and every request is answered when no steps tool holds a lock.
\<close>

theorem active_configuration_valid:
  assumes "start_server configPath loaded sidecar v = Serving run"
    and "(live_step bk (rn_config run))\<^sup>*\<^sup>* (rn_watcher run, rn_sys run) (w, s)"
  shows "validate_custom_tools (cw_active w) = Some (Inr ()) \<and>
     cw_tools w = register_custom_tools (cw_active w) \<and> (cw_timer w \<longrightarrow> cw_watching w) \<and>
     (te_config env = serving_config (rn_config run) w req \<longrightarrow>
      length (config_tools (cw_active w)) + 2 \<le> n \<longrightarrow> cm_transactionLocks s = {} \<longrightarrow>
      (\<exists>r s'. respond n env req s = (Ret r, s')))"
proof -
  have "live_inv (rn_watcher run, rn_sys run)" using start_server_live [OF assms(1)] by blast
  from lv.inv_steps [OF assms(2) this] have live: "live_inv (w, s)" .
  then show ?thesis
    using live_request_answered [OF live, of env "rn_config run" req n]
    by (auto simp: live_inv_def watch_inv_def valid_config_def)
qed

text \<open>An edit that refers to itself is refused, and the tools go on as before.\<close>

lemma active_configuration_valid_witness:
  "validate_custom_tools (cw_active (timer_fires (Inr loop_config) (file_event (rn_watcher sample_running)))) =
     Some (Inr ()) \<and>
   (\<exists>r s'. respond 5 sample_env (CustomTool ''custom_pipe'' []) (rn_sys sample_running) = (Ret r, s'))"
proof -
  let ?w0 = "rn_watcher sample_running"
  let ?w1 = "file_event ?w0" let ?w2 = "timer_fires (Inr loop_config) ?w1"
  let ?s = "rn_sys sample_running"
  have w1: "watch_step ?w0 ?w1" by (rule watch_event) (simp add: sample_running_def start_watching_def)
  have w2: "watch_step ?w1 ?w2" by (rule watch_fire) (simp add: file_event_def)
  have steps: "(live_step sample_backend (rn_config sample_running))\<^sup>*\<^sup>* (?w0, ?s) (?w2, ?s)"
    by (rule rtranclp.rtrancl_into_rtrancl [OF r_into_rtranclp], rule live_watch [OF w1], rule live_watch [OF w2])
  have active: "cw_active ?w2 = sample_config"
    using loop_rejected
    by (simp add: timer_fires_def handle_change_def on_error_def file_event_def sample_running_def
        start_watching_def new_watcher_def)
  have locks: "cm_transactionLocks ?s = {}"
    by (simp add: sample_running_def set_on_schema_fetched_def modify_run initial_sys_def)
  from active_configuration_valid [OF sample_started steps, of sample_env "CustomTool ''custom_pipe'' []" 5] locks
  show ?thesis unfolding serving_config_def active by (simp add: sample_env_def sample_config_def)
qed

text \<open>
  C20: under starts, stops, crashes, time-outs, responses and new requests in any order, every
  request ever sent to the sidecar is either pending or settled, exactly once, and what it
  was settled with never changes afterwards.
\<close>

theorem requests_settle_once:
  assumes "client_step\<^sup>*\<^sup>* new_client c" and "client_step\<^sup>*\<^sup>* c c'"
  shows "distinct (map fst (sc_settled c)) \<and> fst ` set (sc_settled c) \<inter> dom (sc_pending c) = {} \<and>
     fst ` set (sc_settled c) \<union> dom (sc_pending c) = {1..sc_requestId c} \<and>
     (\<exists>new. sc_settled c' = sc_settled c @ new)"
  using sc.inv_reachable [OF refl assms(1)] client_steps_settled [OF assms(2)] by (simp add: client_inv_def)

lemma requests_settle_once_witness:
  "distinct (map fst (sc_settled waiting_client)) \<and>
   fst ` set (sc_settled waiting_client) \<inter> dom (sc_pending waiting_client) = {} \<and>
   fst ` set (sc_settled waiting_client) \<union> dom (sc_pending waiting_client) = {1..sc_requestId waiting_client} \<and>
   (\<exists>new. sc_settled (on_timeout 1 waiting_client) = sc_settled waiting_client @ new)"
  by (rule requests_settle_once [OF waiting_client_reached r_into_rtranclp]) (rule client_timeout)





text \<open>
  C23: validate_query always answers for a known connection and a query that is not blank;
  its verdict is the conjunction of the checks, and for a query that it finds syntactically
  valid execute_sql admits it exactly if the verdict is positive and the rules that
  validate_query does not know (content and read-only tables) accept it.
\<close>

theorem validate_verdict_exact:
  assumes "get_connection config (Some connection) = Inr conn" and "trim query \<noteq> []"
  shows "\<exists>v s'. handle_validate_query astify bk config connection query s = (Ret v, s') \<and>
     vd_multi_statement v = is_multi_statement astify query \<and>
     vd_category v = (if vd_syntax_valid v then Some (classify_query astify query) else None) \<and>
     (vd_would_be_allowed v \<longleftrightarrow> vd_syntax_valid v \<and> \<not> is_multi_statement astify query \<and>
        classify_query astify query \<in> permission_hierarchy (cc_permission conn)) \<and>
     (vd_syntax_valid v \<longrightarrow>
        (\<exists>category. execute_guards astify conn query = Inr category) =
        (vd_would_be_allowed v \<and> check_sql_security query (cc_allowAllPragmas conn) = Inr () \<and>
         check_read_only_tables query (classify_query astify query) (cc_readOnlyTables conn) = Inr ()))"
proof -
  obtain v s' where run: "handle_validate_query astify bk config connection query s = (Ret v, s')"
    and v: "verdict_ok astify conn query v"
    using handle_validate_query_answers [OF assms] by blast
  show ?thesis
    using run v admitted_iff_allowed [OF v _ assms(2)] unfolding verdict_ok_def by blast
qed

lemma validate_verdict_exact_witness:
  "\<exists>v s'. handle_validate_query no_parser sample_backend sample_config ''db'' ''SELECT 1'' (initial_sys []) = (Ret v, s')"
proof -
  have "trim ''SELECT 1'' \<noteq> []" by (simp add: sample_trim)
  from validate_verdict_exact [OF sample_lookup this] show ?thesis by blast
qed

text \<open>
  C24: validating a query that is a read (or several statements), parsed by the package, on a
  live connection with a known schema changes nothing: no statement is sent and no state of
  the server moves.
\<close>

theorem validating_a_read_is_silent:
  assumes "get_connection config (Some connection) = Inr conn" and "trim query \<noteq> []"
    and "schema_ready conn schema s" and "astify (number_marks 0 query) = Some ast"
    and "is_multi_statement astify query \<or> classify_query astify query = Read"
  shows "snd (handle_validate_query astify bk config connection query s) = s"
  by (rule validate_read_silent [OF assms])

lemma validating_a_read_is_silent_witness:
  "snd (handle_validate_query users_parser sample_backend sample_config ''db'' ''SELECT id FROM users'' ready_sys) = ready_sys"
proof (rule validating_a_read_is_silent [OF sample_lookup _ ready_sys_ready])
  show "trim ''SELECT id FROM users'' \<noteq> []" by code_simp
  show "users_parser (number_marks 0 ''SELECT id FROM users'') = Some users_ast" by (simp add: users_parser_def)
  show "is_multi_statement users_parser ''SELECT id FROM users'' \<or> classify_query users_parser ''SELECT id FROM users'' = Read"
    by code_simp
qed

text \<open>
  C25: when validate_query reports the schema as valid, every table that the syntax tree
  mentions is in the schema or defined by the query itself, and every column reference whose
  table resolves to a known table names a column of it.
\<close>

theorem schema_valid_sound:
  assumes "get_connection config (Some connection) = Inr conn" and "trim query \<noteq> []"
    and "schema_ready conn schema s" and "astify (number_marks 0 query) = Some ast"
    and "handle_validate_query astify bk config connection query s = (Ret v, s')" and "vd_schema_valid v = Some True"
  shows "(\<forall>t \<in> set (extract_table_refs ast). to_lower t \<in> extract_cte_names ast \<or> find_table t schema \<noteq> None) \<and>
     (\<forall>ref \<in> set (extract_column_refs ast).
       column_known (known_tables schema) (extract_cte_names ast) (extract_alias_map ast) ref)"
  using schema_warnings_Nil [OF schema_valid_no_warnings [where bk = bk, OF assms]] known_tables_dom by metis

lemma schema_valid_sound_witness:
  "\<exists>v s'. handle_validate_query users_parser sample_backend sample_config ''db'' ''SELECT id FROM users'' ready_sys = (Ret v, s') \<and>
     vd_schema_valid v = Some True \<and> set (extract_table_refs users_ast) \<subseteq>
       {t. to_lower t \<in> extract_cte_names users_ast \<or> find_table t \<lparr>si_tables = sample_tables\<rparr> \<noteq> None}"
proof -
  have trim: "trim ''SELECT id FROM users'' \<noteq> []" by code_simp
  have ast: "users_parser q = Some users_ast" for q by (simp add: users_parser_def)
  have "\<exists>v s'. handle_validate_query users_parser sample_backend sample_config ''db'' ''SELECT id FROM users'' ready_sys = (Ret v, s') \<and>
     vd_schema_valid v = Some True"
  proof -
    have "classify_query users_parser ''SELECT id FROM users'' = Read" "is_multi_statement users_parser ''SELECT id FROM users'' = False"
      by code_simp+
    moreover have "schema_warnings \<lparr>si_tables = sample_tables\<rparr> users_ast = Inr []" by code_simp
    moreover have "truthy users_ast" by (simp add: users_ast_def)
    ultimately show ?thesis
      using trim sample_lookup
      by (simp add: handle_validate_query_def run_simps ast check_permission_def Let_def references_ready [OF ready_sys_ready]
          add_estimate_def sample_connection_simps)
  qed
  then obtain v s' where run: "handle_validate_query users_parser sample_backend sample_config ''db'' ''SELECT id FROM users'' ready_sys = (Ret v, s')"
    "vd_schema_valid v = Some True" by blast
  from schema_valid_sound [OF sample_lookup trim ready_sys_ready ast this] run show ?thesis by blast
qed

section \<open>The audit log\<close>

text \<open>
  C26: a logger that starts on an empty file keeps a suffix of everything that was logged: it
  loses only entries that are not among the newest \<open>maxEntries\<close>, and holds fewer than one
  hundred entries more than that.
\<close>

theorem audit_retention:
  assumes "reliable fs content" and "jsonl_audit config" and "0 < ac_maxEntries config"
    and "content (lg_world l) = []" and "lg_writesSincePrune l = 0"
  shows "\<exists>k \<le> length es - nat (ac_maxEntries config).
     content (lg_world (log_all fs config es l)) = file_text (drop k (log_lines fs config es l)) \<and>
     length es - k < nat (ac_maxEntries config) + prune_interval"
proof -
  have "retains fs content (nat (ac_maxEntries config)) [] l"
    using assms(4,5) by (simp add: retains_def prune_interval_def file_text_def)
  from retains_log_all [OF assms(1-3) _ this, of es] show ?thesis
    unfolding retains_def by fastforce
qed

lemma audit_retention_witness:
  "\<exists>k \<le> length [sample_entry, sample_entry] - nat (ac_maxEntries sample_audit).
     id (lg_world (log_all memory_fs sample_audit [sample_entry, sample_entry] fresh_logger)) =
       file_text (drop k (log_lines memory_fs sample_audit [sample_entry, sample_entry] fresh_logger)) \<and>
     length [sample_entry, sample_entry] - k < nat (ac_maxEntries sample_audit) + prune_interval"
  by (rule audit_retention [OF memory_reliable sample_audit_simps fresh_logger_simps])

text \<open>
  C27: the entry that was logged last is the first one that query_history reads, field for
  field as it was logged (parameters up to what JSON can carry), also when the write pruned
  the file.
\<close>

theorem audit_entry_reads_back:
  assumes "reliable fs content" and "jsonl_audit config" and "0 < ac_maxEntries config"
    and "list_all clean_line ls" and "content (lg_world l) = file_text ls" and "list_all json_ok (ae_params e)"
  shows "\<exists>es. fst (read_entries fs config all_entries (snd (log_entry fs config e l))) =
     Ret (json_norm (audit_record (fs_now fs (lg_world l)) e) # es)"
  by (rule logged_entry_first [OF assms])

lemma audit_entry_reads_back_witness:
  "\<exists>es. fst (read_entries memory_fs sample_audit all_entries (snd (log_entry memory_fs sample_audit sample_entry fresh_logger))) =
     Ret (json_norm (audit_record (fs_now memory_fs (lg_world fresh_logger)) sample_entry) # es)"
  by (rule audit_entry_reads_back [OF memory_reliable sample_audit_simps, of "[]"])
    (simp_all add: fresh_logger_def file_text_def sample_entry_def)



section \<open>Upgrading and installing\<close>





text \<open>
  C31: on a network where every download ends, and without the tools to build from source, a
  sidecar binary that is there after the installation script is the untouched one of the
  current version, or its hash is the one for this platform in the checksums of the release,
  as the network delivers them at the end of the redirects.
\<close>

theorem installed_binary_verified:
  assumes "settled_network net" and "\<And>f. \<exists>e. pi_goVersion env f = (Inl e, f)"
    and "\<And>n. path_join (pi_driversDir env) n \<noteq> local_binary_path env"
    and "postinstall (on_network net env) f = (r, f')" and "f' (local_binary_path env) = Some content"
  shows "(f' = f \<and> get_installed_version env f = Some (pi_version env)) \<or>
     (\<exists>key checksums u. get_platform_key (pi_platform env) (pi_arch env) = Some key \<and>
        (redirects net)\<^sup>*\<^sup>* (asset_url env ''checksums-sha256.txt'') u \<and> delivers net u (Inr checksums) \<and>
        expected_hash checksums (get_binary_name key) = Some (pi_sha256 env content))"
  by (rule network_binary_verified [OF assms])

lemma installed_binary_verified_witness:
  "(snd (postinstall (on_network sample_net sample_install) Map.empty) = Map.empty \<and>
      get_installed_version sample_install Map.empty = Some (pi_version sample_install)) \<or>
   (\<exists>key checksums u. get_platform_key (pi_platform sample_install) (pi_arch sample_install) = Some key \<and>
      (redirects sample_net)\<^sup>*\<^sup>* (asset_url sample_install ''checksums-sha256.txt'') u \<and>
      delivers sample_net u (Inr checksums) \<and>
      expected_hash checksums (get_binary_name key) = Some (pi_sha256 sample_install ''abc''))"
  by (rule installed_binary_verified [OF sample_net_settled sample_install_ok prod.collapse [symmetric] sample_install_run])

section \<open>Editing the configuration\<close>



section \<open>Classification and content rules\<close>





section \<open>Templates and pipelines\<close>




text \<open>
  C36: a text value that a pipeline inlines is quoted so that a standard SQL reader gets
  exactly that value back and continues with exactly the text after it.
\<close>

theorem inlined_text_reads_back:
  assumes "rest = [] \<or> hd rest \<noteq> CHR 0x27"
  shows "\<exists>body. expand_value stepName columnName (JStr s) = Inr (CHR 0x27 # body) \<and>
     read_literal (body @ rest) = Some (s, rest)"
proof -
  obtain body where "sql_quote s @ rest = CHR 0x27 # body" "read_literal body = Some (s, rest)"
    using sql_quote_reads_back [OF assms] by blast
  moreover have "\<exists>b. sql_quote s = CHR 0x27 # b" by (simp add: sql_quote_def quote_single_def)
  ultimately show ?thesis by (auto simp: expand_value_def)
qed

lemma inlined_text_reads_back_witness:
  "\<exists>body. expand_value ''a'' ''name'' (JStr (''O'' @ [CHR 0x27] @ ''Hara'')) = Inr (CHR 0x27 # body) \<and>
     read_literal (body @ '')'') = Some (''O'' @ [CHR 0x27] @ ''Hara'', '')'')"
  by (rule inlined_text_reads_back) simp

section \<open>Configuration\<close>

text \<open>
  C37: a connection for which neither its own entry nor the defaults give a permission is
  loaded as read-only, and PRAGMAs are restricted unless its entry says otherwise.
\<close>

theorem loaded_read_only_by_default:
  assumes "parse_config env raw path = Inr cfg" and "obj_get (raw_connections raw) name = Some rc"
    and "nonempty (rc_permission rc) = None"
    and "nonempty (Option.bind (raw_defaults_of raw) rd_permission) = None"
  shows "\<exists>c. obj_get (oc_connections cfg) name = Some c \<and> cc_name c = name \<and> cc_permission c = ReadOnly \<and>
     (cc_allowAllPragmas c = Some True \<longleftrightarrow> rc_allow_all_pragmas rc = Some True)"
proof -
  obtain d c where d: "parse_defaults (raw_defaults_of raw) = Inr d"
    and c: "parse_connection env d (name, rc) = Inr (name, c)" and got: "obj_get (oc_connections cfg) name = Some c"
    using loaded_connection [OF assms(1,2)] by blast
  have "cd_permission d = ReadOnly"
    using d assms(4) by (auto simp: parse_defaults_def optional_permission_def bindR_eq_Inr)
  then show ?thesis
    using parse_connection_name [OF c] got assms(3)
    by (auto simp: optional_permission_def split: option.splits)
qed

definition sample_env_vars :: process_env where
  "sample_env_vars = \<lparr>pe_var = (\<lambda>_. None), pe_cwd = ''/'', pe_exists = (\<lambda>_. False), pe_dirname = (\<lambda>p. p),
     pe_join = concat, pe_resolve = (\<lambda>p. p)\<rparr>"

definition sample_raw :: raw_config where
  "sample_raw = \<lparr>raw_connections = [(''db'', \<lparr>rc_dsn = Some ''sqlite:x.db'', rc_permission = None, rc_timeout = None,
       rc_max_rows = Some 3, rc_schema_filter = None, rc_allow_all_pragmas = None, rc_max_value_length = None,
       rc_read_only_tables = None\<rparr>)],
     raw_defaults_of = None, raw_tools = None, raw_audit_of = None, raw_schema_hints = None\<rparr>"

lemma sample_parse:
  "parse_config sample_env_vars sample_raw None = Inr (sample_config\<lparr>oc_tools := None\<rparr>)"
  by code_simp

lemma loaded_read_only_by_default_witness:
  "\<exists>c. obj_get (oc_connections (sample_config\<lparr>oc_tools := None\<rparr>)) ''db'' = Some c \<and> cc_name c = ''db'' \<and>
     cc_permission c = ReadOnly \<and>
     (cc_allowAllPragmas c = Some True \<longleftrightarrow> rc_allow_all_pragmas (snd (hd (raw_connections sample_raw))) = Some True)"
  by (rule loaded_read_only_by_default [OF sample_parse]) (simp_all add: sample_raw_def nonempty_def)

section \<open>Results\<close>





section \<open>Relationships and statistics\<close>

text \<open>
  C40: the graph of get_relationships has one node per table that a relationship mentions,
  and the references and back references of a node are exactly the labels of the
  relationships that leave and enter its table, without duplicates.
\<close>

theorem relationship_graph_exact:
  "distinct (obj_keys (relationship_graph rs)) \<and>
   (\<forall>n. case obj_get (relationship_graph rs) n of
       None \<Rightarrow> n \<notin> rl_from_table ` set rs \<union> rl_to_table ` set rs
     | Some node \<Rightarrow> n \<in> rl_from_table ` set rs \<union> rl_to_table ` set rs \<and> tn_name node = n \<and>
         set (tn_references node) = ref_label ` {r \<in> set rs. rl_from_table r = n} \<and>
         set (tn_referenced_by node) = reverse_label ` {r \<in> set rs. rl_to_table r = n} \<and>
         distinct (tn_references node) \<and> distinct (tn_referenced_by node))"
proof (intro conjI allI)
  have inv: "graph_inv rs (relationship_graph rs)" by (rule relationship_graph_inv)
  then show "distinct (obj_keys (relationship_graph rs))" unfolding graph_inv_def by blast
  fix n
  have none: "obj_get (relationship_graph rs) n = None \<longleftrightarrow> n \<notin> rl_from_table ` set rs \<union> rl_to_table ` set rs"
    using inv unfolding graph_inv_def by blast
  show "case obj_get (relationship_graph rs) n of
       None \<Rightarrow> n \<notin> rl_from_table ` set rs \<union> rl_to_table ` set rs
     | Some node \<Rightarrow> n \<in> rl_from_table ` set rs \<union> rl_to_table ` set rs \<and> tn_name node = n \<and>
         set (tn_references node) = ref_label ` {r \<in> set rs. rl_from_table r = n} \<and>
         set (tn_referenced_by node) = reverse_label ` {r \<in> set rs. rl_to_table r = n} \<and>
         distinct (tn_references node) \<and> distinct (tn_referenced_by node)"
  proof (cases "obj_get (relationship_graph rs) n")
    case None
    from this none show ?thesis unfolding None option.case by blast
  next
    case (Some node)
    have "tn_name node = n \<and> set (tn_references node) = ref_label ` {r \<in> set rs. rl_from_table r = n} \<and>
        set (tn_referenced_by node) = reverse_label ` {r \<in> set rs. rl_to_table r = n} \<and>
        distinct (tn_references node) \<and> distinct (tn_referenced_by node)"
      using inv Some unfolding graph_inv_def by blast
    moreover have "n \<in> rl_from_table ` set rs \<union> rl_to_table ` set rs"
      using none Some by (metis option.distinct(1))
    ultimately show ?thesis unfolding Some option.case by (intro conjI) simp_all
  qed
qed

section \<open>Further theorems\<close>

text \<open>
  The statements of a steps tool are checked together: when the guards accept, every
  statement passed the content rules and has a category that the effective permission
  allows, although only the worst category is compared with it.
\<close>

theorem steps_guards_check_each:
  assumes "steps_guards env tool args = Inr (conn, sub)"
  shows "get_connection (te_config env) (ct_connection tool) = Inr conn \<and>
     length sub = length (or_else (ct_steps tool) []) \<and>
     (\<forall>(sql, vs) \<in> set sub. check_sql_security sql (cc_allowAllPragmas conn) = Inr () \<and>
        classify_query (te_astify env) sql \<in> permission_hierarchy (effective_permission conn tool))"
  using steps_guards_Inr [OF assms] by (auto dest: list_all2_lengthD)

lemma steps_guards_check_each_witness:
  "get_connection (te_config sample_env) (ct_connection steps_tool) = Inr sample_connection \<and>
     length [(''SELECT 1'', [] :: jsval list)] = length (or_else (ct_steps steps_tool) []) \<and>
     check_sql_security ''SELECT 1'' (cc_allowAllPragmas sample_connection) = Inr () \<and>
     classify_query (te_astify sample_env) ''SELECT 1'' \<in> permission_hierarchy (effective_permission sample_connection steps_tool)"
  using steps_guards_check_each [OF sample_steps_guards] by simp

text \<open>
  A reference to a column of an earlier step expands exactly when the step ran, has
  the column and at least one row, and every row has a number or a text there; otherwise
  the call fails with COMPOSE_ERROR.
\<close>

theorem reference_expansion_exact:
  "((\<exists>w. expand_reference ctx stepName columnName = Inr w) \<longleftrightarrow> reference_ok ctx stepName columnName) \<and>
   (\<forall>e. expand_reference ctx stepName columnName = Inl e \<longrightarrow> err_code e = ''COMPOSE_ERROR'')"
  using expand_reference_Inr [of ctx stepName columnName] expand_reference_error [of ctx stepName columnName]
  by blast

lemma reference_expansion_exact_witness:
  "\<exists>e. expand_reference [] ''a'' ''n'' = Inl e \<and> err_code e = ''COMPOSE_ERROR''"
proof -
  have "\<not> reference_ok [] ''a'' ''n''" by (simp add: reference_ok_def)
  then show ?thesis using reference_expansion_exact [of "[]" "''a''" "''n''"]
    by (cases "expand_reference [] ''a'' ''n''") auto
qed

text \<open>
  Looking a connection up in a loaded configuration finds one of its connections,
  whose name is the requested one up to case; a name that is present as it is written
  always finds its own entry.
\<close>

theorem connection_lookup_sound:
  assumes "parse_config env raw path = Inr cfg" and "get_connection cfg (Some name) = Inr c"
  shows "c \<in> snd ` set (oc_connections cfg) \<and> to_lower (cc_name c) = to_lower name \<and>
     (case obj_get (raw_connections raw) name of None \<Rightarrow> True | Some rc \<Rightarrow> cc_name c = name)"
proof -
  have "cc_name c = name" if raw: "obj_get (raw_connections raw) name = Some rc" for rc
  proof -
    obtain d e where "parse_connection env d (name, rc) = Inr (name, e)" "obj_get (oc_connections cfg) name = Some e"
      using loaded_connection [OF assms(1) raw] by blast
    then show ?thesis using assms(2) parse_connection_name by (auto simp: get_connection_def)
  qed
  then show ?thesis
    using get_connection_mem [OF assms(2)] get_connection_lower [OF parse_config_names [OF assms(1)] assms(2)]
    by (simp split: option.split)
qed

lemma connection_lookup_sound_witness:
  "sample_connection \<in> snd ` set (oc_connections (sample_config\<lparr>oc_tools := None\<rparr>)) \<and>
     to_lower (cc_name sample_connection) = to_lower ''DB'' \<and>
     (case obj_get (raw_connections sample_raw) ''DB'' of None \<Rightarrow> True | Some rc \<Rightarrow> cc_name sample_connection = ''DB'')"
proof (rule connection_lookup_sound [OF sample_parse])
  show "get_connection (sample_config\<lparr>oc_tools := None\<rparr>) (Some ''DB'') = Inr sample_connection" by code_simp
qed

text \<open>
  On a live connection whose backend answers a row limit with the first rows of the
  full result, execute_sql returns exactly the rows that its offset and limit name, each
  value shortened to the length limit.
\<close>

theorem execute_sql_page:
  assumes "get_connection config (Some (xa_connection args)) = Inr conn"
    and "execute_guards astify conn (xa_query args) = Inr category"
    and "cc_name conn \<in> cm_connectedIds s"
    and "bk_execute bk (cc_name conn) (xa_query args) (xa_params args)
        \<lparr>eo_maxRows = Some (page_offset args + effective_limit conn args),
         eo_timeoutMs = Some (cc_timeout conn)\<rparr> (sys_world s) = (Inr result, w)"
    and "qr_rows result = take (nat (page_offset args + effective_limit conn args)) full"
    and "0 \<le> page_offset args" and "0 \<le> effective_limit conn args"
  shows "\<exists>s' formatted. handle_execute_sql astify bk config auditLogger args s = (Ret formatted, s') \<and>
     fr_rows formatted = map (map (\<lambda>v. truncate_value v (or_else (cc_maxValueLength conn) default_max_value_length)))
       (take (nat (effective_limit conn args)) (drop (nat (page_offset args)) full))"
  using execute_admitted [OF assms(1-4), of auditLogger] page_of_prefix [OF assms(5-7)] by auto

definition live_sys :: "string list sys" where
  "live_sys = (initial_sys [])\<lparr>cm_connectedIds := {''db''}\<rparr>"

lemma execute_sql_page_witness:
  "\<exists>s' formatted. handle_execute_sql no_parser sample_backend sample_config True sample_request live_sys = (Ret formatted, s') \<and>
     fr_rows formatted = map (map (\<lambda>v. truncate_value v (or_else (cc_maxValueLength sample_connection) default_max_value_length)))
       (take (nat (effective_limit sample_connection sample_request)) (drop (nat (page_offset sample_request)) sample_rows))"
proof (rule execute_sql_page [where result = "sample_result\<lparr>qr_rows := take 5 sample_rows\<rparr>" and w = "[''SELECT 1'']"])
  show "get_connection sample_config (Some (xa_connection sample_request)) = Inr sample_connection"
    by (simp add: sample_request_def sample_lookup)
  show "execute_guards no_parser sample_connection (xa_query sample_request) = Inr Read"
    by (simp add: sample_request_def sample_execute_guards)
qed (simp_all add: live_sys_def sample_connection_simps sample_backend_def sample_request_def effective_limit_def
    initial_sys_def)

text \<open>
  A column's null percentage lies between 0 and 100, with two decimals, when the
  database counts no more nulls than rows and no fewer than zero.
\<close>

theorem null_percentage_bounds:
  assumes "num_less (Fin False 0 0) totalRows" and "\<not> num_less nulls (Fin False 0 0)"
    and "\<not> num_less totalRows nulls" and "nulls = Fin n m e" and "totalRows = Fin n' m' e'"
    and "nulls = number_or_zero (get_value columns row (safe_alias ''_null_'' (col_name col)))"
  shows "\<exists>r. cst_null_percentage (column_stats_of columns row totalRows col) = hundredths r \<and> 0 \<le> r \<and> r \<le> 10000"
  using percentage_bounds [OF assms(1-5)] assms(1,6) by (simp add: column_stats_of_def Let_def)

lemma null_percentage_bounds_witness:
  "\<exists>r. cst_null_percentage (column_stats_of [''_total'', ''_null_n''] [JNum (int_num 3), JNum (int_num 1)] (int_num 3)
      (hd (tb_columns (sample_table ''t'' ''n'')))) = hundredths r \<and> 0 \<le> r \<and> r \<le> 10000"
  by (rule null_percentage_bounds [where nulls = "Fin False 1 0" and n = False and m = 1 and e = 0 and n' = False and m' = 3 and e' = 0])
    (code_simp)+

end
